theory Spec2Isabelle
  imports Complex_Main "HOL-Library.Sublist"
begin

section \<open>Common vocabulary\<close>

subsection \<open>Strings\<close>

text \<open>
  A JavaScript string is the list of its UTF-16 code units, each a natural number (a
  number below 65536 in every string the program meets). \<open>str\<close> turns a literal of the
  source, written here in ASCII, into its code units.
\<close>

type_synonym js_string = "nat list"

definition str :: "string \<Rightarrow> js_string" where
  "str s = map of_char s"

text \<open>
  The white space of \<^verbatim>\<open>trim()\<close> and of the regular expression class \<^verbatim>\<open>\s\<close>: the code
  points \<^verbatim>\<open>WhiteSpace\<close> and \<^verbatim>\<open>LineTerminator\<close> of ECMAScript, that is tab, line feed,
  vertical tab, form feed, carriage return, space, no-break space, the other space
  separators of Unicode (U+1680, U+2000 to U+200A, U+202F, U+205F, U+3000), the line and
  paragraph separators U+2028 and U+2029, and the byte order mark U+FEFF.
\<close>

definition is_space :: "nat \<Rightarrow> bool" where
  "is_space c =
     (c \<in> set [0x09, 0x0A, 0x0B, 0x0C, 0x0D, 0x20, 0xA0, 0x1680, 0x2000, 0x2001, 0x2002,
                0x2003, 0x2004, 0x2005, 0x2006, 0x2007, 0x2008, 0x2009, 0x200A, 0x2028,
                0x2029, 0x202F, 0x205F, 0x3000, 0xFEFF])"

definition trimStart :: "js_string \<Rightarrow> js_string" where
  "trimStart s = dropWhile is_space s"

definition trimEnd :: "js_string \<Rightarrow> js_string" where
  "trimEnd s = rev (dropWhile is_space (rev s))"

definition trim :: "js_string \<Rightarrow> js_string" where
  "trim s = trimEnd (trimStart s)"

definition startsWith :: "js_string \<Rightarrow> js_string \<Rightarrow> bool" where
  "startsWith s p = (take (length p) s = p)"

definition endsWith :: "js_string \<Rightarrow> js_string \<Rightarrow> bool" where
  "endsWith s p = (length p \<le> length s \<and> drop (length s - length p) s = p)"

text \<open>\<^verbatim>\<open>s.includes(p)\<close>: \<open>p\<close> occurs in \<open>s\<close> as a contiguous substring.\<close>

fun str_includes :: "js_string \<Rightarrow> js_string \<Rightarrow> bool" where
  "str_includes [] p = (p = [])"
| "str_includes (c # s) p = (startsWith (c # s) p \<or> str_includes s p)"

text \<open>\<^verbatim>\<open>s.replace(p, r)\<close> with a string pattern: the first occurrence only.\<close>

fun replace_first :: "js_string \<Rightarrow> js_string \<Rightarrow> js_string \<Rightarrow> js_string" where
  "replace_first [] p r = (if p = [] then r else [])"
| "replace_first (c # s) p r =
     (if startsWith (c # s) p then r @ drop (length p) (c # s)
      else c # replace_first s p r)"

text \<open>
  \<^verbatim>\<open>toLowerCase()\<close> as far as the code needs it: it is only applied to the host name of a
  parsed URL, which is ASCII, so the letters A to Z are lowered and every other code unit
  is left as it is.
\<close>

definition toLowerCase :: "js_string \<Rightarrow> js_string" where
  "toLowerCase s = map (\<lambda>c. if 65 \<le> c \<and> c \<le> 90 then c + 32 else c) s"

text \<open>\<^verbatim>\<open>xs.join(sep)\<close> on an array of strings.\<close>

fun join :: "js_string \<Rightarrow> js_string list \<Rightarrow> js_string" where
  "join sep [] = []"
| "join sep [x] = x"
| "join sep (x # y # ys) = x @ sep @ join sep (y # ys)"

subsection \<open>Outcomes and effects\<close>

text \<open>
  JavaScript numbers that come out of \<^verbatim>\<open>parseFloat\<close> are modelled as exact rationals;
  counters and progress values, which the code only ever builds from integer literals,
  \<^verbatim>\<open>Math.floor\<close> and \<^verbatim>\<open>Math.min\<close>, are naturals. An \<^verbatim>\<open>await\<close>ed external call either throws
  (what is kept is the message the \<^verbatim>\<open>catch\<close> block reads from the thrown value) or returns
  a value.
\<close>

datatype 'a outcome = Threw js_string | Returned 'a

text \<open>
  The externally visible effects the functions below perform, in program order:
  a call of the \<^verbatim>\<open>onProgress\<close> callback (its message argument is not kept), a
  \<^verbatim>\<open>setTimeout\<close> sleep in milliseconds, one run of ffmpeg
  (chunk index, \<^verbatim>\<open>-ss\<close>, \<^verbatim>\<open>-t\<close>), one \<^verbatim>\<open>fileManager.uploadFile\<close> request and one
  \<^verbatim>\<open>model.generateContent\<close> request.
\<close>

datatype event =
    Progress nat
  | Sleep nat
  | Exec_ffmpeg nat rat rat
  | Call_uploadFile
  | Call_generateContent

text \<open>\<^verbatim>\<open>onProgress?.(p, msg)\<close>: the callback is optional.\<close>

definition onProgress_call :: "bool \<Rightarrow> nat \<Rightarrow> event list" where
  "onProgress_call onProgress p = (if onProgress then [Progress p] else [])"

definition progress_values :: "event list \<Rightarrow> nat list" where
  "progress_values evs = concat (map (\<lambda>e. case e of Progress p \<Rightarrow> [p] | _ \<Rightarrow> []) evs)"

definition sleeps :: "event list \<Rightarrow> nat list" where
  "sleeps evs = concat (map (\<lambda>e. case e of Sleep ms \<Rightarrow> [ms] | _ \<Rightarrow> []) evs)"

definition ffmpeg_runs :: "event list \<Rightarrow> (nat \<times> rat \<times> rat) list" where
  "ffmpeg_runs evs = concat (map (\<lambda>e. case e of Exec_ffmpeg i s d \<Rightarrow> [(i, s, d)] | _ \<Rightarrow> []) evs)"

definition upload_attempts :: "event list \<Rightarrow> nat" where
  "upload_attempts evs = length (filter (\<lambda>e. e = Call_uploadFile) evs)"

definition generate_attempts :: "event list \<Rightarrow> nat" where
  "generate_attempts evs = length (filter (\<lambda>e. e = Call_generateContent) evs)"

section \<open>Claim extraction, verification and scoring (factCheckService)\<close>

subsection \<open>The values of \<^verbatim>\<open>JSON.parse\<close>\<close>

text \<open>
  \<^verbatim>\<open>JSON.parse\<close> returns a value of any shape, whatever type the code declares for it: null,
  a boolean, a number, a string, an array or an object (its members in a list; the first
  entry of a name is the member). A number is finite, or an infinity where the literal
  overflows. \<open>JUndefined\<close> is what reading an absent property gives.
\<close>

datatype js_number = Finite rat | Infinity | Minus_Infinity

datatype js_value =
    JUndefined
  | JNull
  | JBool bool
  | JNum js_number
  | JStr js_string
  | JArr "js_value list"
  | JObj "(js_string \<times> js_value) list"

definition js_nat :: "nat \<Rightarrow> js_value" where
  "js_nat n = JNum (Finite (of_nat n))"

text \<open>
  Reading \<^verbatim>\<open>v.name\<close>, for the property names the code reads as data (\<^verbatim>\<open>length\<close>,
  \<^verbatim>\<open>claimIndex\<close>, \<^verbatim>\<open>text\<close>, \<^verbatim>\<open>timestamp\<close>, \<^verbatim>\<open>status\<close>, \<^verbatim>\<open>score\<close>, \<^verbatim>\<open>explanation\<close>, \<^verbatim>\<open>wrongPart\<close>,
  \<^verbatim>\<open>correction\<close>, \<^verbatim>\<open>sources\<close>). On null and undefined the read throws a \<^verbatim>\<open>TypeError\<close>, which
  is \<open>None\<close> here; on every other value it gives the member of that name, the length of
  an array or of a string, and otherwise undefined.
\<close>

fun get_property :: "js_value \<Rightarrow> js_string \<Rightarrow> js_value option" where
  "get_property JUndefined name = None"
| "get_property JNull name = None"
| "get_property (JBool b) name = Some JUndefined"
| "get_property (JNum n) name = Some JUndefined"
| "get_property (JStr s) name =
     Some (if name = str ''length'' then js_nat (length s) else JUndefined)"
| "get_property (JArr xs) name =
     Some (if name = str ''length'' then js_nat (length xs) else JUndefined)"
| "get_property (JObj members) name =
     Some (case map_of members name of Some v \<Rightarrow> v | None \<Rightarrow> JUndefined)"

text \<open>The same read where the value is known to be an object, so that it cannot throw.\<close>

definition property :: "js_value \<Rightarrow> js_string \<Rightarrow> js_value" where
  "property v name = (case get_property v name of Some x \<Rightarrow> x | None \<Rightarrow> JUndefined)"

text \<open>What \<^verbatim>\<open>||\<close> and \<^verbatim>\<open>? :\<close> test.\<close>

fun truthy :: "js_value \<Rightarrow> bool" where
  "truthy JUndefined = False"
| "truthy JNull = False"
| "truthy (JBool b) = b"
| "truthy (JNum n) = (n \<noteq> Finite 0)"
| "truthy (JStr s) = (s \<noteq> [])"
| "truthy (JArr xs) = True"
| "truthy (JObj members) = True"

text \<open>
  The messages of the two kinds of \<^verbatim>\<open>TypeError\<close> the code can run into, in the wording of
  V8, the engine of Node.js: reading a property of null or undefined, and calling what is
  not a function.
\<close>

definition cannot_read :: "js_value \<Rightarrow> js_string \<Rightarrow> js_string" where
  "cannot_read v name =
     str ''Cannot read properties of '' @
     (if v = JNull then str ''null'' else str ''undefined'') @
     str '' (reading '' @ [39] @ name @ [39] @ str '')''"

definition not_a_function :: "js_string \<Rightarrow> js_string" where
  "not_a_function callee = callee @ str '' is not a function''"

text \<open>
  The receiver of a call \<^verbatim>\<open>v.map(...)\<close> or \<^verbatim>\<open>v.find(...)\<close>: the elements when \<open>v\<close> is an
  array; on every other value the call throws, no other value having a function under
  these names.
\<close>

definition array_method :: "js_string \<Rightarrow> js_value \<Rightarrow> js_string \<Rightarrow> js_string + js_value list" where
  "array_method variable v name =
     (case v of
        JArr xs \<Rightarrow> Inr xs
      | JNull \<Rightarrow> Inl (cannot_read JNull name)
      | JUndefined \<Rightarrow> Inl (cannot_read JUndefined name)
      | _ \<Rightarrow> Inl (not_a_function (variable @ str ''.'' @ name)))"

subsection \<open>Reports\<close>

text \<open>
  A claim of the report, without its \<^verbatim>\<open>id\<close> (a fresh UUID). The code copies each field from
  the parsed values without looking at it, so a field holds whatever value was parsed,
  or undefined.
\<close>

record Claim =
  claim_text :: js_value
  timestamp :: js_value
  status :: js_value
  score :: js_value
  explanation :: js_value
  wrongPart :: js_value
  correction :: js_value
  sources :: js_value

record Summary =
  totalClaims :: nat
  trueClaims :: nat
  falseClaims :: nat
  partiallyTrueClaims :: nat
  unverifiableClaims :: nat

record FactCheckResult =
  claims :: "Claim list"
  overallScore :: int
  summary :: Summary

subsection \<open>Parsing the two responses\<close>

text \<open>
  Removal of an optional Markdown code fence (lines 59--64 and 141--146):
  \<^verbatim>\<open>replace(/^```json\s*/, '')\<close> drops the opening fence and the white space after it,
  \<^verbatim>\<open>replace(/\s*```$/, '')\<close> drops a closing fence at the very end together with the
  white space before it.
\<close>

definition strip_closing_fence :: "js_string \<Rightarrow> js_string" where
  "strip_closing_fence s =
     (if endsWith s (str ''```'') then trimEnd (take (length s - 3) s) else s)"

definition cleanJson :: "js_string \<Rightarrow> js_string" where
  "cleanJson text =
     (let c = trim text in
      if startsWith c (str ''```json'') then strip_closing_fence (trimStart (drop 7 c))
      else if startsWith c (str ''```'') then strip_closing_fence (trimStart (drop 3 c))
      else c)"

text \<open>The array the first \<^verbatim>\<open>catch\<close> block puts in place of the extracted claims (line 68).\<close>

definition placeholder_claims :: js_value where
  "placeholder_claims =
     JArr [JObj [(str ''text'', JStr (str ''Unable to extract specific claims'')),
                 (str ''timestamp'', JUndefined)]]"

text \<open>The object the second \<^verbatim>\<open>catch\<close> block builds for the claim of a given index.\<close>

definition unverifiable_verdict :: "nat \<Rightarrow> js_value" where
  "unverifiable_verdict index =
     JObj [(str ''claimIndex'', js_nat index),
           (str ''status'', JStr (str ''unverifiable'')),
           (str ''score'', js_nat 50),
           (str ''explanation'', JStr (str ''Unable to verify this claim'')),
           (str ''wrongPart'', JUndefined),
           (str ''correction'', JUndefined),
           (str ''sources'', JArr [])]"

text \<open>
  The two parsing steps (lines 57--69 and 140--159). \<^verbatim>\<open>JSON.parse\<close> is a parameter; it
  gives \<open>None\<close> where it throws. The second \<^verbatim>\<open>catch\<close> block calls \<^verbatim>\<open>extractedClaims.map\<close>,
  which throws in its turn when the extracted claims are not an array.
\<close>

definition parse_extraction :: "(js_string \<Rightarrow> js_value option) \<Rightarrow> js_string \<Rightarrow> js_value" where
  "parse_extraction JSON_parse extractionText =
     (case JSON_parse (cleanJson extractionText) of
        Some parsed \<Rightarrow> parsed
      | None \<Rightarrow> placeholder_claims)"

definition parse_factCheck ::
  "(js_string \<Rightarrow> js_value option) \<Rightarrow> js_string \<Rightarrow> js_value \<Rightarrow> js_string + js_value" where
  "parse_factCheck JSON_parse factCheckText extractedClaims =
     (case JSON_parse (cleanJson factCheckText) of
        Some parsed \<Rightarrow> Inr parsed
      | None \<Rightarrow>
         (case array_method (str ''extractedClaims'') extractedClaims (str ''map'') of
            Inl err \<Rightarrow> Inl err
          | Inr xs \<Rightarrow> Inr (JArr (map unverifiable_verdict [0..<length xs]))))"

subsection \<open>Assembling the claims\<close>

text \<open>The object literal of line 165, used when no verdict is found.\<close>

definition fallback_checkResult :: js_value where
  "fallback_checkResult =
     JObj [(str ''status'', JStr (str ''unverifiable'')),
           (str ''score'', js_nat 50),
           (str ''explanation'', JStr (str ''Unable to verify'')),
           (str ''wrongPart'', JUndefined),
           (str ''correction'', JUndefined),
           (str ''sources'', JArr [])]"

text \<open>
  \<^verbatim>\<open>factCheckData.find(f => f.claimIndex === index)\<close> on the elements of the array: the
  first element whose \<^verbatim>\<open>claimIndex\<close> is the number \<open>index\<close>. Reading \<^verbatim>\<open>claimIndex\<close> throws on
  a null element that is reached before a match.
\<close>

fun find_claimIndex :: "nat \<Rightarrow> js_value list \<Rightarrow> js_string + js_value option" where
  "find_claimIndex index [] = Inr None"
| "find_claimIndex index (f # fs) =
     (case get_property f (str ''claimIndex'') of
        None \<Rightarrow> Inl (cannot_read f (str ''claimIndex''))
      | Some v \<Rightarrow> if v = js_nat index then Inr (Some f) else find_claimIndex index fs)"

text \<open>The object literal of lines 174--185; \<^verbatim>\<open>claim.text\<close> is the first read of \<open>claim\<close>.\<close>

definition make_claim :: "js_value \<Rightarrow> js_value \<Rightarrow> js_string + Claim" where
  "make_claim claim checkResult =
     (case get_property claim (str ''text'') of
        None \<Rightarrow> Inl (cannot_read claim (str ''text''))
      | Some text \<Rightarrow>
          Inr \<lparr>claim_text = text,
               timestamp = property claim (str ''timestamp''),
               status = property checkResult (str ''status''),
               score = property checkResult (str ''score''),
               explanation = property checkResult (str ''explanation''),
               wrongPart = property checkResult (str ''wrongPart''),
               correction = property checkResult (str ''correction''),
               sources =
                 (if property checkResult (str ''status'') = JStr (str ''true'') then JArr []
                  else if truthy (property checkResult (str ''sources''))
                  then property checkResult (str ''sources'')
                  else JArr [])\<rparr>)"

text \<open>The callback of \<^verbatim>\<open>extractedClaims.map\<close> at lines 164--186.\<close>

definition build_claim :: "js_value \<Rightarrow> nat \<Rightarrow> js_value \<Rightarrow> js_string + Claim" where
  "build_claim factCheckData index claim =
     (case array_method (str ''factCheckData'') factCheckData (str ''find'') of
        Inl err \<Rightarrow> Inl err
      | Inr verdicts \<Rightarrow>
         (case find_claimIndex index verdicts of
            Inl err \<Rightarrow> Inl err
          | Inr found \<Rightarrow>
              make_claim claim
                (case found of
                   Some f \<Rightarrow> if truthy f then f else fallback_checkResult
                 | None \<Rightarrow> fallback_checkResult)))"

text \<open>\<^verbatim>\<open>map\<close> calls the callback on the elements in order; the first throw ends it.\<close>

fun build_from :: "js_value \<Rightarrow> nat \<Rightarrow> js_value list \<Rightarrow> js_string + Claim list" where
  "build_from factCheckData index [] = Inr []"
| "build_from factCheckData index (claim # rest) =
     (case build_claim factCheckData index claim of
        Inl err \<Rightarrow> Inl err
      | Inr c \<Rightarrow>
         (case build_from factCheckData (index + 1) rest of
            Inl err \<Rightarrow> Inl err
          | Inr cs \<Rightarrow> Inr (c # cs)))"

definition build_claims :: "js_value \<Rightarrow> js_value \<Rightarrow> js_string + Claim list" where
  "build_claims factCheckData extractedClaims =
     (case array_method (str ''extractedClaims'') extractedClaims (str ''map'') of
        Inl err \<Rightarrow> Inl err
      | Inr xs \<Rightarrow> build_from factCheckData 0 xs)"

subsection \<open>Summary and score\<close>

definition count_status :: "js_string \<Rightarrow> Claim list \<Rightarrow> nat" where
  "count_status s cs = length (filter (\<lambda>c. status c = JStr s) cs)"

definition make_summary :: "Claim list \<Rightarrow> Summary" where
  "make_summary cs =
     \<lparr>totalClaims = length cs,
      trueClaims = count_status (str ''true'') cs,
      falseClaims = count_status (str ''false'') cs,
      partiallyTrueClaims = count_status (str ''partially_true'') cs,
      unverifiableClaims = count_status (str ''unverifiable'') cs\<rparr>"

text \<open>\<^verbatim>\<open>Math.round\<close>: the nearest integer, a tie going up.\<close>

definition Math_round :: "rat \<Rightarrow> int" where
  "Math_round x = \<lfloor>x + 1 / 2\<rfloor>"

definition calc_overallScore :: "Summary \<Rightarrow> int" where
  "calc_overallScore s =
     (if totalClaims s = 0 then 100
      else
        (let weightedSum =
               trueClaims s * 100 + partiallyTrueClaims s * 50 +
               unverifiableClaims s * 50 + falseClaims s * 0
         in Math_round (of_nat weightedSum / of_nat (totalClaims s))))"

definition empty_result :: FactCheckResult where
  "empty_result =
     \<lparr>claims = [], overallScore = 100,
      summary = \<lparr>totalClaims = 0, trueClaims = 0, falseClaims = 0,
                 partiallyTrueClaims = 0, unverifiableClaims = 0\<rparr>\<rparr>"

subsection \<open>The analysis\<close>

text \<open>The error the outer \<^verbatim>\<open>catch\<close> block throws (line 226).\<close>

definition fact_checking_failed :: "js_string \<Rightarrow> js_string" where
  "fact_checking_failed errorMessage = str ''Fact-checking failed: '' @ errorMessage"

text \<open>
  \<^verbatim>\<open>factCheckTranscription\<close>. Its inputs are the configured API key, \<^verbatim>\<open>JSON.parse\<close>, whether a
  progress callback was passed, and the outcomes of the two \<^verbatim>\<open>generateContent\<close> calls (the
  text of the response, or the throw of the call or of \<^verbatim>\<open>response.text()\<close>). The result
  lists the progress callbacks made and holds either the message of the thrown error or
  the report. \<^verbatim>\<open>extractedClaims.length === 0\<close> is the first read of the parsed value.
\<close>

definition factCheckTranscription ::
  "js_string \<Rightarrow> (js_string \<Rightarrow> js_value option) \<Rightarrow> bool \<Rightarrow> js_string outcome \<Rightarrow>
   js_string outcome \<Rightarrow> event list \<times> (js_string + FactCheckResult)" where
  "factCheckTranscription apiKey JSON_parse onProgress extraction verification =
     (if apiKey = [] then ([], Inl (str ''Gemini API key not configured''))
      else
        (case extraction of
           Threw msg \<Rightarrow> (onProgress_call onProgress 75, Inl (fact_checking_failed msg))
         | Returned extractionText \<Rightarrow>
            (let extractedClaims = parse_extraction JSON_parse extractionText in
             case get_property extractedClaims (str ''length'') of
               None \<Rightarrow>
                 (onProgress_call onProgress 75,
                  Inl (fact_checking_failed (cannot_read extractedClaims (str ''length''))))
             | Some len \<Rightarrow>
                 if len = js_nat 0 then (onProgress_call onProgress 75, Inr empty_result)
                 else
                   (case verification of
                      Threw msg \<Rightarrow>
                        (onProgress_call onProgress 75 @ onProgress_call onProgress 80,
                         Inl (fact_checking_failed msg))
                    | Returned factCheckText \<Rightarrow>
                       (case parse_factCheck JSON_parse factCheckText extractedClaims of
                          Inl err \<Rightarrow>
                            (onProgress_call onProgress 75 @ onProgress_call onProgress 80,
                             Inl (fact_checking_failed err))
                        | Inr factCheckData \<Rightarrow>
                           (case build_claims factCheckData extractedClaims of
                              Inl err \<Rightarrow>
                                (onProgress_call onProgress 75 @ onProgress_call onProgress 80 @
                                 onProgress_call onProgress 90,
                                 Inl (fact_checking_failed err))
                            | Inr cs \<Rightarrow>
                               (let sm = make_summary cs in
                                (onProgress_call onProgress 75 @ onProgress_call onProgress 80 @
                                 onProgress_call onProgress 90 @ onProgress_call onProgress 100,
                                 Inr \<lparr>claims = cs, overallScore = calc_overallScore sm,
                                      summary = sm\<rparr>))))))))"

section \<open>Configuration and URL helpers (config, helpers)\<close>

text \<open>The language table as (code, name) pairs, and the platform domains.\<close>

definition supportedLanguages :: "(js_string \<times> js_string) list" where
  "supportedLanguages =
     [(str ''en'', str ''English''), (str ''ar'', str ''Arabic''), (str ''fr'', str ''French''),
      (str ''es'', str ''Spanish''), (str ''de'', str ''German''), (str ''it'', str ''Italian''),
      (str ''pt'', str ''Portuguese''), (str ''ru'', str ''Russian''), (str ''zh'', str ''Chinese''),
      (str ''ja'', str ''Japanese''), (str ''ko'', str ''Korean''), (str ''hi'', str ''Hindi''),
      (str ''tr'', str ''Turkish'')]"

definition supportedPlatforms :: "js_string list" where
  "supportedPlatforms =
     [str ''youtube.com'', str ''youtu.be'', str ''facebook.com'', str ''fb.watch'',
      str ''instagram.com'', str ''twitter.com'', str ''x.com'', str ''tiktok.com'']"

text \<open>\<^verbatim>\<open>languageInfo?.name || 'English'\<close>\<close>

definition languageName_of :: "js_string \<Rightarrow> js_string" where
  "languageName_of lang =
     (case find (\<lambda>l. fst l = lang) supportedLanguages of
        Some l \<Rightarrow> (if snd l = [] then str ''English'' else snd l)
      | None \<Rightarrow> str ''English'')"

text \<open>
  Both helpers read \<^verbatim>\<open>new URL(url).hostname\<close>; the URL parser is taken as a parameter
  that gives \<open>None\<close> where the constructor throws.
\<close>

definition isValidPlatformUrl :: "(js_string \<Rightarrow> js_string option) \<Rightarrow> js_string \<Rightarrow> bool" where
  "isValidPlatformUrl URL_hostname url =
     (case URL_hostname url of
        None \<Rightarrow> False
      | Some h \<Rightarrow>
         (let hostname = toLowerCase (replace_first h (str ''www.'') [])
          in list_ex (\<lambda>p. str_includes hostname (replace_first p (str ''www.'') [])) supportedPlatforms))"

definition extractPlatform :: "(js_string \<Rightarrow> js_string option) \<Rightarrow> js_string \<Rightarrow> js_string" where
  "extractPlatform URL_hostname url =
     (case URL_hostname url of
        None \<Rightarrow> str ''Unknown''
      | Some h \<Rightarrow>
         (let hostname = toLowerCase (replace_first h (str ''www.'') [])
          in if str_includes hostname (str ''youtube'') \<or> str_includes hostname (str ''youtu.be'')
             then str ''YouTube''
             else if str_includes hostname (str ''facebook'') \<or> str_includes hostname (str ''fb.watch'')
             then str ''Facebook''
             else if str_includes hostname (str ''instagram'') then str ''Instagram''
             else if str_includes hostname (str ''twitter'') \<or> str_includes hostname (str ''x.com'')
             then str ''Twitter/X''
             else if str_includes hostname (str ''tiktok'') then str ''TikTok''
             else str ''Unknown''))"

section \<open>Jobs and the controller (videoController)\<close>

datatype VideoStatus = pending | downloading | transcribing | analyzing | completed | error

text \<open>
  \<^verbatim>\<open>VideoData\<close> without its two dates and without \<^verbatim>\<open>statusMessage\<close>, which no
  decision of the code reads.
\<close>

record VideoData =
  job_id :: js_string
  job_url :: js_string
  job_platform :: js_string
  job_title :: "js_string option"
  job_duration :: "rat option"
  job_language :: js_string
  job_status :: VideoStatus
  job_progress :: nat
  job_audioPath :: "js_string option"
  job_transcription :: "js_string option"
  job_claims :: "Claim list option"
  job_overallScore :: "int option"
  job_error :: "js_string option"

type_synonym job_table = "js_string \<rightharpoonup> VideoData"

record StatusBody =
  sb_id :: js_string
  sb_status :: VideoStatus
  sb_progress :: nat
  sb_title :: "js_string option"
  sb_platform :: js_string
  sb_transcription :: "js_string option"
  sb_error :: "js_string option"

record ResultsBody =
  rb_id :: js_string
  rb_transcription :: "js_string option"
  rb_overallScore :: int
  rb_claims :: "Claim list"
  rb_summary :: Summary

text \<open>What a handler sends: an HTTP error status with its message, or one of the bodies.\<close>

datatype response =
    Error_response nat js_string
  | Processing_started js_string
  | Status_response StatusBody
  | Analysis_started js_string
  | Results_response ResultsBody
  | Deleted_response

text \<open>
  \<^verbatim>\<open>processVideo\<close> up to the point where it starts the background task; \<open>videoId\<close> is
  the identifier \<^verbatim>\<open>generateId()\<close> returns.
\<close>

definition processVideo ::
  "(js_string \<Rightarrow> js_string option) \<Rightarrow> js_string \<Rightarrow> js_string \<Rightarrow> js_string \<Rightarrow> job_table \<Rightarrow>
   response \<times> job_table" where
  "processVideo URL_hostname videoId url lang videoJobs =
     (if url = [] then (Error_response 400 (str ''Video URL is required''), videoJobs)
      else if lang = [] then (Error_response 400 (str ''Language is required''), videoJobs)
      else if \<not> isValidPlatformUrl URL_hostname url
      then (Error_response 400
              (str ''Unsupported platform. Supported: YouTube, Facebook, Instagram, Twitter/X, TikTok''),
            videoJobs)
      else if find (\<lambda>l. fst l = lang) supportedLanguages = None
      then (Error_response 400 (str ''Unsupported language''), videoJobs)
      else
        (Processing_started videoId,
         videoJobs(videoId \<mapsto>
           \<lparr>job_id = videoId, job_url = url,
            job_platform = extractPlatform URL_hostname url,
            job_title = None, job_duration = None, job_language = lang,
            job_status = pending, job_progress = 0, job_audioPath = None,
            job_transcription = None, job_claims = None, job_overallScore = None,
            job_error = None\<rparr>)))"

definition getVideoStatus :: "job_table \<Rightarrow> js_string \<Rightarrow> response" where
  "getVideoStatus videoJobs ident =
     (case videoJobs ident of
        None \<Rightarrow> Error_response 404 (str ''Video not found'')
      | Some job \<Rightarrow>
          Status_response
            \<lparr>sb_id = job_id job, sb_status = job_status job, sb_progress = job_progress job,
             sb_title = job_title job, sb_platform = job_platform job,
             sb_transcription =
               (if job_status job = completed \<or> job_status job = analyzing
                then job_transcription job else None),
             sb_error = job_error job\<rparr>)"

text \<open>\<^verbatim>\<open>!job.transcription\<close>: absent or the empty string.\<close>

definition no_transcription :: "VideoData \<Rightarrow> bool" where
  "no_transcription job =
     (case job_transcription job of None \<Rightarrow> True | Some t \<Rightarrow> t = [])"

text \<open>\<^verbatim>\<open>analyzeVideo\<close> up to the point where it starts the background task.\<close>

definition analyzeVideo :: "job_table \<Rightarrow> js_string \<Rightarrow> response \<times> job_table" where
  "analyzeVideo videoJobs ident =
     (case videoJobs ident of
        None \<Rightarrow> (Error_response 404 (str ''Video not found''), videoJobs)
      | Some job \<Rightarrow>
          if no_transcription job
          then (Error_response 400 (str ''Video not yet transcribed''), videoJobs)
          else if job_status job = analyzing
          then (Error_response 400 (str ''Analysis already in progress''), videoJobs)
          else (Analysis_started (job_id job),
                videoJobs(ident \<mapsto> job\<lparr>job_status := analyzing, job_progress := 75\<rparr>)))"

text \<open>
  \<^verbatim>\<open>analyzeVideoAsync\<close>: the states the job record goes through, one per write. Each
  progress callback stores the reported value; the last write stores the outcome.
\<close>

definition analyzeVideoAsync ::
  "js_string \<Rightarrow> (js_string \<Rightarrow> js_value option) \<Rightarrow> js_string outcome \<Rightarrow> js_string outcome \<Rightarrow>
   job_table \<Rightarrow> js_string \<Rightarrow> VideoData list" where
  "analyzeVideoAsync apiKey JSON_parse extraction verification videoJobs videoId =
     (case videoJobs videoId of
        None \<Rightarrow> []
      | Some job \<Rightarrow>
         (let (evs, res) =
                factCheckTranscription apiKey JSON_parse True extraction verification;
              reported = map (\<lambda>p. job\<lparr>job_progress := p\<rparr>) (progress_values evs);
              job' = last (job # reported)
          in reported @
             [case res of
                Inr result \<Rightarrow>
                  job'\<lparr>job_claims := Some (claims result),
                       job_overallScore := Some (overallScore result),
                       job_status := completed, job_progress := 100\<rparr>
              | Inl errorMessage \<Rightarrow>
                  job'\<lparr>job_status := error, job_error := Some errorMessage\<rparr>]))"

definition getVideoResults :: "job_table \<Rightarrow> js_string \<Rightarrow> response" where
  "getVideoResults videoJobs ident =
     (case videoJobs ident of
        None \<Rightarrow> Error_response 404 (str ''Video not found'')
      | Some job \<Rightarrow>
         (case (job_claims job, job_overallScore job) of
            (Some cs, Some sc) \<Rightarrow>
              Results_response
                \<lparr>rb_id = job_id job, rb_transcription = job_transcription job,
                 rb_overallScore = sc, rb_claims = cs, rb_summary = make_summary cs\<rparr>
          | _ \<Rightarrow> Error_response 400 (str ''Analysis not yet complete'')))"

definition deleteVideo :: "job_table \<Rightarrow> js_string \<Rightarrow> response \<times> job_table" where
  "deleteVideo videoJobs ident =
     (case videoJobs ident of
        None \<Rightarrow> (Error_response 404 (str ''Video not found''), videoJobs)
      | Some job \<Rightarrow> (Deleted_response, videoJobs(ident := None)))"

section \<open>Transcription (transcriptionService)\<close>

text \<open>
  A file on disk is named by what it is: the downloaded audio, or the chunk file
  \<^verbatim>\<open>${baseName}_chunk${chunkIndex}${ext}\<close> of a given index.
\<close>

datatype audio_path = Audio | Chunk nat

record TranscriptionResult =
  tr_transcription :: js_string
  tr_language :: js_string

record ChunkInfo =
  chunk_path :: audio_path
  chunk_startTime :: rat
  chunk_duration :: rat

text \<open>What the code reads of an uploaded file: its \<^verbatim>\<open>state\<close>.\<close>

record UploadedFile =
  file_state :: js_string

text \<open>
  The collaborators. \<open>getAudioDuration\<close> is the function of that name, ffprobe included
  (it gives 0 where ffprobe fails). \<open>ffmpeg_ok i\<close> says that the ffmpeg run for chunk
  \<open>i\<close> returned and left its file. The three requests to the inference service give
  the outcome of the request on a file at a given attempt or poll count.
\<close>

record Env =
  geminiApiKey :: js_string
  fileSize :: nat
  getAudioDuration :: "audio_path \<Rightarrow> rat"
  ffmpeg_ok :: "nat \<Rightarrow> bool"
  uploadFile :: "audio_path \<Rightarrow> nat \<Rightarrow> UploadedFile outcome"
  getFile :: "audio_path \<Rightarrow> nat \<Rightarrow> UploadedFile outcome"
  generateContent :: "audio_path \<Rightarrow> nat \<Rightarrow> js_string outcome"

definition FILE_SIZE_THRESHOLD :: nat where
  "FILE_SIZE_THRESHOLD = 4 * 1024 * 1024"

definition CHUNK_DURATION_SECONDS :: rat where
  "CHUNK_DURATION_SECONDS = 5 * 60"

definition CHUNKING_THRESHOLD_SECONDS :: rat where
  "CHUNKING_THRESHOLD_SECONDS = 10 * 60"

subsection \<open>Splitting\<close>

text \<open>
  The \<^verbatim>\<open>while\<close> loop of \<^verbatim>\<open>splitAudioIntoChunks\<close>. It need not end for every chunk
  duration, so it returns an option: \<open>None\<close> stands for a loop that never ends.
\<close>

partial_function (option) splitLoop ::
  "(nat \<Rightarrow> bool) \<Rightarrow> rat \<Rightarrow> rat \<Rightarrow> rat \<Rightarrow> nat \<Rightarrow> event list \<Rightarrow> ChunkInfo list \<Rightarrow>
   (event list \<times> ChunkInfo list) option" where
  "splitLoop ffmpeg chunkDuration totalDuration startTime chunkIndex evs chunks =
     (if startTime < totalDuration then
        (let duration = min chunkDuration (totalDuration - startTime) in
         splitLoop ffmpeg chunkDuration totalDuration (startTime + chunkDuration) (chunkIndex + 1)
           (evs @ [Exec_ffmpeg chunkIndex startTime duration])
           (if ffmpeg chunkIndex
            then chunks @ [\<lparr>chunk_path = Chunk chunkIndex, chunk_startTime = startTime,
                             chunk_duration = duration\<rparr>]
            else chunks))
      else Some (evs, chunks))"

declare splitLoop.simps [code]

definition splitAudioIntoChunks ::
  "Env \<Rightarrow> audio_path \<Rightarrow> rat \<Rightarrow> (event list \<times> (js_string + ChunkInfo list)) option" where
  "splitAudioIntoChunks env audioPath chunkDuration =
     (let totalDuration = getAudioDuration env audioPath in
      if totalDuration \<le> 0 then Some ([], Inl (str ''Could not determine audio duration''))
      else map_option (\<lambda>(evs, chunks). (evs, Inr chunks))
             (splitLoop (ffmpeg_ok env) chunkDuration totalDuration 0 0 [] []))"

subsection \<open>Timestamps\<close>

text \<open>The decimal digits of a natural number; the digit \<open>d\<close> is the code unit \<open>48 + d\<close>.\<close>

fun nat_toString :: "nat \<Rightarrow> js_string" where
  "nat_toString n =
     (if n < 10 then [48 + n]
      else nat_toString (n div 10) @ [48 + n mod 10])"

text \<open>\<^verbatim>\<open>toString()\<close> of an integer-valued number.\<close>

definition toString :: "int \<Rightarrow> js_string" where
  "toString k = (if k < 0 then 45 # nat_toString (nat (- k)) else nat_toString (nat k))"

definition padStart :: "js_string \<Rightarrow> nat \<Rightarrow> nat \<Rightarrow> js_string" where
  "padStart s n c = replicate (n - length s) c @ s"

text \<open>The remainder operator \<^verbatim>\<open>%\<close>: the quotient is truncated towards zero.\<close>

definition js_rem :: "rat \<Rightarrow> rat \<Rightarrow> rat" where
  "js_rem x y = (let q = x / y in x - y * of_int (if q < 0 then \<lceil>q\<rceil> else \<lfloor>q\<rfloor>))"

definition formatTimestamp :: "rat \<Rightarrow> js_string" where
  "formatTimestamp seconds =
     (let mins = \<lfloor>seconds / 60\<rfloor>;
          secs = \<lfloor>js_rem seconds 60\<rfloor>
      in padStart (toString mins) 2 48 @ str '':'' @ padStart (toString secs) 2 48)"

subsection \<open>Upload with retries\<close>

text \<open>The \<^verbatim>\<open>for\<close> loop of \<^verbatim>\<open>uploadWithRetry\<close>, then the final \<^verbatim>\<open>throw\<close>.\<close>

function uploadLoop ::
  "Env \<Rightarrow> audio_path \<Rightarrow> nat \<Rightarrow> bool \<Rightarrow> nat \<Rightarrow> js_string option \<Rightarrow> event list \<Rightarrow>
   event list \<times> (js_string + UploadedFile)" where
  "uploadLoop env audioPath maxRetries onProgress attempt lastError evs =
     (if attempt \<le> maxRetries then
        (case uploadFile env audioPath attempt of
           Returned result \<Rightarrow>
             (evs @ onProgress_call onProgress (50 + attempt) @ [Call_uploadFile], Inr result)
         | Threw err \<Rightarrow>
             uploadLoop env audioPath maxRetries onProgress (attempt + 1) (Some err)
               (evs @ onProgress_call onProgress (50 + attempt) @ [Call_uploadFile] @
                (if attempt < maxRetries then [Sleep (2 ^ attempt * 1000)] else [])))
      else
        (evs, Inl (case lastError of
                     Some err \<Rightarrow> err
                   | None \<Rightarrow> str ''Upload failed after all retries'')))"
  by pat_completeness auto
termination
  by (relation "measure (\<lambda>(env, audioPath, maxRetries, onProgress, attempt, lastError, evs).
                           Suc maxRetries - attempt)") auto

declare uploadLoop.simps [simp del]

definition uploadWithRetry ::
  "Env \<Rightarrow> audio_path \<Rightarrow> nat \<Rightarrow> bool \<Rightarrow> event list \<times> (js_string + UploadedFile)" where
  "uploadWithRetry env audioPath maxRetries onProgress =
     uploadLoop env audioPath maxRetries onProgress 1 None []"

subsection \<open>Waiting for the uploaded file\<close>

text \<open>
  The polling loop, written twice in the source: in \<^verbatim>\<open>transcribeWithChunking\<close> (at most
  30 polls, nothing reported) and in \<^verbatim>\<open>transcribeWithFileAPI\<close> (at most 60 polls, each
  reported through the callback). \<open>report\<close> tells the two apart.
\<close>

function waitLoop ::
  "Env \<Rightarrow> audio_path \<Rightarrow> nat \<Rightarrow> bool \<Rightarrow> UploadedFile \<Rightarrow> nat \<Rightarrow> event list \<Rightarrow>
   event list \<times> UploadedFile" where
  "waitLoop env audioPath maxWait report file waitCount evs =
     (if file_state file = str ''PROCESSING'' \<and> waitCount < maxWait then
        waitLoop env audioPath maxWait report
          (case getFile env audioPath waitCount of Returned f \<Rightarrow> f | Threw e \<Rightarrow> file)
          (waitCount + 1)
          (evs @ [Sleep 2000] @ onProgress_call report (55 + min (waitCount + 1) 10))
      else (evs, file))"
  by pat_completeness auto
termination
  by (relation "measure (\<lambda>(env, audioPath, maxWait, report, file, waitCount, evs).
                           maxWait - waitCount)") auto

declare waitLoop.simps [simp del]

subsection \<open>Generation with retries\<close>

text \<open>
  The retry loop around \<^verbatim>\<open>model.generateContent\<close>, written twice in the source: in
  \<^verbatim>\<open>transcribeWithFileAPI\<close> (progress 65 + 2 per attempt, 3 s pause, its own last
  message) and in \<^verbatim>\<open>transcribeWithInlineData\<close> (progress 55 + 5 per attempt, 2 s pause).
  A response whose text is blank neither returns nor throws: the loop goes on to the
  next attempt at once.
\<close>

function generateLoop ::
  "Env \<Rightarrow> audio_path \<Rightarrow> bool \<Rightarrow> nat \<Rightarrow> nat \<Rightarrow> nat \<Rightarrow> js_string \<Rightarrow> js_string \<Rightarrow> nat \<Rightarrow>
   js_string option \<Rightarrow> event list \<Rightarrow> event list \<times> (js_string + TranscriptionResult)" where
  "generateLoop env audioPath onProgress base step delay failure languageName attempt lastError evs =
     (if attempt \<le> 3 then
        (case generateContent env audioPath attempt of
           Returned transcription \<Rightarrow>
             if trim transcription \<noteq> []
             then (evs @ onProgress_call onProgress (base + attempt * step) @
                   [Call_generateContent] @ onProgress_call onProgress 70,
                   Inr \<lparr>tr_transcription = trim transcription, tr_language = languageName\<rparr>)
             else generateLoop env audioPath onProgress base step delay failure languageName
                    (attempt + 1) lastError
                    (evs @ onProgress_call onProgress (base + attempt * step) @
                     [Call_generateContent])
         | Threw err \<Rightarrow>
             generateLoop env audioPath onProgress base step delay failure languageName
               (attempt + 1) (Some err)
               (evs @ onProgress_call onProgress (base + attempt * step) @
                [Call_generateContent] @ (if attempt < 3 then [Sleep delay] else [])))
      else (evs, Inl (case lastError of Some err \<Rightarrow> err | None \<Rightarrow> failure)))"
  by pat_completeness auto
termination
  by (relation "measure (\<lambda>(env, audioPath, onProgress, base, step, delay, failure,
                            languageName, attempt, lastError, evs). 4 - attempt)") auto

declare generateLoop.simps [simp del]

subsection \<open>The single-unit paths\<close>

definition transcribeWithFileAPI ::
  "Env \<Rightarrow> audio_path \<Rightarrow> js_string \<Rightarrow> bool \<Rightarrow> event list \<times> (js_string + TranscriptionResult)" where
  "transcribeWithFileAPI env audioPath languageName onProgress =
     (case uploadWithRetry env audioPath 3 onProgress of
        (evs1, Inl err) \<Rightarrow> (onProgress_call onProgress 50 @ evs1, Inl err)
      | (evs1, Inr uploaded) \<Rightarrow>
         (case waitLoop env audioPath 60 onProgress uploaded 0
                 (onProgress_call onProgress 50 @ evs1 @ onProgress_call onProgress 55) of
            (evs2, file) \<Rightarrow>
              if file_state file = str ''FAILED''
              then (evs2, Inl (str ''Gemini file processing failed. Try a shorter video.''))
              else generateLoop env audioPath onProgress 65 2 3000
                     (str ''Transcription failed with File API'') languageName 1 None
                     (evs2 @ onProgress_call onProgress 65)))"

definition transcribeWithInlineData ::
  "Env \<Rightarrow> audio_path \<Rightarrow> js_string \<Rightarrow> bool \<Rightarrow> event list \<times> (js_string + TranscriptionResult)" where
  "transcribeWithInlineData env audioPath languageName onProgress =
     generateLoop env audioPath onProgress 55 5 2000
       (str ''Transcription failed with inline data'') languageName 1 None
       (onProgress_call onProgress 50 @ onProgress_call onProgress 55)"

subsection \<open>The chunked path\<close>

text \<open>
  The body of the \<^verbatim>\<open>try\<close> block inside the chunk loop (lines 420--476): what it does
  for one chunk, and the entry it pushes on \<^verbatim>\<open>transcriptions\<close>, if any. Every way out
  of the block other than the push leaves the list as it was.
\<close>

definition newline :: nat where
  "newline = 0x0A"

text \<open>\<^verbatim>\<open>headerText\<close>, the line \<^verbatim>\<open>[MM:SS]\<close> of the chunk's start between two line feeds.\<close>

definition headerText :: "ChunkInfo \<Rightarrow> js_string" where
  "headerText chunk =
     [newline] @ str ''['' @ formatTimestamp (chunk_startTime chunk) @ str '']'' @ [newline]"

definition transcribeChunk :: "Env \<Rightarrow> ChunkInfo \<Rightarrow> event list \<times> js_string option" where
  "transcribeChunk env chunk =
     (case uploadWithRetry env (chunk_path chunk) 3 False of
        (evs1, Inl err) \<Rightarrow> (evs1, None)
      | (evs1, Inr uploaded) \<Rightarrow>
         (case waitLoop env (chunk_path chunk) 30 False uploaded 0 evs1 of
            (evs2, file) \<Rightarrow>
              if file_state file = str ''FAILED'' then (evs2, None)
              else
                (case generateContent env (chunk_path chunk) 1 of
                   Threw err \<Rightarrow> (evs2 @ [Call_generateContent], None)
                 | Returned transcription \<Rightarrow>
                     (evs2 @ [Call_generateContent],
                      if trim transcription \<noteq> []
                      then Some (headerText chunk @ trim transcription)
                      else None))))"

text \<open>The \<^verbatim>\<open>for\<close> loop over the chunks; \<open>n\<close> is \<^verbatim>\<open>chunks.length\<close>.\<close>

fun chunkLoop ::
  "Env \<Rightarrow> bool \<Rightarrow> nat \<Rightarrow> nat \<Rightarrow> ChunkInfo list \<Rightarrow> event list \<Rightarrow> js_string list \<Rightarrow>
   event list \<times> js_string list" where
  "chunkLoop env onProgress n i [] evs transcriptions = (evs, transcriptions)"
| "chunkLoop env onProgress n i (chunk # rest) evs transcriptions =
     (let progressBase = 50 + nat \<lfloor>(of_nat i / of_nat n) * (40 :: rat)\<rfloor> in
      case transcribeChunk env chunk of
        (evs1, pushed) \<Rightarrow>
          chunkLoop env onProgress n (i + 1) rest
            (evs @ onProgress_call onProgress progressBase @ evs1)
            (case pushed of Some t \<Rightarrow> transcriptions @ [t] | None \<Rightarrow> transcriptions))"

definition transcribeWithChunking ::
  "Env \<Rightarrow> audio_path \<Rightarrow> js_string \<Rightarrow> bool \<Rightarrow>
   (event list \<times> (js_string + TranscriptionResult)) option" where
  "transcribeWithChunking env audioPath languageName onProgress =
     (case splitAudioIntoChunks env audioPath CHUNK_DURATION_SECONDS of
        None \<Rightarrow> None
      | Some (evs0, Inl err) \<Rightarrow> Some (onProgress_call onProgress 50 @ evs0, Inl err)
      | Some (evs0, Inr chunks) \<Rightarrow>
          Some
            (if length chunks = 0
             then (onProgress_call onProgress 50 @ evs0, Inl (str ''Failed to split audio into chunks''))
             else
               (case chunkLoop env onProgress (length chunks) 0 chunks
                       (onProgress_call onProgress 50 @ evs0) [] of
                  (evs, transcriptions) \<Rightarrow>
                    if length transcriptions = 0
                    then (evs, Inl (str ''Failed to transcribe any chunks''))
                    else (evs @ onProgress_call onProgress 95 @ onProgress_call onProgress 100,
                          Inr \<lparr>tr_transcription = join [newline, newline] transcriptions,
                               tr_language = languageName\<rparr>))))"

subsection \<open>Choosing the path\<close>

definition transcribeAudio ::
  "Env \<Rightarrow> audio_path \<Rightarrow> js_string \<Rightarrow> bool \<Rightarrow>
   (event list \<times> (js_string + TranscriptionResult)) option" where
  "transcribeAudio env audioPath lang onProgress =
     (if geminiApiKey env = []
      then Some ([], Inl (str ''Gemini API key not configured. Please set GEMINI_API_KEY in .env''))
      else
        (let languageName = languageName_of lang;
             audioDuration = getAudioDuration env audioPath;
             evs0 = onProgress_call onProgress 45 @ onProgress_call onProgress 48
         in if audioDuration > CHUNKING_THRESHOLD_SECONDS
            then map_option (\<lambda>(evs, res). (evs0 @ evs, res))
                   (transcribeWithChunking env audioPath languageName onProgress)
            else if fileSize env > FILE_SIZE_THRESHOLD
            then Some (case transcribeWithFileAPI env audioPath languageName onProgress of
                         (evs, res) \<Rightarrow> (evs0 @ evs, res))
            else Some (case transcribeWithInlineData env audioPath languageName onProgress of
                         (evs, res) \<Rightarrow> (evs0 @ evs, res))))"

section \<open>Download (downloadService)\<close>

record DownloadResult =
  dl_audioPath :: js_string
  dl_title :: js_string
  dl_duration :: rat

text \<open>
  What yt-dlp and the file system answer: the metadata request (title and duration),
  the low-bitrate MP3 extraction and whether it left \<^verbatim>\<open>audio.mp3\<close>, the fallback download,
  and the audio file found in the directory afterwards.
\<close>

record Downloader =
  video_info :: "(js_string \<times> rat) outcome"
  mp3_extraction :: "unit outcome"
  mp3_exists :: bool
  bestaudio_download :: "unit outcome"
  audio_file :: "js_string option"

definition downloadVideo :: "Downloader \<Rightarrow> bool \<Rightarrow> event list \<times> (js_string + DownloadResult)" where
  "downloadVideo dl onProgress =
     (let evs0 = onProgress_call onProgress 10 @ onProgress_call onProgress 15 in
      case video_info dl of
        Threw msg \<Rightarrow> (evs0, Inl (str ''Failed to download video: '' @ msg))
      | Returned (title, duration) \<Rightarrow>
         (let evs1 = evs0 @ onProgress_call onProgress 25;
              mp3 = (case mp3_extraction dl of
                       Returned u \<Rightarrow> if mp3_exists dl then Some (str ''audio.mp3'') else None
                     | Threw err \<Rightarrow> None);
              found = (case mp3 of
                         Some p \<Rightarrow> Returned (Some p)
                       | None \<Rightarrow>
                          (case bestaudio_download dl of
                             Threw msg \<Rightarrow> Threw msg
                           | Returned u \<Rightarrow> Returned (audio_file dl)))
          in case found of
               Threw msg \<Rightarrow> (evs1, Inl (str ''Failed to download video: '' @ msg))
             | Returned None \<Rightarrow>
                 (evs1 @ onProgress_call onProgress 40,
                  Inl (str ''Failed to download video: '' @ str ''Audio file not found after download''))
             | Returned (Some p) \<Rightarrow>
                 (evs1 @ onProgress_call onProgress 40,
                  Inr \<lparr>dl_audioPath = p,
                       dl_title = (if title = [] then str ''Unknown Title'' else title),
                       dl_duration = duration\<rparr>)))"

section \<open>The background task of a submission (processVideoAsync)\<close>

definition updateStatus :: "VideoStatus \<Rightarrow> nat \<Rightarrow> VideoData \<Rightarrow> VideoData" where
  "updateStatus st p job = job\<lparr>job_status := st, job_progress := p\<rparr>"

definition fail_job :: "js_string \<Rightarrow> VideoData \<Rightarrow> VideoData" where
  "fail_job errorMessage job = job\<lparr>job_status := error, job_error := Some errorMessage\<rparr>"

text \<open>
  The states the job record goes through, one per write, from the state it has when
  the task starts. \<open>None\<close> only where the splitting loop does not end.
\<close>

definition processVideoAsync :: "Downloader \<Rightarrow> Env \<Rightarrow> VideoData \<Rightarrow> VideoData list option" where
  "processVideoAsync dl env job0 =
     (let started = updateStatus downloading 5 job0 in
      case downloadVideo dl True of
        (evs1, res1) \<Rightarrow>
          (let states1 = started # map (\<lambda>p. updateStatus downloading p started) (progress_values evs1)
           in case res1 of
                Inl errorMessage \<Rightarrow> Some (states1 @ [fail_job errorMessage (last states1)])
              | Inr downloadResult \<Rightarrow>
                 (let job = (last states1)
                              \<lparr>job_audioPath := Some (dl_audioPath downloadResult),
                               job_title := Some (dl_title downloadResult),
                               job_duration := Some (dl_duration downloadResult)\<rparr>;
                      transcribing0 = updateStatus transcribing 45 job
                  in case transcribeAudio env Audio (job_language job0) True of
                       None \<Rightarrow> None
                     | Some (evs2, res2) \<Rightarrow>
                        (let states2 = transcribing0 #
                               map (\<lambda>p. updateStatus transcribing p transcribing0)
                                   (progress_values evs2)
                         in case res2 of
                              Inl errorMessage \<Rightarrow>
                                Some (states1 @ states2 @ [fail_job errorMessage (last states2)])
                            | Inr transcriptionResult \<Rightarrow>
                                Some (states1 @ states2 @
                                      [(last states2)
                                         \<lparr>job_transcription :=
                                            Some (tr_transcription transcriptionResult),
                                          job_status := completed,
                                          job_progress := 70\<rparr>])))))"

section \<open>Vocabulary for the retry properties\<close>

text \<open>
  What an attempt at \<^verbatim>\<open>generateContent\<close> yields for the retry loops: the trimmed text when
  the call returned text that is not blank (the test
  \<^verbatim>\<open>transcription && transcription.trim().length > 0\<close>), and the message when it threw.
\<close>

definition produced_text :: "js_string outcome \<Rightarrow> js_string option" where
  "produced_text x =
     (case x of
        Returned transcription \<Rightarrow>
          if trim transcription \<noteq> [] then Some (trim transcription) else None
      | Threw err \<Rightarrow> None)"

definition thrown_message :: "'a outcome \<Rightarrow> js_string option" where
  "thrown_message x = (case x of Threw err \<Rightarrow> Some err | Returned v \<Rightarrow> None)"

text \<open>The pause that follows an attempt that is not the last: none unless it threw.\<close>

definition pause_after :: "nat \<Rightarrow> 'a outcome \<Rightarrow> nat list" where
  "pause_after delay x = (case thrown_message x of Some err \<Rightarrow> [delay] | None \<Rightarrow> [])"

text \<open>
  What a loop of at most three attempts does, read off the outcomes \<open>g 1\<close>, \<open>g 2\<close> and
  \<open>g 3\<close> of its attempts: the number of attempts it makes, what it returns or throws
  (\<open>failure\<close> is the message of the loop's own error), and the pauses it makes.
\<close>

definition attempts_made :: "(nat \<Rightarrow> js_string outcome) \<Rightarrow> nat" where
  "attempts_made g =
     (case produced_text (g 1) of
        Some t \<Rightarrow> 1
      | None \<Rightarrow> (case produced_text (g 2) of Some t \<Rightarrow> 2 | None \<Rightarrow> 3))"

definition first_text_or_last_error ::
  "js_string \<Rightarrow> js_string \<Rightarrow> (nat \<Rightarrow> js_string outcome) \<Rightarrow> js_string + TranscriptionResult" where
  "first_text_or_last_error failure lang g =
     (case produced_text (g 1) of
        Some t \<Rightarrow> Inr \<lparr>tr_transcription = t, tr_language = lang\<rparr>
      | None \<Rightarrow>
         (case produced_text (g 2) of
            Some t \<Rightarrow> Inr \<lparr>tr_transcription = t, tr_language = lang\<rparr>
          | None \<Rightarrow>
             (case produced_text (g 3) of
                Some t \<Rightarrow> Inr \<lparr>tr_transcription = t, tr_language = lang\<rparr>
              | None \<Rightarrow>
                  Inl (case thrown_message (g 3) of
                         Some e \<Rightarrow> e
                       | None \<Rightarrow>
                          (case thrown_message (g 2) of
                             Some e \<Rightarrow> e
                           | None \<Rightarrow>
                              (case thrown_message (g 1) of
                                 Some e \<Rightarrow> e
                               | None \<Rightarrow> failure))))))"

definition pauses_made :: "nat \<Rightarrow> (nat \<Rightarrow> js_string outcome) \<Rightarrow> nat list" where
  "pauses_made delay g =
     (case produced_text (g 1) of
        Some t \<Rightarrow> []
      | None \<Rightarrow>
          pause_after delay (g 1) @
          (case produced_text (g 2) of Some t \<Rightarrow> [] | None \<Rightarrow> pause_after delay (g 2)))"

section \<open>Sample inputs\<close>

subsection \<open>Model responses\<close>

text \<open>The text of a JSON string literal that needs no escape, and of a member.\<close>

definition dq :: "string \<Rightarrow> js_string" where
  "dq s = [34] @ str s @ [34]"

definition member_text :: "string \<Rightarrow> js_string \<Rightarrow> js_string" where
  "member_text name v = dq name @ str '':'' @ v"

text \<open>Four extracted claims, as the value and as the text that parses to it.\<close>

definition sample_claims :: "js_value list" where
  "sample_claims =
     [JObj [(str ''text'', JStr (str ''Water boils at 100 C'')),
            (str ''timestamp'', JStr (str ''00:05''))],
      JObj [(str ''text'', JStr (str ''The Earth orbits the Sun''))],
      JObj [(str ''text'', JStr (str ''The Moon is made of cheese'')),
            (str ''timestamp'', JNull)],
      JObj [(str ''text'', JStr (str ''Bananas grow on trees''))]]"

definition sample_claims_text :: js_string where
  "sample_claims_text =
     str ''[{'' @ member_text ''text'' (dq ''Water boils at 100 C'') @ str '','' @
                member_text ''timestamp'' (dq ''00:05'') @ str ''},{'' @
                member_text ''text'' (dq ''The Earth orbits the Sun'') @ str ''},{'' @
                member_text ''text'' (dq ''The Moon is made of cheese'') @ str '','' @
                member_text ''timestamp'' (str ''null'') @ str ''},{'' @
                member_text ''text'' (dq ''Bananas grow on trees'') @ str ''}]''"

text \<open>A verdict object and its text; \<open>others\<close> holds the members after the explanation.\<close>

definition sample_verdict :: "nat \<Rightarrow> string \<Rightarrow> (js_string \<times> js_value) list \<Rightarrow> js_value" where
  "sample_verdict i st others =
     JObj ([(str ''claimIndex'', js_nat i), (str ''status'', JStr (str st)),
            (str ''score'', js_nat 85), (str ''explanation'', JStr (str ''checked''))] @ others)"

definition sample_verdict_text :: "string \<Rightarrow> string \<Rightarrow> js_string \<Rightarrow> js_string" where
  "sample_verdict_text i st others =
     str ''{'' @ member_text ''claimIndex'' (str i) @ str '','' @
                member_text ''status'' (dq st) @ str '','' @
                member_text ''score'' (str ''85'') @ str '','' @
                member_text ''explanation'' (dq ''checked'') @ others @ str ''}''"

definition sample_verdicts :: "js_value list" where
  "sample_verdicts =
     [sample_verdict 0 ''true''
        [(str ''sources'', JArr [JStr (str ''https://en.wikipedia.org/wiki/Boiling_point'')])],
      sample_verdict 1 ''true'' [],
      sample_verdict 2 ''false''
        [(str ''sources'', JArr [JStr (str ''https://en.wikipedia.org/wiki/Moon'')])],
      sample_verdict 3 ''partially_true'' [(str ''sources'', JNull)]]"

definition short_verdicts_text :: js_string where
  "short_verdicts_text =
     str ''['' @
     sample_verdict_text ''0'' ''true''
       (str '','' @ member_text ''sources''
          (str ''['' @ dq ''https://en.wikipedia.org/wiki/Boiling_point'' @ str '']'')) @
     str '','' @
     sample_verdict_text ''1'' ''true'' [] @
     str '']''"

definition sample_verdicts_text :: js_string where
  "sample_verdicts_text =
     str ''['' @
     sample_verdict_text ''0'' ''true''
       (str '','' @ member_text ''sources''
          (str ''['' @ dq ''https://en.wikipedia.org/wiki/Boiling_point'' @ str '']'')) @
     str '','' @
     sample_verdict_text ''1'' ''true'' [] @
     str '','' @
     sample_verdict_text ''2'' ''false''
       (str '','' @ member_text ''sources''
          (str ''['' @ dq ''https://en.wikipedia.org/wiki/Moon'' @ str '']'')) @
     str '','' @
     sample_verdict_text ''3'' ''partially_true''
       (str '','' @ member_text ''sources'' (str ''null'')) @
     str '']''"

text \<open>Two verdicts listed in the opposite order of the claims they name.\<close>

definition swapped_verdicts :: "js_value list" where
  "swapped_verdicts = [sample_verdict 1 ''false'' [], sample_verdict 0 ''true'' []]"

definition swapped_verdicts_text :: js_string where
  "swapped_verdicts_text =
     str ''['' @ sample_verdict_text ''1'' ''false'' [] @ str '','' @
     sample_verdict_text ''0'' ''true'' [] @ str '']''"

text \<open>A response wrapped in a Markdown code fence.\<close>

definition fenced :: "js_string \<Rightarrow> js_string" where
  "fenced t = str ''```json'' @ [10] @ t @ [10] @ str ''```'' @ [10]"

text \<open>
  \<^verbatim>\<open>JSON.parse\<close> on the texts used below: the sample texts parse to the sample values,
  \<^verbatim>\<open>null\<close>, \<^verbatim>\<open>[null]\<close>, \<^verbatim>\<open>[]\<close> and \<^verbatim>\<open>{}\<close> to what they denote, and the other texts used
  (\<^verbatim>\<open>no json here\<close>, \<^verbatim>\<open>nor here\<close>) are not JSON.
\<close>

definition sample_parse :: "js_string \<Rightarrow> js_value option" where
  "sample_parse =
     map_of [(str ''null'', JNull),
             (str ''[null]'', JArr [JNull]),
             (str ''[]'', JArr []),
             (str ''{}'', JObj []),
             (sample_claims_text, JArr sample_claims),
             (short_verdicts_text, JArr (take 2 sample_verdicts)),
             (sample_verdicts_text, JArr sample_verdicts),
             (swapped_verdicts_text, JArr swapped_verdicts)]"

subsection \<open>Jobs, downloads and services\<close>

definition sample_job :: VideoData where
  "sample_job =
     \<lparr>job_id = str ''job-1'', job_url = str ''https://youtu.be/abc'',
      job_platform = str ''YouTube'', job_title = None, job_duration = None,
      job_language = str ''en'', job_status = pending, job_progress = 0,
      job_audioPath = None, job_transcription = None, job_claims = None,
      job_overallScore = None, job_error = None\<rparr>"

definition sample_downloader :: Downloader where
  "sample_downloader =
     \<lparr>video_info = Returned (str ''A long talk'', 1200), mp3_extraction = Returned (),
      mp3_exists = True, bestaudio_download = Returned (), audio_file = None\<rparr>"

text \<open>
  A service where every request succeeds at once, for an audio file of the given
  duration and size.
\<close>

definition sample_env :: "rat \<Rightarrow> nat \<Rightarrow> Env" where
  "sample_env seconds bytes =
     \<lparr>geminiApiKey = str ''key'', fileSize = bytes,
      getAudioDuration = (\<lambda>p. seconds),
      ffmpeg_ok = (\<lambda>i. True),
      uploadFile = (\<lambda>p attempt. Returned \<lparr>file_state = str ''ACTIVE''\<rparr>),
      getFile = (\<lambda>p n. Returned \<lparr>file_state = str ''ACTIVE''\<rparr>),
      generateContent = (\<lambda>p attempt. Returned (str ''hello''))\<rparr>"

text \<open>The sample job once transcribed, and once under analysis.\<close>

definition transcribed_job :: VideoData where
  "transcribed_job =
     sample_job\<lparr>job_status := completed, job_progress := 70,
                job_transcription := Some (str ''hello'')\<rparr>"

definition analyzing_job :: VideoData where
  "analyzing_job = transcribed_job\<lparr>job_status := analyzing, job_progress := 75\<rparr>"

text \<open>A download whose metadata request fails.\<close>

definition failing_downloader :: Downloader where
  "failing_downloader = sample_downloader\<lparr>video_info := Threw (str ''network unreachable'')\<rparr>"

text \<open>A service for which no API key is configured.\<close>

definition unconfigured_env :: Env where
  "unconfigured_env = (sample_env 1200 100)\<lparr>geminiApiKey := []\<rparr>"

text \<open>
  A service whose every transcription response is blank: a no-break space, a space and an
  ideographic space.
\<close>

definition blank_env :: Env where
  "blank_env =
     (sample_env 500 100)\<lparr>generateContent := (\<lambda>p attempt. Returned [0xA0, 0x20, 0x3000])\<rparr>"

text \<open>
  An 1800 s audio whose last window ffmpeg fails to cut, on a service where the upload of
  chunk 1 is refused at every attempt, the processing of chunk 2 fails, the transcription
  of chunk 3 throws, and the other chunks are transcribed; the text comes with white
  space around it (a no-break space and a space before, a space and a line separator
  after).
\<close>

definition flaky_env :: Env where
  "flaky_env =
     (sample_env 1800 100)
       \<lparr>ffmpeg_ok := (\<lambda>i. i \<noteq> 5),
        uploadFile := (\<lambda>p attempt. if p = Chunk 1 then Threw (str ''upload refused'')
                                   else Returned \<lparr>file_state = str ''PROCESSING''\<rparr>),
        getFile := (\<lambda>p n. if p = Chunk 2 then Returned \<lparr>file_state = str ''FAILED''\<rparr>
                           else Returned \<lparr>file_state = str ''ACTIVE''\<rparr>),
        generateContent := (\<lambda>p attempt. if p = Chunk 3 then Threw (str ''quota exceeded'')
                                        else Returned ([0xA0] @ str '' hello '' @ [0x2028]))\<rparr>"

text \<open>The chunk of the given index when every window before it is full.\<close>

definition sample_chunk :: "nat \<Rightarrow> ChunkInfo" where
  "sample_chunk k =
     \<lparr>chunk_path = Chunk k, chunk_startTime = of_nat k * 300, chunk_duration = 300\<rparr>"

text \<open>
  A short audio above the inline size limit, on a service whose transcription call
  throws twice and then answers.
\<close>

definition late_success_env :: Env where
  "late_success_env =
     (sample_env 500 5000000)
       \<lparr>generateContent := (\<lambda>p attempt. if attempt < 3 then Threw (str ''overloaded'')
                                        else Returned (str ''hello''))\<rparr>"

section \<open>Properties of claim assembly and scoring\<close>

lemma str_inject [simp]: "str a = str b \<longleftrightarrow> a = b"
  unfolding str_def by (simp add: inj_map_eq_map inj_on_def)

lemma str_Nil [simp]: "str [] = []"
  by (simp add: str_def)

lemma str_eq_Nil [simp]: "str s = [] \<longleftrightarrow> s = []" "[] = str s \<longleftrightarrow> s = []"
  by (auto simp: str_def)

lemma length_str [simp]: "length (str s) = length s"
  by (simp add: str_def)

lemma js_nat_inject [simp]: "js_nat a = js_nat b \<longleftrightarrow> a = b"
  by (simp add: js_nat_def)

text \<open>\<^const>\<open>Math_round\<close> is \<^const>\<open>round\<close> on the reals.\<close>

lemma Math_round_real: "Math_round (of_nat a / of_nat b) = round (real a / real b)"
proof -
  have "round (real a / real b) = round (of_rat (of_nat a / of_nat b) :: real)"
    by (simp add: of_rat_divide)
  also have "\<dots> = \<lfloor>of_rat (of_nat a / of_nat b + 1 / 2) :: real\<rfloor>"
    by (simp add: round_def of_rat_add of_rat_divide)
  also have "\<dots> = \<lfloor>(of_nat a / of_nat b + 1 / 2 :: rat)\<rfloor>"
    by simp
  finally show ?thesis by (simp add: Math_round_def)
qed

lemma build_from_Inr:
  "build_from fd i xs = Inr cs \<Longrightarrow>
   length cs = length xs \<and> (\<forall>k<length xs. build_claim fd (i + k) (xs ! k) = Inr (cs ! k))"
proof (induction xs arbitrary: i cs)
  case Nil
  then show ?case by simp
next
  case (Cons x xs)
  from Cons.prems obtain c cs' where c: "build_claim fd i x = Inr c"
    and rest: "build_from fd (i + 1) xs = Inr cs'" and cs: "cs = c # cs'"
    by (auto split: sum.splits)
  from Cons.IH [OF rest] have len: "length cs' = length xs"
    and each: "\<forall>k<length xs. build_claim fd (i + 1 + k) (xs ! k) = Inr (cs' ! k)" by auto
  show ?case
  proof (intro conjI allI impI)
    show "length cs = length (x # xs)" by (simp add: cs len)
    fix k assume "k < length (x # xs)"
    then show "build_claim fd (i + k) ((x # xs) ! k) = Inr (cs ! k)"
      using c each by (cases k) (simp_all add: cs)
  qed
qed

lemma build_from_total:
  "(\<forall>k<length xs. \<exists>c. build_claim fd (i + k) (xs ! k) = Inr c) \<Longrightarrow>
   \<exists>cs. build_from fd i xs = Inr cs"
proof (induction xs arbitrary: i)
  case Nil
  then show ?case by simp
next
  case (Cons x xs)
  from Cons.prems [rule_format, of 0] obtain c where c: "build_claim fd i x = Inr c" by auto
  have "\<forall>k<length xs. \<exists>c. build_claim fd (i + 1 + k) (xs ! k) = Inr c"
  proof (intro allI impI)
    fix k assume "k < length xs"
    with Cons.prems [rule_format, of "Suc k"] show "\<exists>c. build_claim fd (i + 1 + k) (xs ! k) = Inr c"
      by simp
  qed
  from Cons.IH [OF this] obtain cs where "build_from fd (i + 1) xs = Inr cs" by auto
  with c show ?case by simp
qed

lemma find_claimIndex_Inr:
  "find_claimIndex i vs = Inr m \<Longrightarrow>
   m = find (\<lambda>f. get_property f (str ''claimIndex'') = Some (js_nat i)) vs"
  by (induction vs) (auto split: option.splits if_splits)

lemma find_claimIndex_total:
  "\<forall>f\<in>set vs. f \<noteq> JNull \<and> f \<noteq> JUndefined \<Longrightarrow>
   find_claimIndex i vs = Inr (find (\<lambda>f. get_property f (str ''claimIndex'') = Some (js_nat i)) vs)"
proof (induction vs)
  case Nil
  then show ?case by simp
next
  case (Cons f fs)
  then have "f \<noteq> JNull" "f \<noteq> JUndefined" by auto
  then obtain v where "get_property f (str ''claimIndex'') = Some v"
    by (cases f) auto
  with Cons show ?case by auto
qed

lemma found_is_object:
  "find (\<lambda>f. get_property f (str ''claimIndex'') = Some (js_nat i)) vs = Some f \<Longrightarrow> truthy f"
proof -
  assume "find (\<lambda>f. get_property f (str ''claimIndex'') = Some (js_nat i)) vs = Some f"
  then have "get_property f (str ''claimIndex'') = Some (js_nat i)"
    by (auto simp: find_Some_iff)
  then show "truthy f" by (cases f) (auto simp: js_nat_def split: if_splits)
qed

text \<open>A run that did not throw returned the empty report or assembled a non-empty one.\<close>

lemma factCheck_result_cases:
  assumes "factCheckTranscription apiKey P op extraction verification = (evs, Inr r)"
  obtains (no_claims) "r = empty_result"
  | (assembled) t1 t2 xs vs where "apiKey \<noteq> []" "extraction = Returned t1"
      "verification = Returned t2" "parse_extraction P t1 = JArr xs" "xs \<noteq> []"
      "parse_factCheck P t2 (JArr xs) = Inr (JArr vs)"
      "build_from (JArr vs) 0 xs = Inr (claims r)"
      "summary r = make_summary (claims r)"
      "overallScore r = calc_overallScore (make_summary (claims r))"
proof (cases "r = empty_result")
  case True
  then show ?thesis by (rule no_claims)
next
  case False
  from assms False obtain t1 t2 fd where key: "apiKey \<noteq> []" and e: "extraction = Returned t1"
    and v: "verification = Returned t2"
    and pf: "parse_factCheck P t2 (parse_extraction P t1) = Inr fd"
    and bc: "build_claims fd (parse_extraction P t1) = Inr (claims r)"
    and sm: "summary r = make_summary (claims r)"
    and sc: "overallScore r = calc_overallScore (make_summary (claims r))"
    and len: "get_property (parse_extraction P t1) (str ''length'') \<noteq> Some (js_nat 0)"
    unfolding factCheckTranscription_def Let_def
    by (auto split: if_splits outcome.splits option.splits sum.splits)
  from bc obtain xs where xs: "parse_extraction P t1 = JArr xs"
    and bf: "build_from fd 0 xs = Inr (claims r)"
    by (auto simp: build_claims_def array_method_def split: js_value.splits sum.splits)
  from len xs have ne: "xs \<noteq> []" by auto
  then obtain x xs' where cons: "xs = x # xs'" by (cases xs) auto
  from bf cons obtain vs where "fd = JArr vs"
    by (auto simp: build_claim_def array_method_def split: js_value.splits sum.splits)
  with key e v xs ne pf bf sm sc show ?thesis by (intro assembled) auto
qed

lemma calc_overallScore_round:
  "cs \<noteq> [] \<Longrightarrow>
   calc_overallScore (make_summary cs) =
     round ((100 * real (count_status (str ''true'') cs) +
             50 * real (count_status (str ''partially_true'') cs) +
             50 * real (count_status (str ''unverifiable'') cs) +
             0 * real (count_status (str ''false'') cs))
            / real (length cs))"
  by (simp add: calc_overallScore_def make_summary_def Let_def Math_round_real algebra_simps)

lemma count_status_statuses:
  "count_status s cs = length (filter (\<lambda>x. x = JStr s) (map status cs))"
  by (simp add: count_status_def filter_map comp_def)

text \<open>
  C1. Whenever \<^const>\<open>factCheckTranscription\<close> returns a report, its overall score is a
  function of the claims in the report alone: 100 when there are none, and otherwise
  the weighted sum 100 per \<open>true\<close> claim, 50 per \<open>partially_true\<close> claim, 50 per
  \<open>unverifiable\<close> claim and 0 per \<open>false\<close> claim, divided by the number of claims and
  rounded to the nearest integer. The statuses true, true, false, partially\_true give 63.
\<close>

theorem overallScore_is_weighted_mean:
  assumes "factCheckTranscription apiKey JSON_parse op extraction verification = (evs, Inr r)"
  shows "(claims r = [] \<longrightarrow> overallScore r = 100) \<and>
         (claims r \<noteq> [] \<longrightarrow>
            overallScore r =
              round ((100 * real (count_status (str ''true'') (claims r)) +
                      50 * real (count_status (str ''partially_true'') (claims r)) +
                      50 * real (count_status (str ''unverifiable'') (claims r)) +
                      0 * real (count_status (str ''false'') (claims r)))
                     / real (length (claims r)))) \<and>
         (map status (claims r) =
            [JStr (str ''true''), JStr (str ''true''), JStr (str ''false''),
             JStr (str ''partially_true'')] \<longrightarrow>
            overallScore r = 63)"
  using assms
proof (cases rule: factCheck_result_cases)
  case no_claims
  then show ?thesis by (simp add: empty_result_def)
next
  case (assembled t1 t2 xs vs)
  have ne: "claims r \<noteq> []"
    using assembled(5) build_from_Inr [OF assembled(7)] by auto
  have general: "overallScore r =
            round ((100 * real (count_status (str ''true'') (claims r)) +
                    50 * real (count_status (str ''partially_true'') (claims r)) +
                    50 * real (count_status (str ''unverifiable'') (claims r)) +
                    0 * real (count_status (str ''false'') (claims r)))
                   / real (length (claims r)))"
    using calc_overallScore_round [OF ne] assembled(9) by simp
  have particular: "overallScore r = 63"
    if st: "map status (claims r) =
              [JStr (str ''true''), JStr (str ''true''), JStr (str ''false''),
               JStr (str ''partially_true'')]"
  proof -
    have "length (map status (claims r)) = 4" by (simp add: st)
    then have len: "length (claims r) = 4" by simp
    have "count_status (str ''true'') (claims r) = 2"
         "count_status (str ''partially_true'') (claims r) = 1"
         "count_status (str ''unverifiable'') (claims r) = 0"
         "count_status (str ''false'') (claims r) = 1"
      by (simp_all add: count_status_statuses st)
    with general len show ?thesis by (simp add: round_def)
  qed
  from ne general particular show ?thesis by blast
qed

lemma trimStart_Cons: "\<not> is_space c \<Longrightarrow> trimStart (c # s) = c # s"
  by (simp add: trimStart_def)

lemma trimEnd_last: "s \<noteq> [] \<Longrightarrow> \<not> is_space (last s) \<Longrightarrow> trimEnd s = s"
proof -
  assume "s \<noteq> []" "\<not> is_space (last s)"
  then have "dropWhile is_space (rev s) = rev s"
    by (cases "rev s") (simp_all add: last_rev [symmetric] hd_rev del: last_rev)
  then show ?thesis by (simp add: trimEnd_def)
qed

lemma cleanJson_plain:
  assumes "s \<noteq> []" "\<not> is_space (hd s)" "\<not> is_space (last s)" "hd s \<noteq> 96"
  shows "cleanJson s = s"
proof -
  from assms(1) obtain c s' where s: "s = c # s'" by (cases s) auto
  with assms have c: "\<not> is_space c" "c \<noteq> 96" by auto
  have "trimStart s = s" by (simp add: s trimStart_Cons c)
  with assms(1,3) have t: "trim s = s" by (simp add: trim_def trimEnd_last)
  have "\<not> startsWith s (str ''```json'')" "\<not> startsWith s (str ''```'')"
    using c by (simp_all add: startsWith_def s str_def)
  then show ?thesis by (simp add: cleanJson_def t Let_def)
qed

lemma cleanJson_fenced:
  assumes "s \<noteq> []" "\<not> is_space (hd s)" "\<not> is_space (last s)"
  shows "cleanJson (fenced s) = s"
proof -
  from assms(1) obtain c s' where s: "s = c # s'" by (cases s) auto
  with assms have c: "\<not> is_space c" by auto
  have sp: "is_space 10" "\<not> is_space 96" by (simp_all add: is_space_def)
  define body where "body = str ''```json'' @ [10] @ s @ [10] @ str ''```''"
  define tail where "tail = s @ [10] @ str ''```''"
  have "trimEnd (fenced s) = rev (dropWhile is_space (10 # rev body))"
    by (simp add: trimEnd_def fenced_def body_def)
  also have "\<dots> = trimEnd body" by (simp add: sp trimEnd_def)
  also have "\<dots> = body"
    by (rule trimEnd_last) (simp_all add: body_def str_def sp)
  finally have te: "trimEnd (fenced s) = body" .
  have ts: "trimStart (fenced s) = fenced s"
    by (simp add: fenced_def str_def trimStart_def sp)
  have t: "trim (fenced s) = body" by (simp add: trim_def ts te)
  have sw: "startsWith body (str ''```json'')" by (simp add: startsWith_def body_def)
  have d: "trimStart (drop 7 body) = tail"
    by (simp add: body_def tail_def str_def trimStart_def sp s c)
  have e: "endsWith tail (str ''```'')"
    by (simp add: endsWith_def tail_def)
  have k: "take (length tail - 3) tail = s @ [10]"
    by (simp add: tail_def)
  have "trimEnd (s @ [10]) = rev (dropWhile is_space (10 # rev s))" by (simp add: trimEnd_def)
  also have "\<dots> = trimEnd s" by (simp add: sp trimEnd_def)
  also have "\<dots> = s" using assms by (simp add: trimEnd_last)
  finally have f: "trimEnd (s @ [10]) = s" .
  have "cleanJson (fenced s) = strip_closing_fence tail"
    using sw by (simp only: cleanJson_def t Let_def if_True d)
  also have "\<dots> = s"
    using e by (simp only: strip_closing_fence_def if_True k f)
  finally show ?thesis .
qed

lemma sample_claims_text_shape:
  "sample_claims_text \<noteq> []" "\<not> is_space (hd sample_claims_text)"
  "\<not> is_space (last sample_claims_text)" "hd sample_claims_text \<noteq> 96"
  by (simp_all add: sample_claims_text_def str_def is_space_def)

lemma sample_verdicts_text_shape:
  "sample_verdicts_text \<noteq> []" "\<not> is_space (hd sample_verdicts_text)"
  "\<not> is_space (last sample_verdicts_text)" "hd sample_verdicts_text \<noteq> 96"
  by (simp_all add: sample_verdicts_text_def str_def is_space_def)

lemma short_verdicts_text_shape:
  "short_verdicts_text \<noteq> []" "\<not> is_space (hd short_verdicts_text)"
  "\<not> is_space (last short_verdicts_text)" "hd short_verdicts_text \<noteq> 96"
  by (simp_all add: short_verdicts_text_def str_def is_space_def)

lemma swapped_verdicts_text_shape:
  "swapped_verdicts_text \<noteq> []" "\<not> is_space (hd swapped_verdicts_text)"
  "\<not> is_space (last swapped_verdicts_text)" "hd swapped_verdicts_text \<noteq> 96"
  by (simp_all add: swapped_verdicts_text_def str_def is_space_def)

lemma sample_parse_claims: "sample_parse sample_claims_text = Some (JArr sample_claims)"
  by (simp add: sample_parse_def sample_claims_text_def member_text_def dq_def str_def)

lemma sample_parse_short: "sample_parse short_verdicts_text = Some (JArr (take 2 sample_verdicts))"
  by (simp add: sample_parse_def sample_claims_text_def short_verdicts_text_def
        sample_verdict_text_def member_text_def dq_def str_def)

lemma sample_parse_verdicts: "sample_parse sample_verdicts_text = Some (JArr sample_verdicts)"
  by (simp add: sample_parse_def sample_claims_text_def short_verdicts_text_def
        sample_verdicts_text_def sample_verdict_text_def member_text_def dq_def str_def)

lemma sample_parse_swapped: "sample_parse swapped_verdicts_text = Some (JArr swapped_verdicts)"
  by (simp add: sample_parse_def sample_claims_text_def short_verdicts_text_def
        sample_verdicts_text_def swapped_verdicts_text_def sample_verdict_text_def
        member_text_def dq_def str_def)

lemma sample_parse_literals:
  "sample_parse (str ''null'') = Some JNull"
  "sample_parse (str ''[null]'') = Some (JArr [JNull])"
  "sample_parse (str ''[]'') = Some (JArr [])"
  "sample_parse (str ''{}'') = Some (JObj [])"
  by (simp_all add: sample_parse_def)

lemma sample_parse_not_json:
  "sample_parse (str ''no json here'') = None"
  "sample_parse (str ''nor here'') = None"
  by (simp_all add: sample_parse_def sample_claims_text_def short_verdicts_text_def
        sample_verdicts_text_def swapped_verdicts_text_def sample_verdict_text_def
        member_text_def dq_def str_def)

lemma cleanJson_literals:
  "cleanJson (str ''null'') = str ''null''"
  "cleanJson (str ''[null]'') = str ''[null]''"
  "cleanJson (str ''[]'') = str ''[]''"
  "cleanJson (str ''{}'') = str ''{}''"
  "cleanJson (str ''no json here'') = str ''no json here''"
  "cleanJson (str ''nor here'') = str ''nor here''"
  by (rule cleanJson_plain; simp add: str_def is_space_def)+

lemma property_fallback [simp]:
  "property fallback_checkResult (str ''status'') = JStr (str ''unverifiable'')"
  "property fallback_checkResult (str ''score'') = js_nat 50"
  "property fallback_checkResult (str ''explanation'') = JStr (str ''Unable to verify'')"
  "property fallback_checkResult (str ''sources'') = JArr []"
  by (simp_all add: property_def fallback_checkResult_def)

lemma property_unverifiable_verdict [simp]:
  "get_property (unverifiable_verdict i) (str ''claimIndex'') = Some (js_nat i)"
  "property (unverifiable_verdict i) (str ''status'') = JStr (str ''unverifiable'')"
  "property (unverifiable_verdict i) (str ''score'') = js_nat 50"
  "property (unverifiable_verdict i) (str ''explanation'') = JStr (str ''Unable to verify this claim'')"
  "property (unverifiable_verdict i) (str ''sources'') = JArr []"
  by (simp_all add: property_def unverifiable_verdict_def)

text \<open>What a claim that was built holds, in terms of the verdict found for its index.\<close>

lemma build_claim_Inr:
  assumes "build_claim (JArr vs) i x = Inr c"
  defines "cr \<equiv> (case find (\<lambda>f. get_property f (str ''claimIndex'') = Some (js_nat i)) vs of
                    Some f \<Rightarrow> f | None \<Rightarrow> fallback_checkResult)"
  shows "get_property x (str ''text'') = Some (claim_text c)"
    and "status c = property cr (str ''status'')"
    and "score c = property cr (str ''score'')"
    and "explanation c = property cr (str ''explanation'')"
    and "sources c =
           (if property cr (str ''status'') = JStr (str ''true'') then JArr []
            else if truthy (property cr (str ''sources'')) then property cr (str ''sources'')
            else JArr [])"
proof -
  from assms(1) obtain found where f: "find_claimIndex i vs = Inr found"
    and m: "make_claim x (case found of Some f \<Rightarrow> if truthy f then f else fallback_checkResult
                          | None \<Rightarrow> fallback_checkResult) = Inr c"
    by (auto simp: build_claim_def array_method_def split: sum.splits)
  from find_claimIndex_Inr [OF f]
  have found: "found = find (\<lambda>f. get_property f (str ''claimIndex'') = Some (js_nat i)) vs" .
  have "(case found of Some f \<Rightarrow> if truthy f then f else fallback_checkResult
         | None \<Rightarrow> fallback_checkResult) = cr"
  proof (cases found)
    case None
    then show ?thesis by (simp add: cr_def found [symmetric])
  next
    case (Some f)
    with found found_is_object [of i vs f] have "truthy f" by simp
    with Some show ?thesis by (simp add: cr_def found [symmetric])
  qed
  with m have mk: "make_claim x cr = Inr c" by simp
  then show "get_property x (str ''text'') = Some (claim_text c)"
    and "status c = property cr (str ''status'')"
    and "score c = property cr (str ''score'')"
    and "explanation c = property cr (str ''explanation'')"
    and "sources c =
           (if property cr (str ''status'') = JStr (str ''true'') then JArr []
            else if truthy (property cr (str ''sources'')) then property cr (str ''sources'')
            else JArr [])"
    by (auto simp: make_claim_def split: option.splits)
qed

lemma build_claim_total:
  assumes "\<forall>f\<in>set vs. f \<noteq> JNull \<and> f \<noteq> JUndefined" "x \<noteq> JNull" "x \<noteq> JUndefined"
  shows "\<exists>c. build_claim (JArr vs) i x = Inr c"
proof -
  from assms(2,3) obtain t where "get_property x (str ''text'') = Some t"
    by (cases x) auto
  then show ?thesis
    by (simp add: build_claim_def array_method_def find_claimIndex_total [OF assms(1)]
          make_claim_def)
qed

text \<open>
  C3. In every report \<^const>\<open>factCheckTranscription\<close> returns, a claim whose status is
  \<open>true\<close> has the empty list as its sources, whatever the verifier sent for it; a claim
  with another status has the \<open>sources\<close> value of the verdict found for its index when
  that value is truthy, and the empty list when it is not or when no verdict was found.
\<close>

theorem true_claims_carry_no_sources:
  assumes "factCheckTranscription apiKey JSON_parse op extraction verification = (evs, Inr r)"
  shows "(\<forall>c \<in> set (claims r). status c = JStr (str ''true'') \<longrightarrow> sources c = JArr []) \<and>
         (\<forall>t1 t2 vs i. extraction = Returned t1 \<and> verification = Returned t2 \<and>
              parse_factCheck JSON_parse t2 (parse_extraction JSON_parse t1) = Inr (JArr vs) \<and>
              i < length (claims r) \<and> status (claims r ! i) \<noteq> JStr (str ''true'') \<longrightarrow>
              sources (claims r ! i) =
                (case find (\<lambda>f. get_property f (str ''claimIndex'') = Some (js_nat i)) vs of
                   Some f \<Rightarrow> if truthy (property f (str ''sources''))
                             then property f (str ''sources'') else JArr []
                 | None \<Rightarrow> JArr []))"
  using assms
proof (cases rule: factCheck_result_cases)
  case no_claims
  then show ?thesis by (simp add: empty_result_def)
next
  case (assembled t1 t2 xs vs)
  note built = build_from_Inr [OF assembled(7)]
  from built have len: "length (claims r) = length xs"
    and each: "\<And>k. k < length xs \<Longrightarrow> build_claim (JArr vs) k (xs ! k) = Inr (claims r ! k)"
    by auto
  have first: "sources c = JArr []" if "c \<in> set (claims r)" "status c = JStr (str ''true'')" for c
  proof -
    from that(1) obtain i where i: "i < length xs" and c: "c = claims r ! i"
      unfolding len [symmetric] by (metis in_set_conv_nth)
    from build_claim_Inr(2,5) [OF each [OF i]] that(2) show ?thesis
      unfolding c by simp
  qed
  have second: "sources (claims r ! i) =
                (case find (\<lambda>f. get_property f (str ''claimIndex'') = Some (js_nat i)) vs of
                   Some f \<Rightarrow> if truthy (property f (str ''sources''))
                             then property f (str ''sources'') else JArr []
                 | None \<Rightarrow> JArr [])"
    if "i < length (claims r)" "status (claims r ! i) \<noteq> JStr (str ''true'')" for i
  proof -
    from that(1) have i: "i < length xs" by (simp add: len)
    from build_claim_Inr(2,5) [OF each [OF i]] that(2) show ?thesis
      by (auto split: option.splits)
  qed
  from first second assembled(2,3,4,6) show ?thesis
    by auto
qed

lemma get_property_length_JArr [simp]:
  "get_property (JArr xs) (str ''length'') = Some (js_nat (length xs))"
  by simp

lemma factCheck_assembled:
  assumes "apiKey \<noteq> []" "parse_extraction P t1 = JArr xs" "xs \<noteq> []"
    "parse_factCheck P t2 (JArr xs) = Inr fd" "build_claims fd (JArr xs) = Inr cs"
  shows "factCheckTranscription apiKey P op (Returned t1) (Returned t2) =
          (onProgress_call op 75 @ onProgress_call op 80 @ onProgress_call op 90 @
           onProgress_call op 100,
           Inr \<lparr>claims = cs, overallScore = calc_overallScore (make_summary cs),
                summary = make_summary cs\<rparr>)"
  using assms by (simp add: factCheckTranscription_def Let_def)

lemma factCheck_no_claims:
  assumes "apiKey \<noteq> []" "parse_extraction P t1 = JArr []"
  shows "factCheckTranscription apiKey P op (Returned t1) verification =
          (onProgress_call op 75, Inr empty_result)"
  using assms by (simp add: factCheckTranscription_def Let_def)

lemma sample_build:
  obtains cs where "build_claims (JArr sample_verdicts) (JArr sample_claims) = Inr cs"
    "map status cs = [JStr (str ''true''), JStr (str ''true''), JStr (str ''false''),
                      JStr (str ''partially_true'')]"
    "map sources cs = [JArr [], JArr [], JArr [JStr (str ''https://en.wikipedia.org/wiki/Moon'')],
                       JArr []]"
    "map claim_text cs = [JStr (str ''Water boils at 100 C''), JStr (str ''The Earth orbits the Sun''),
                          JStr (str ''The Moon is made of cheese''), JStr (str ''Bananas grow on trees'')]"
  by (simp add: build_claims_def array_method_def build_claim_def make_claim_def property_def
        sample_verdicts_def sample_verdict_def sample_claims_def)

lemma sample_run:
  obtains r where
    "factCheckTranscription (str ''key'') sample_parse True
       (Returned (fenced sample_claims_text)) (Returned sample_verdicts_text) =
     ([Progress 75, Progress 80, Progress 90, Progress 100], Inr r)"
    "map status (claims r) = [JStr (str ''true''), JStr (str ''true''), JStr (str ''false''),
                              JStr (str ''partially_true'')]"
    "map sources (claims r) =
       [JArr [], JArr [], JArr [JStr (str ''https://en.wikipedia.org/wiki/Moon'')], JArr []]"
proof -
  obtain cs where b: "build_claims (JArr sample_verdicts) (JArr sample_claims) = Inr cs"
    and st: "map status cs = [JStr (str ''true''), JStr (str ''true''), JStr (str ''false''),
                      JStr (str ''partially_true'')]"
    and so: "map sources cs = [JArr [], JArr [], JArr [JStr (str ''https://en.wikipedia.org/wiki/Moon'')],
                       JArr []]"
    by (rule sample_build)
  have pe: "parse_extraction sample_parse (fenced sample_claims_text) = JArr sample_claims"
    by (simp add: parse_extraction_def cleanJson_fenced sample_claims_text_shape sample_parse_claims)
  have pf: "parse_factCheck sample_parse sample_verdicts_text (JArr sample_claims) =
              Inr (JArr sample_verdicts)"
    by (simp add: parse_factCheck_def cleanJson_plain sample_verdicts_text_shape
          sample_parse_verdicts)
  have ne: "sample_claims \<noteq> []" by (simp add: sample_claims_def)
  have key: "str ''key'' \<noteq> []" by simp
  define r where "r = \<lparr>claims = cs, overallScore = calc_overallScore (make_summary cs),
           summary = make_summary cs\<rparr>"
  from factCheck_assembled [OF key pe ne pf b, of True]
  have run: "factCheckTranscription (str ''key'') sample_parse True
       (Returned (fenced sample_claims_text)) (Returned sample_verdicts_text) =
     ([Progress 75, Progress 80, Progress 90, Progress 100], Inr r)"
    by (simp add: onProgress_call_def r_def)
  have cl: "claims r = cs" by (simp add: r_def)
  show thesis
    by (rule that [OF run]) (simp_all only: cl st so)
qed

theorem overallScore_is_weighted_mean_witness:
  "(\<exists>evs r. factCheckTranscription (str ''key'') sample_parse True
      (Returned (fenced sample_claims_text)) (Returned sample_verdicts_text) = (evs, Inr r) \<and>
      map status (claims r) =
        [JStr (str ''true''), JStr (str ''true''), JStr (str ''false''),
         JStr (str ''partially_true'')] \<and>
      claims r \<noteq> [] \<and> overallScore r = 63) \<and>
   (\<exists>evs r. factCheckTranscription (str ''key'') sample_parse True
      (Returned (str ''[]'')) (Returned sample_verdicts_text) = (evs, Inr r) \<and>
      claims r = [] \<and> overallScore r = 100)"
proof -
  obtain r where
    run: "factCheckTranscription (str ''key'') sample_parse True
       (Returned (fenced sample_claims_text)) (Returned sample_verdicts_text) =
     ([Progress 75, Progress 80, Progress 90, Progress 100], Inr r)"
    and st: "map status (claims r) = [JStr (str ''true''), JStr (str ''true''), JStr (str ''false''),
                              JStr (str ''partially_true'')]"
    by (rule sample_run)
  from st have ne: "claims r \<noteq> []" by auto
  from overallScore_is_weighted_mean [OF run] st
  have sc: "overallScore r = 63" by blast
  define r0 where "r0 = empty_result"
  have pe: "parse_extraction sample_parse (str ''[]'') = JArr []"
    by (simp add: parse_extraction_def cleanJson_literals sample_parse_literals)
  have run0: "factCheckTranscription (str ''key'') sample_parse True
      (Returned (str ''[]'')) (Returned sample_verdicts_text) = ([Progress 75], Inr r0)"
    using factCheck_no_claims [OF _ pe, of "str ''key''" True]
    by (simp add: onProgress_call_def r0_def)
  have e: "claims r0 = []" by (simp add: empty_result_def r0_def)
  from overallScore_is_weighted_mean [OF run0] e have sc0: "overallScore r0 = 100" by blast
  from run st ne sc run0 e sc0 show ?thesis by auto
qed

theorem true_claims_carry_no_sources_witness:
  "\<exists>evs r. factCheckTranscription (str ''key'') sample_parse True
      (Returned (fenced sample_claims_text)) (Returned sample_verdicts_text) = (evs, Inr r) \<and>
      claims r ! 0 \<in> set (claims r) \<and> status (claims r ! 0) = JStr (str ''true'') \<and>
      property (sample_verdicts ! 0) (str ''sources'') =
        JArr [JStr (str ''https://en.wikipedia.org/wiki/Boiling_point'')] \<and>
      sources (claims r ! 0) = JArr [] \<and>
      2 < length (claims r) \<and> status (claims r ! 2) \<noteq> JStr (str ''true'') \<and>
      sources (claims r ! 2) = JArr [JStr (str ''https://en.wikipedia.org/wiki/Moon'')]"
proof -
  obtain r where
    run: "factCheckTranscription (str ''key'') sample_parse True
       (Returned (fenced sample_claims_text)) (Returned sample_verdicts_text) =
     ([Progress 75, Progress 80, Progress 90, Progress 100], Inr r)"
    and st: "map status (claims r) = [JStr (str ''true''), JStr (str ''true''), JStr (str ''false''),
                              JStr (str ''partially_true'')]"
    by (rule sample_run)
  have "length (map status (claims r)) = 4" by (simp add: st)
  then have len: "length (claims r) = 4" by simp
  have st0: "status (claims r ! 0) = JStr (str ''true'')"
    using arg_cong [OF st, of "\<lambda>xs. xs ! 0"] len by simp
  have st2: "status (claims r ! 2) \<noteq> JStr (str ''true'')"
    using arg_cong [OF st, of "\<lambda>xs. xs ! 2"] len by simp
  have mem: "claims r ! 0 \<in> set (claims r)" using len by simp
  have sent: "property (sample_verdicts ! 0) (str ''sources'') =
        JArr [JStr (str ''https://en.wikipedia.org/wiki/Boiling_point'')]"
    by (simp add: sample_verdicts_def sample_verdict_def property_def)
  have pe: "parse_extraction sample_parse (fenced sample_claims_text) = JArr sample_claims"
    by (simp add: parse_extraction_def cleanJson_fenced sample_claims_text_shape sample_parse_claims)
  have pf: "parse_factCheck sample_parse sample_verdicts_text
              (parse_extraction sample_parse (fenced sample_claims_text)) =
              Inr (JArr sample_verdicts)"
    by (simp add: parse_factCheck_def cleanJson_plain sample_verdicts_text_shape
          sample_parse_verdicts)
  have found: "find (\<lambda>f. get_property f (str ''claimIndex'') = Some (js_nat 2)) sample_verdicts =
               Some (sample_verdict 2 ''false''
                  [(str ''sources'', JArr [JStr (str ''https://en.wikipedia.org/wiki/Moon'')])])"
    by (simp add: sample_verdicts_def sample_verdict_def)
  note inst = true_claims_carry_no_sources [OF run]
  from inst mem st0 have s0: "sources (claims r ! 0) = JArr []" by blast
  from inst pf st2 len have "sources (claims r ! 2) =
                (case find (\<lambda>f. get_property f (str ''claimIndex'') = Some (js_nat 2)) sample_verdicts of
                   Some f \<Rightarrow> if truthy (property f (str ''sources''))
                             then property f (str ''sources'') else JArr []
                 | None \<Rightarrow> JArr [])"
    by auto
  then have s2: "sources (claims r ! 2) = JArr [JStr (str ''https://en.wikipedia.org/wiki/Moon'')]"
    by (simp add: found sample_verdict_def property_def)
  from run mem st0 sent s0 len st2 s2 show ?thesis by auto
qed

lemma find_aligned:
  assumes "\<forall>j<length vs. get_property (vs ! j) (str ''claimIndex'') = Some (js_nat j)"
  shows "find (\<lambda>f. get_property f (str ''claimIndex'') = Some (js_nat i)) vs =
           (if i < length vs then Some (vs ! i) else None)"
proof (cases "i < length vs")
  case True
  have "\<exists>k<length vs. get_property (vs ! k) (str ''claimIndex'') = Some (js_nat i) \<and>
          vs ! i = vs ! k \<and>
          (\<forall>j<k. get_property (vs ! j) (str ''claimIndex'') \<noteq> Some (js_nat i))"
  proof (intro exI [of _ i] conjI allI impI)
    show "i < length vs" by fact
    show "get_property (vs ! i) (str ''claimIndex'') = Some (js_nat i)" using assms True by simp
    show "vs ! i = vs ! i" ..
    fix j assume "j < i"
    with True assms have "get_property (vs ! j) (str ''claimIndex'') = Some (js_nat j)" by simp
    with \<open>j < i\<close> show "get_property (vs ! j) (str ''claimIndex'') \<noteq> Some (js_nat i)" by simp
  qed
  with True show ?thesis by (simp add: find_Some_iff)
next
  case False
  have "get_property x (str ''claimIndex'') \<noteq> Some (js_nat i)" if "x \<in> set vs" for x
  proof -
    from that obtain j where "j < length vs" "x = vs ! j" by (metis in_set_conv_nth)
    with assms False show ?thesis by auto
  qed
  with False show ?thesis by (simp add: find_None_iff)
qed

lemma find_claimIndex_null:
  assumes "JNull \<in> set vs" "\<forall>f\<in>set vs. get_property f (str ''claimIndex'') \<noteq> Some (js_nat i)"
  shows "\<exists>msg. find_claimIndex i vs = Inl msg"
  using assms
proof (induction vs)
  case Nil
  then show ?case by simp
next
  case (Cons f fs)
  show ?case
  proof (cases "get_property f (str ''claimIndex'')")
    case None
    then show ?thesis by simp
  next
    case (Some v)
    then have "f \<noteq> JNull" by auto
    with Cons.prems have "JNull \<in> set fs" by auto
    with Cons have "\<exists>msg. find_claimIndex i fs = Inl msg" by auto
    with Some Cons.prems show ?thesis by auto
  qed
qed

lemma build_from_throws:
  assumes "k < length xs" "\<exists>msg. build_claim fd (i + k) (xs ! k) = Inl msg"
  shows "\<exists>msg. build_from fd i xs = Inl msg"
proof (rule ccontr)
  assume "\<not> (\<exists>msg. build_from fd i xs = Inl msg)"
  then obtain cs where "build_from fd i xs = Inr cs" by (cases "build_from fd i xs") auto
  from build_from_Inr [OF this] assms show False by auto
qed

lemma factCheck_array_throws:
  assumes key: "apiKey \<noteq> []" and ex: "parse_extraction P t1 = JArr xs"
    and k: "k < length xs"
    and thr: "\<And>fd. parse_factCheck P t2 (JArr xs) = Inr fd \<Longrightarrow>
                \<exists>msg. build_claim fd k (xs ! k) = Inl msg"
  shows "\<exists>evs msg. factCheckTranscription apiKey P op (Returned t1) (Returned t2) = (evs, Inl msg)"
proof (cases "parse_factCheck P t2 (JArr xs)")
  case (Inl err)
  with key ex k show ?thesis
    by (auto simp: factCheckTranscription_def Let_def)
next
  case (Inr fd)
  from thr [OF Inr] build_from_throws [of k xs fd 0] k
  obtain msg where "build_from fd 0 xs = Inl msg" by auto
  with key ex k Inr show ?thesis
    by (auto simp: factCheckTranscription_def Let_def build_claims_def array_method_def)
qed

section \<open>Properties of the analysis task and of the job states\<close>

lemma analyzeVideoAsync_returned:
  assumes "videoJobs videoId = Some job"
    and "factCheckTranscription apiKey P True extraction verification = (evs, Inr r)"
  shows "job_status (last (analyzeVideoAsync apiKey P extraction verification videoJobs videoId)) = completed"
    and "job_claims (last (analyzeVideoAsync apiKey P extraction verification videoJobs videoId)) = Some (claims r)"
    and "job_overallScore (last (analyzeVideoAsync apiKey P extraction verification videoJobs videoId)) = Some (overallScore r)"
    and "job_progress (last (analyzeVideoAsync apiKey P extraction verification videoJobs videoId)) = 100"
  using assms by (simp_all add: analyzeVideoAsync_def Let_def)

lemma last_reported_transcription:
  "job_transcription (last (job # map (\<lambda>p. job\<lparr>job_progress := p\<rparr>) ps)) = job_transcription job"
  by (induction ps rule: rev_induct) simp_all

lemma analyzeVideoAsync_threw:
  assumes "videoJobs videoId = Some job"
    and "factCheckTranscription apiKey P True extraction verification = (evs, Inl msg)"
  shows "job_status (last (analyzeVideoAsync apiKey P extraction verification videoJobs videoId)) = error"
    and "job_transcription (last (analyzeVideoAsync apiKey P extraction verification videoJobs videoId)) = job_transcription job"
    and "job_error (last (analyzeVideoAsync apiKey P extraction verification videoJobs videoId)) = Some msg"
  using assms
  by (simp_all add: analyzeVideoAsync_def Let_def last_reported_transcription del: last.simps)

lemma sample_extraction:
  "parse_extraction sample_parse sample_claims_text = JArr sample_claims"
  "parse_extraction sample_parse (fenced sample_claims_text) = JArr sample_claims"
  by (simp_all add: parse_extraction_def cleanJson_fenced cleanJson_plain sample_claims_text_shape
        sample_parse_claims)

lemma null_verdict_run:
  "factCheckTranscription (str ''key'') sample_parse True
     (Returned sample_claims_text) (Returned (str ''[null]'')) =
   ([Progress 75, Progress 80, Progress 90],
    Inl (str ''Fact-checking failed: Cannot read properties of null (reading '' @ [39] @
         str ''claimIndex'' @ [39] @ str '')''))"
proof -
  have pf: "parse_factCheck sample_parse (str ''[null]'') (JArr sample_claims) = Inr (JArr [JNull])"
    by (simp add: parse_factCheck_def cleanJson_literals sample_parse_literals)
  have b: "build_claims (JArr [JNull]) (JArr sample_claims) =
             Inl (cannot_read JNull (str ''claimIndex''))"
    by (simp add: build_claims_def array_method_def build_claim_def sample_claims_def)
  have len: "length sample_claims = 4" by (simp add: sample_claims_def)
  have m: "fact_checking_failed (cannot_read JNull (str ''claimIndex'')) =
         str ''Fact-checking failed: Cannot read properties of null (reading '' @ [39] @
         str ''claimIndex'' @ [39] @ str '')''"
    by (simp add: fact_checking_failed_def cannot_read_def str_def)
  show ?thesis
    unfolding m [symmetric]
    by (simp add: factCheckTranscription_def Let_def sample_extraction pf b len onProgress_call_def)
qed

lemma swapped_run:
  "map_sum id (map status \<circ> claims)
     (snd (factCheckTranscription (str ''key'') sample_parse True
             (Returned sample_claims_text) (Returned swapped_verdicts_text))) =
   Inr [JStr (str ''true''), JStr (str ''false''), JStr (str ''unverifiable''),
        JStr (str ''unverifiable'')]"
proof -
  have pf: "parse_factCheck sample_parse swapped_verdicts_text (JArr sample_claims) =
              Inr (JArr swapped_verdicts)"
    by (simp add: parse_factCheck_def cleanJson_plain swapped_verdicts_text_shape
          sample_parse_swapped)
  obtain cs where b: "build_claims (JArr swapped_verdicts) (JArr sample_claims) = Inr cs"
    and st: "map status cs = [JStr (str ''true''), JStr (str ''false''), JStr (str ''unverifiable''),
        JStr (str ''unverifiable'')]"
    by (simp add: build_claims_def array_method_def build_claim_def make_claim_def property_def
          swapped_verdicts_def sample_verdict_def sample_claims_def fallback_checkResult_def)
  have ne: "sample_claims \<noteq> []" by (simp add: sample_claims_def)
  have key: "str ''key'' \<noteq> []" by simp
  show ?thesis
    unfolding factCheck_assembled [OF key sample_extraction(1) ne pf b] by (simp add: st)
qed

text \<open>
  C6, as stated, fails. A verdict array that holds \<open>null\<close> is not defaulted: reading
  \<^verbatim>\<open>claimIndex\<close> of the null element throws, the analysis ends with an error and the job
  is left in \<open>error\<close>. Nor is the position of a verdict what matches it with a claim:
  with two verdicts listed in the opposite order of the claims they name, claim 0 takes
  the \<open>true\<close> verdict found at position 1, not the \<open>false\<close> one at position 0.
\<close>

theorem null_verdict_is_an_error:
  "factCheckTranscription (str ''key'') sample_parse True
     (Returned sample_claims_text) (Returned (str ''[null]'')) =
   ([Progress 75, Progress 80, Progress 90],
    Inl (str ''Fact-checking failed: Cannot read properties of null (reading '' @ [39] @
         str ''claimIndex'' @ [39] @ str '')'')) \<and>
   sample_parse (cleanJson (str ''[null]'')) = Some (JArr [JNull]) \<and>
   job_status (last (analyzeVideoAsync (str ''key'') sample_parse
                       (Returned sample_claims_text) (Returned (str ''[null]''))
                       [str ''job-1'' \<mapsto> analyzing_job] (str ''job-1''))) = error \<and>
   map_sum id (map status \<circ> claims)
     (snd (factCheckTranscription (str ''key'') sample_parse True
             (Returned sample_claims_text) (Returned swapped_verdicts_text))) =
   Inr [JStr (str ''true''), JStr (str ''false''), JStr (str ''unverifiable''),
        JStr (str ''unverifiable'')] \<and>
   sample_parse (cleanJson swapped_verdicts_text) = Some (JArr swapped_verdicts) \<and>
   property (swapped_verdicts ! 0) (str ''status'') = JStr (str ''false'') \<and>
   property (swapped_verdicts ! 1) (str ''claimIndex'') = js_nat 0"
proof -
  have job: "[str ''job-1'' \<mapsto> analyzing_job] (str ''job-1'') = Some analyzing_job" by simp
  note st = analyzeVideoAsync_threw(1)
      [where videoJobs = "[str ''job-1'' \<mapsto> analyzing_job]" and videoId = "str ''job-1''",
       OF job null_verdict_run]
  have p: "sample_parse (cleanJson (str ''[null]'')) = Some (JArr [JNull])"
    "sample_parse (cleanJson swapped_verdicts_text) = Some (JArr swapped_verdicts)"
    by (simp_all add: cleanJson_literals sample_parse_literals cleanJson_plain
          swapped_verdicts_text_shape sample_parse_swapped)
  have v: "property (swapped_verdicts ! 0) (str ''status'') = JStr (str ''false'')"
    "property (swapped_verdicts ! 1) (str ''claimIndex'') = js_nat 0"
    by (simp_all add: swapped_verdicts_def sample_verdict_def property_def)
  from null_verdict_run st swapped_run p v show ?thesis by simp
qed

text \<open>
  C6, amended. Let both responses parse to arrays. When neither array holds \<open>null\<close>, the
  run returns a report with one claim per extracted claim: the claim at index \<open>i\<close> takes
  status, score and explanation from the first verdict whose \<open>claimIndex\<close> is \<open>i\<close>,
  wherever that verdict stands in its array, and an index that no verdict names receives
  status \<open>unverifiable\<close>, score 50, the explanation \<open>Unable to verify\<close> and no sources.
  When every verdict names its own position, this is matching by position, and the
  indices beyond the end of a shorter verdict array receive the default. A \<open>null\<close> among
  the extracted claims, or a \<open>null\<close> among the verdicts when some claim is named by no
  verdict, makes the run throw.
\<close>

theorem verdicts_matched_by_claimIndex:
  assumes key: "apiKey \<noteq> []"
    and ex: "JSON_parse (cleanJson t1) = Some (JArr ex)"
    and vs: "JSON_parse (cleanJson t2) = Some (JArr vs)"
  shows
   "((\<forall>x\<in>set ex. x \<noteq> JNull \<and> x \<noteq> JUndefined) \<and> (\<forall>f\<in>set vs. f \<noteq> JNull \<and> f \<noteq> JUndefined) \<longrightarrow>
       (\<exists>evs r. factCheckTranscription apiKey JSON_parse op (Returned t1) (Returned t2) =
                   (evs, Inr r) \<and>
           length (claims r) = length ex \<and>
           (\<forall>i<length ex.
              (case find (\<lambda>f. get_property f (str ''claimIndex'') = Some (js_nat i)) vs of
                 Some f \<Rightarrow> status (claims r ! i) = property f (str ''status'') \<and>
                           score (claims r ! i) = property f (str ''score'') \<and>
                           explanation (claims r ! i) = property f (str ''explanation'')
               | None \<Rightarrow> status (claims r ! i) = JStr (str ''unverifiable'') \<and>
                         score (claims r ! i) = js_nat 50 \<and>
                         explanation (claims r ! i) = JStr (str ''Unable to verify'') \<and>
                         sources (claims r ! i) = JArr [])) \<and>
           ((\<forall>j<length vs. get_property (vs ! j) (str ''claimIndex'') = Some (js_nat j)) \<longrightarrow>
              (\<forall>i<length ex.
                 if i < length vs
                 then status (claims r ! i) = property (vs ! i) (str ''status'') \<and>
                      score (claims r ! i) = property (vs ! i) (str ''score'') \<and>
                      explanation (claims r ! i) = property (vs ! i) (str ''explanation'')
                 else status (claims r ! i) = JStr (str ''unverifiable'') \<and>
                      score (claims r ! i) = js_nat 50 \<and>
                      explanation (claims r ! i) = JStr (str ''Unable to verify''))))) \<and>
    (JNull \<in> set ex \<longrightarrow>
       (\<exists>evs msg. factCheckTranscription apiKey JSON_parse op (Returned t1) (Returned t2) =
                     (evs, Inl msg))) \<and>
    (JNull \<in> set vs \<and>
     (\<exists>i<length ex. \<forall>f\<in>set vs. get_property f (str ''claimIndex'') \<noteq> Some (js_nat i)) \<longrightarrow>
       (\<exists>evs msg. factCheckTranscription apiKey JSON_parse op (Returned t1) (Returned t2) =
                     (evs, Inl msg)))"
proof (intro conjI impI)
  have pe: "parse_extraction JSON_parse t1 = JArr ex" using ex by (simp add: parse_extraction_def)
  have pf: "parse_factCheck JSON_parse t2 x = Inr (JArr vs)" for x
    using vs by (simp add: parse_factCheck_def)
  {
    assume ok: "(\<forall>x\<in>set ex. x \<noteq> JNull \<and> x \<noteq> JUndefined) \<and>
                (\<forall>f\<in>set vs. f \<noteq> JNull \<and> f \<noteq> JUndefined)"
    show "\<exists>evs r. factCheckTranscription apiKey JSON_parse op (Returned t1) (Returned t2) =
                   (evs, Inr r) \<and>
           length (claims r) = length ex \<and>
           (\<forall>i<length ex.
              (case find (\<lambda>f. get_property f (str ''claimIndex'') = Some (js_nat i)) vs of
                 Some f \<Rightarrow> status (claims r ! i) = property f (str ''status'') \<and>
                           score (claims r ! i) = property f (str ''score'') \<and>
                           explanation (claims r ! i) = property f (str ''explanation'')
               | None \<Rightarrow> status (claims r ! i) = JStr (str ''unverifiable'') \<and>
                         score (claims r ! i) = js_nat 50 \<and>
                         explanation (claims r ! i) = JStr (str ''Unable to verify'') \<and>
                         sources (claims r ! i) = JArr [])) \<and>
           ((\<forall>j<length vs. get_property (vs ! j) (str ''claimIndex'') = Some (js_nat j)) \<longrightarrow>
              (\<forall>i<length ex.
                 if i < length vs
                 then status (claims r ! i) = property (vs ! i) (str ''status'') \<and>
                      score (claims r ! i) = property (vs ! i) (str ''score'') \<and>
                      explanation (claims r ! i) = property (vs ! i) (str ''explanation'')
                 else status (claims r ! i) = JStr (str ''unverifiable'') \<and>
                      score (claims r ! i) = js_nat 50 \<and>
                      explanation (claims r ! i) = JStr (str ''Unable to verify'')))"
    proof (cases "ex = []")
      case True
      with key pe show ?thesis
        by (simp add: factCheck_no_claims empty_result_def)
    next
      case False
      have "\<forall>k<length ex. \<exists>c. build_claim (JArr vs) (0 + k) (ex ! k) = Inr c"
        using ok build_claim_total [of vs] by simp
      from build_from_total [OF this] obtain cs where bf: "build_from (JArr vs) 0 ex = Inr cs"
        by auto
      then have b: "build_claims (JArr vs) (JArr ex) = Inr cs"
        by (simp add: build_claims_def array_method_def)
      define r where "r = \<lparr>claims = cs, overallScore = calc_overallScore (make_summary cs),
                           summary = make_summary cs\<rparr>"
      have run: "factCheckTranscription apiKey JSON_parse op (Returned t1) (Returned t2) =
          (onProgress_call op 75 @ onProgress_call op 80 @ onProgress_call op 90 @
           onProgress_call op 100, Inr r)"
        unfolding r_def by (rule factCheck_assembled [OF key pe False pf b])
      have cl: "claims r = cs" by (simp add: r_def)
      from build_from_Inr [OF bf] have len: "length (claims r) = length ex"
        and each: "\<And>k. k < length ex \<Longrightarrow> build_claim (JArr vs) k (ex ! k) = Inr (claims r ! k)"
        by (auto simp: cl)
      have general: "case find (\<lambda>f. get_property f (str ''claimIndex'') = Some (js_nat i)) vs of
                 Some f \<Rightarrow> status (claims r ! i) = property f (str ''status'') \<and>
                           score (claims r ! i) = property f (str ''score'') \<and>
                           explanation (claims r ! i) = property f (str ''explanation'')
               | None \<Rightarrow> status (claims r ! i) = JStr (str ''unverifiable'') \<and>
                         score (claims r ! i) = js_nat 50 \<and>
                         explanation (claims r ! i) = JStr (str ''Unable to verify'') \<and>
                         sources (claims r ! i) = JArr []"
        if "i < length ex" for i
        using build_claim_Inr [OF each [OF that]]
        by (auto split: option.splits)
      have aligned: "if i < length vs
                 then status (claims r ! i) = property (vs ! i) (str ''status'') \<and>
                      score (claims r ! i) = property (vs ! i) (str ''score'') \<and>
                      explanation (claims r ! i) = property (vs ! i) (str ''explanation'')
                 else status (claims r ! i) = JStr (str ''unverifiable'') \<and>
                      score (claims r ! i) = js_nat 50 \<and>
                      explanation (claims r ! i) = JStr (str ''Unable to verify'')"
        if "i < length ex"
          and al: "\<forall>j<length vs. get_property (vs ! j) (str ''claimIndex'') = Some (js_nat j)" for i
        using general [OF that(1)] by (cases "i < length vs") (simp_all add: find_aligned [OF al])
      show ?thesis
        unfolding run using len general aligned by blast
    qed
  }
  {
    assume "JNull \<in> set ex"
    then obtain k where k: "k < length ex" and n: "ex ! k = JNull" by (metis in_set_conv_nth)
    have "\<exists>msg. build_claim fd k (ex ! k) = Inl msg" for fd
      by (simp add: build_claim_def make_claim_def n split: sum.splits)
    then show "\<exists>evs msg. factCheckTranscription apiKey JSON_parse op (Returned t1) (Returned t2) =
                     (evs, Inl msg)"
      using factCheck_array_throws [OF key pe k] by blast
  }
  {
    assume a: "JNull \<in> set vs \<and>
     (\<exists>i<length ex. \<forall>f\<in>set vs. get_property f (str ''claimIndex'') \<noteq> Some (js_nat i))"
    then obtain i where i: "i < length ex"
      and none: "\<forall>f\<in>set vs. get_property f (str ''claimIndex'') \<noteq> Some (js_nat i)" by auto
    from a none find_claimIndex_null [of vs i] obtain msg where "find_claimIndex i vs = Inl msg"
      by auto
    then have "\<exists>msg. build_claim fd i (ex ! i) = Inl msg"
      if "parse_factCheck JSON_parse t2 (JArr ex) = Inr fd" for fd
    proof -
      from that have "fd = JArr vs" by (simp add: pf)
      with \<open>find_claimIndex i vs = Inl msg\<close> show ?thesis
        by (simp add: build_claim_def array_method_def)
    qed
    then show "\<exists>evs msg. factCheckTranscription apiKey JSON_parse op (Returned t1) (Returned t2) =
                     (evs, Inl msg)"
      using factCheck_array_throws [OF key pe i] by blast
  }
qed

theorem verdicts_matched_by_claimIndex_witness:
  "(\<exists>evs r. factCheckTranscription (str ''key'') sample_parse True
               (Returned sample_claims_text) (Returned short_verdicts_text) = (evs, Inr r) \<and>
     length (claims r) = 4 \<and> length (take 2 sample_verdicts) = 2 \<and>
     status (claims r ! 1) = JStr (str ''true'') \<and> score (claims r ! 1) = js_nat 85 \<and>
     status (claims r ! 3) = JStr (str ''unverifiable'') \<and> score (claims r ! 3) = js_nat 50 \<and>
     explanation (claims r ! 3) = JStr (str ''Unable to verify'')) \<and>
   (\<exists>evs msg. factCheckTranscription (str ''key'') sample_parse True
               (Returned (str ''[null]'')) (Returned short_verdicts_text) = (evs, Inl msg)) \<and>
   (\<exists>evs msg. factCheckTranscription (str ''key'') sample_parse True
               (Returned sample_claims_text) (Returned (str ''[null]'')) = (evs, Inl msg))"
proof -
  let ?vs = "take 2 sample_verdicts"
  have vs: "?vs = [sample_verdict 0 ''true''
                     [(str ''sources'', JArr [JStr (str ''https://en.wikipedia.org/wiki/Boiling_point'')])],
                   sample_verdict 1 ''true'' []]"
    by (simp add: sample_verdicts_def)
  have al: "\<forall>j<length ?vs. get_property (?vs ! j) (str ''claimIndex'') = Some (js_nat j)"
    unfolding vs by (simp add: sample_verdict_def less_Suc_eq)
  have key: "str ''key'' \<noteq> []" by simp
  have len4: "length sample_claims = 4" by (simp add: sample_claims_def)
  have p1: "sample_parse (cleanJson sample_claims_text) = Some (JArr sample_claims)"
    by (simp add: cleanJson_plain sample_claims_text_shape sample_parse_claims)
  have p2: "sample_parse (cleanJson short_verdicts_text) = Some (JArr ?vs)"
    by (simp add: cleanJson_plain short_verdicts_text_shape sample_parse_short)
  have p3: "sample_parse (cleanJson (str ''[null]'')) = Some (JArr [JNull])"
    by (simp add: cleanJson_literals sample_parse_literals)
  have ok: "(\<forall>x\<in>set sample_claims. x \<noteq> JNull \<and> x \<noteq> JUndefined) \<and>
            (\<forall>f\<in>set ?vs. f \<noteq> JNull \<and> f \<noteq> JUndefined)"
    unfolding vs by (simp add: sample_claims_def sample_verdict_def)
  note part1 = verdicts_matched_by_claimIndex [OF key p1 p2, of True, THEN conjunct1, THEN mp, OF ok]
  then obtain evs r where run: "factCheckTranscription (str ''key'') sample_parse True
               (Returned sample_claims_text) (Returned short_verdicts_text) = (evs, Inr r)"
    and len: "length (claims r) = length sample_claims"
    and pos: "(\<forall>j<length ?vs. get_property (?vs ! j) (str ''claimIndex'') = Some (js_nat j)) \<longrightarrow>
              (\<forall>i<length sample_claims.
                 if i < length ?vs
                 then status (claims r ! i) = property (?vs ! i) (str ''status'') \<and>
                      score (claims r ! i) = property (?vs ! i) (str ''score'') \<and>
                      explanation (claims r ! i) = property (?vs ! i) (str ''explanation'')
                 else status (claims r ! i) = JStr (str ''unverifiable'') \<and>
                      score (claims r ! i) = js_nat 50 \<and>
                      explanation (claims r ! i) = JStr (str ''Unable to verify''))"
    by blast
  from pos al have each: "\<forall>i<length sample_claims.
                 if i < length ?vs
                 then status (claims r ! i) = property (?vs ! i) (str ''status'') \<and>
                      score (claims r ! i) = property (?vs ! i) (str ''score'') \<and>
                      explanation (claims r ! i) = property (?vs ! i) (str ''explanation'')
                 else status (claims r ! i) = JStr (str ''unverifiable'') \<and>
                      score (claims r ! i) = js_nat 50 \<and>
                      explanation (claims r ! i) = JStr (str ''Unable to verify'')"
    by blast
  have one: "status (claims r ! 1) = JStr (str ''true'') \<and> score (claims r ! 1) = js_nat 85"
    using each [rule_format, of 1] len4 unfolding vs
    by (simp add: sample_verdict_def property_def)
  have three: "status (claims r ! 3) = JStr (str ''unverifiable'') \<and>
     score (claims r ! 3) = js_nat 50 \<and>
     explanation (claims r ! 3) = JStr (str ''Unable to verify'')"
    using each [rule_format, of 3] len4 unfolding vs by simp
  have l2: "length ?vs = 2" unfolding vs by simp
  have first: "\<exists>evs r. factCheckTranscription (str ''key'') sample_parse True
               (Returned sample_claims_text) (Returned short_verdicts_text) = (evs, Inr r) \<and>
     length (claims r) = 4 \<and> length (take 2 sample_verdicts) = 2 \<and>
     status (claims r ! 1) = JStr (str ''true'') \<and> score (claims r ! 1) = js_nat 85 \<and>
     status (claims r ! 3) = JStr (str ''unverifiable'') \<and> score (claims r ! 3) = js_nat 50 \<and>
     explanation (claims r ! 3) = JStr (str ''Unable to verify'')"
    using run len len4 one three l2 by auto
  have n1: "JNull \<in> set [JNull]" by simp
  from verdicts_matched_by_claimIndex
         [OF key p3 p2, of True, THEN conjunct2, THEN conjunct1, THEN mp, OF n1]
  have second: "\<exists>evs msg. factCheckTranscription (str ''key'') sample_parse True
               (Returned (str ''[null]'')) (Returned short_verdicts_text) = (evs, Inl msg)"
    .
  have n2: "JNull \<in> set [JNull] \<and>
     (\<exists>i<length sample_claims. \<forall>f\<in>set [JNull]. get_property f (str ''claimIndex'') \<noteq> Some (js_nat i))"
    by (auto simp: len4 intro: exI [of _ 0])
  from verdicts_matched_by_claimIndex
         [OF key p1 p3, of True, THEN conjunct2, THEN conjunct2, THEN mp, OF n2]
  have third: "\<exists>evs msg. factCheckTranscription (str ''key'') sample_parse True
               (Returned sample_claims_text) (Returned (str ''[null]'')) = (evs, Inl msg)"
    .
  from first second third show ?thesis by (intro conjI)
qed

lemma placeholder_extraction:
  "JSON_parse (cleanJson t1) = None \<Longrightarrow> parse_extraction JSON_parse t1 = placeholder_claims"
  by (simp add: parse_extraction_def)

lemma find_unverifiable:
  "i < n \<Longrightarrow>
   find (\<lambda>f. get_property f (str ''claimIndex'') = Some (js_nat i)) (map unverifiable_verdict [0..<n]) =
     Some (unverifiable_verdict i)"
  using find_aligned [of "map unverifiable_verdict [0..<n]" i] by simp

lemma unparseable_extraction_run:
  "factCheckTranscription (str ''key'') sample_parse True
     (Returned (str ''no json here'')) (Returned (str ''null'')) =
   ([Progress 75, Progress 80, Progress 90],
    Inl (str ''Fact-checking failed: Cannot read properties of null (reading '' @ [39] @
         str ''find'' @ [39] @ str '')''))"
proof -
  have pe: "parse_extraction sample_parse (str ''no json here'') = placeholder_claims"
    by (simp add: parse_extraction_def cleanJson_literals sample_parse_not_json)
  have pf: "parse_factCheck sample_parse (str ''null'') x = Inr JNull" for x
    by (simp add: parse_factCheck_def cleanJson_literals sample_parse_literals)
  have b: "build_claims JNull placeholder_claims = Inl (cannot_read JNull (str ''find''))"
    by (simp add: build_claims_def array_method_def build_claim_def placeholder_claims_def)
  have len: "get_property placeholder_claims (str ''length'') = Some (js_nat 1)"
    by (simp add: placeholder_claims_def)
  have m: "fact_checking_failed (cannot_read JNull (str ''find'')) =
         str ''Fact-checking failed: Cannot read properties of null (reading '' @ [39] @
         str ''find'' @ [39] @ str '')''"
    by (simp add: fact_checking_failed_def cannot_read_def str_def)
  show ?thesis
    unfolding m [symmetric]
    by (simp add: factCheckTranscription_def Let_def pe pf b len onProgress_call_def)
qed

lemma unparseable_verification_run:
  "factCheckTranscription (str ''key'') sample_parse True
     (Returned (str ''{}'')) (Returned (str ''nor here'')) =
   ([Progress 75, Progress 80],
    Inl (str ''Fact-checking failed: extractedClaims.map is not a function''))"
proof -
  have pe: "parse_extraction sample_parse (str ''{}'') = JObj []"
    by (simp add: parse_extraction_def cleanJson_literals sample_parse_literals)
  have callee: "str ''extractedClaims'' @ str ''.'' @ str ''map'' = str ''extractedClaims.map''"
    by (simp add: str_def)
  have pf: "parse_factCheck sample_parse (str ''nor here'') (JObj []) =
              Inl (not_a_function (str ''extractedClaims.map''))"
    by (simp add: parse_factCheck_def cleanJson_literals sample_parse_not_json array_method_def
          callee)
  have m: "fact_checking_failed (not_a_function (str ''extractedClaims.map'')) =
         str ''Fact-checking failed: extractedClaims.map is not a function''"
    by (simp add: fact_checking_failed_def not_a_function_def str_def)
  show ?thesis
    unfolding m [symmetric]
    by (simp add: factCheckTranscription_def Let_def pe pf onProgress_call_def js_nat_def)
qed

text \<open>
  C8, as stated, fails. With an extraction response that is not JSON and a verification
  response \<^verbatim>\<open>null\<close>, the placeholder claim is substituted, and then the call of \<^verbatim>\<open>find\<close>
  on the parsed null throws: the analysis raises and the job is left in \<open>error\<close>. With a
  verification response that is not JSON and an extraction response \<^verbatim>\<open>{}\<close>, the handler of
  the parse failure throws itself, \<^verbatim>\<open>map\<close> being called on what is not an array.
\<close>

theorem parse_failure_can_end_in_error:
  "sample_parse (cleanJson (str ''no json here'')) = None \<and>
   factCheckTranscription (str ''key'') sample_parse True
     (Returned (str ''no json here'')) (Returned (str ''null'')) =
   ([Progress 75, Progress 80, Progress 90],
    Inl (str ''Fact-checking failed: Cannot read properties of null (reading '' @ [39] @
         str ''find'' @ [39] @ str '')'')) \<and>
   job_status (last (analyzeVideoAsync (str ''key'') sample_parse
                       (Returned (str ''no json here'')) (Returned (str ''null''))
                       [str ''job-1'' \<mapsto> analyzing_job] (str ''job-1''))) = error \<and>
   sample_parse (cleanJson (str ''nor here'')) = None \<and>
   factCheckTranscription (str ''key'') sample_parse True
     (Returned (str ''{}'')) (Returned (str ''nor here'')) =
   ([Progress 75, Progress 80],
    Inl (str ''Fact-checking failed: extractedClaims.map is not a function'')) \<and>
   job_status (last (analyzeVideoAsync (str ''key'') sample_parse
                       (Returned (str ''{}'')) (Returned (str ''nor here''))
                       [str ''job-1'' \<mapsto> analyzing_job] (str ''job-1''))) = error"
proof -
  have job: "[str ''job-1'' \<mapsto> analyzing_job] (str ''job-1'') = Some analyzing_job" by simp
  note e1 = analyzeVideoAsync_threw(1)
      [where videoJobs = "[str ''job-1'' \<mapsto> analyzing_job]" and videoId = "str ''job-1''",
       OF job unparseable_extraction_run]
  note e2 = analyzeVideoAsync_threw(1)
      [where videoJobs = "[str ''job-1'' \<mapsto> analyzing_job]" and videoId = "str ''job-1''",
       OF job unparseable_verification_run]
  have p: "sample_parse (cleanJson (str ''no json here'')) = None"
          "sample_parse (cleanJson (str ''nor here'')) = None"
    by (simp_all add: cleanJson_literals sample_parse_not_json)
  from p unparseable_extraction_run unparseable_verification_run e1 e2 show ?thesis by simp
qed

text \<open>Arrays without null are assembled into a report, claim by claim.\<close>

lemma assembled_when_no_null:
  assumes key: "apiKey \<noteq> []" and pe: "parse_extraction P t1 = JArr ex"
    and pf: "parse_factCheck P t2 (JArr ex) = Inr (JArr vs)"
    and ok_ex: "\<forall>x\<in>set ex. x \<noteq> JNull \<and> x \<noteq> JUndefined"
    and ok_vs: "\<forall>f\<in>set vs. f \<noteq> JNull \<and> f \<noteq> JUndefined"
  obtains evs r where "factCheckTranscription apiKey P op (Returned t1) (Returned t2) = (evs, Inr r)"
    "length (claims r) = length ex"
    "\<And>k. k < length ex \<Longrightarrow> build_claim (JArr vs) k (ex ! k) = Inr (claims r ! k)"
proof (cases "ex = []")
  case True
  with key pe have "factCheckTranscription apiKey P op (Returned t1) (Returned t2) =
          (onProgress_call op 75, Inr empty_result)"
    by (simp add: factCheck_no_claims)
  moreover have "length (claims empty_result) = length ex" by (simp add: True empty_result_def)
  ultimately show ?thesis using True by (intro that) simp_all
next
  case False
  have "\<forall>k<length ex. \<exists>c. build_claim (JArr vs) (0 + k) (ex ! k) = Inr c"
    using ok_ex ok_vs build_claim_total [of vs] by simp
  from build_from_total [OF this] obtain cs where bf: "build_from (JArr vs) 0 ex = Inr cs"
    by auto
  then have b: "build_claims (JArr vs) (JArr ex) = Inr cs"
    by (simp add: build_claims_def array_method_def)
  define r where "r = \<lparr>claims = cs, overallScore = calc_overallScore (make_summary cs),
                       summary = make_summary cs\<rparr>"
  have run: "factCheckTranscription apiKey P op (Returned t1) (Returned t2) =
      (onProgress_call op 75 @ onProgress_call op 80 @ onProgress_call op 90 @
       onProgress_call op 100, Inr r)"
    unfolding r_def by (rule factCheck_assembled [OF key pe False pf b])
  have cl: "claims r = cs" by (simp add: r_def)
  from build_from_Inr [OF bf] have len: "length (claims r) = length ex"
    and each: "\<And>k. k < length ex \<Longrightarrow> build_claim (JArr vs) k (ex ! k) = Inr (claims r ! k)"
    by (auto simp: cl)
  from run len each show ?thesis by (rule that)
qed

lemma unverifiable_verdicts_no_null:
  "\<forall>f\<in>set (map unverifiable_verdict [0..<n]). f \<noteq> JNull \<and> f \<noteq> JUndefined"
  by (simp add: unverifiable_verdict_def)

lemma placeholder_no_null:
  "placeholder_claims = JArr [JObj [(str ''text'', JStr (str ''Unable to extract specific claims'')),
                                   (str ''timestamp'', JUndefined)]]"
  by (simp add: placeholder_claims_def)

lemma placeholder_run:
  assumes key: "apiKey \<noteq> []" and none: "JSON_parse (cleanJson t1) = None"
    and other: "JSON_parse (cleanJson t2) = None \<or>
                (\<exists>vs. JSON_parse (cleanJson t2) = Some (JArr vs) \<and>
                      (\<forall>f\<in>set vs. f \<noteq> JNull \<and> f \<noteq> JUndefined))"
  shows "\<exists>evs r. factCheckTranscription apiKey JSON_parse op (Returned t1) (Returned t2) = (evs, Inr r) \<and>
           map claim_text (claims r) = [JStr (str ''Unable to extract specific claims'')]"
proof -
  define p where "p = JObj [(str ''text'', JStr (str ''Unable to extract specific claims'')),
                            (str ''timestamp'', JUndefined)]"
  have pe: "parse_extraction JSON_parse t1 = JArr [p]"
    using none by (simp add: parse_extraction_def placeholder_claims_def p_def)
  have ok_ex: "\<forall>x\<in>set [p]. x \<noteq> JNull \<and> x \<noteq> JUndefined" by (simp add: p_def)
  from other obtain vs where pf: "parse_factCheck JSON_parse t2 (JArr [p]) = Inr (JArr vs)"
    and ok_vs: "\<forall>f\<in>set vs. f \<noteq> JNull \<and> f \<noteq> JUndefined"
  proof
    assume "JSON_parse (cleanJson t2) = None"
    then have "parse_factCheck JSON_parse t2 (JArr [p]) =
                 Inr (JArr (map unverifiable_verdict [0..<1]))"
      by (simp add: parse_factCheck_def array_method_def)
    then show ?thesis using unverifiable_verdicts_no_null [of 1] by (rule that)
  next
    assume "\<exists>vs. JSON_parse (cleanJson t2) = Some (JArr vs) \<and>
                      (\<forall>f\<in>set vs. f \<noteq> JNull \<and> f \<noteq> JUndefined)"
    then obtain vs where "JSON_parse (cleanJson t2) = Some (JArr vs)"
      and ok: "\<forall>f\<in>set vs. f \<noteq> JNull \<and> f \<noteq> JUndefined" by auto
    then have "parse_factCheck JSON_parse t2 (JArr [p]) = Inr (JArr vs)"
      by (simp add: parse_factCheck_def)
    with ok show ?thesis by (intro that)
  qed
  from assembled_when_no_null [OF key pe pf ok_ex ok_vs, of op]
  obtain evs r where run: "factCheckTranscription apiKey JSON_parse op (Returned t1) (Returned t2) = (evs, Inr r)"
    and len: "length (claims r) = length [p]"
    and each: "\<And>k. k < length [p] \<Longrightarrow> build_claim (JArr vs) k ([p] ! k) = Inr (claims r ! k)"
    by blast
  from each [of 0] have "build_claim (JArr vs) 0 p = Inr (claims r ! 0)" by simp
  from build_claim_Inr(1) [OF this]
  have "claim_text (claims r ! 0) = JStr (str ''Unable to extract specific claims'')"
    by (simp add: p_def)
  moreover from len obtain c where "claims r = [c]" by (cases "claims r") auto
  ultimately have "map claim_text (claims r) = [JStr (str ''Unable to extract specific claims'')]"
    by simp
  with run show ?thesis by auto
qed

lemma unverifiable_run:
  assumes key: "apiKey \<noteq> []" and none: "JSON_parse (cleanJson t2) = None"
    and other: "JSON_parse (cleanJson t1) = None \<or>
                (\<exists>ex. JSON_parse (cleanJson t1) = Some (JArr ex) \<and>
                      (\<forall>x\<in>set ex. x \<noteq> JNull \<and> x \<noteq> JUndefined))"
  shows "\<exists>evs r ex. factCheckTranscription apiKey JSON_parse op (Returned t1) (Returned t2) = (evs, Inr r) \<and>
           parse_extraction JSON_parse t1 = JArr ex \<and>
           length (claims r) = length ex \<and>
           (\<forall>c\<in>set (claims r). status c = JStr (str ''unverifiable'') \<and> score c = js_nat 50 \<and>
               explanation c = JStr (str ''Unable to verify this claim'') \<and> sources c = JArr [])"
proof -
  from other obtain ex where pe: "parse_extraction JSON_parse t1 = JArr ex"
    and ok_ex: "\<forall>x\<in>set ex. x \<noteq> JNull \<and> x \<noteq> JUndefined"
  proof
    assume "JSON_parse (cleanJson t1) = None"
    then have "parse_extraction JSON_parse t1 =
                 JArr [JObj [(str ''text'', JStr (str ''Unable to extract specific claims'')),
                             (str ''timestamp'', JUndefined)]]"
      by (simp add: parse_extraction_def placeholder_claims_def)
    then show ?thesis by (rule that) simp
  next
    assume "\<exists>ex. JSON_parse (cleanJson t1) = Some (JArr ex) \<and>
                      (\<forall>x\<in>set ex. x \<noteq> JNull \<and> x \<noteq> JUndefined)"
    then obtain ex where "JSON_parse (cleanJson t1) = Some (JArr ex)"
      and ok: "\<forall>x\<in>set ex. x \<noteq> JNull \<and> x \<noteq> JUndefined" by auto
    then have "parse_extraction JSON_parse t1 = JArr ex" by (simp add: parse_extraction_def)
    with ok show ?thesis by (intro that)
  qed
  define vs where "vs = map unverifiable_verdict [0..<length ex]"
  have pf: "parse_factCheck JSON_parse t2 (JArr ex) = Inr (JArr vs)"
    using none by (simp add: parse_factCheck_def array_method_def vs_def)
  have ok_vs: "\<forall>f\<in>set vs. f \<noteq> JNull \<and> f \<noteq> JUndefined"
    unfolding vs_def by (rule unverifiable_verdicts_no_null)
  from assembled_when_no_null [OF key pe pf ok_ex ok_vs, of op]
  obtain evs r where run: "factCheckTranscription apiKey JSON_parse op (Returned t1) (Returned t2) = (evs, Inr r)"
    and len: "length (claims r) = length ex"
    and each: "\<And>k. k < length ex \<Longrightarrow> build_claim (JArr vs) k (ex ! k) = Inr (claims r ! k)"
    by blast
  have all: "status c = JStr (str ''unverifiable'') \<and> score c = js_nat 50 \<and>
             explanation c = JStr (str ''Unable to verify this claim'') \<and> sources c = JArr []"
    if "c \<in> set (claims r)" for c
  proof -
    from that obtain i where i: "i < length ex" and c: "c = claims r ! i"
      unfolding len [symmetric] by (metis in_set_conv_nth)
    from build_claim_Inr(2,3,4,5) [OF each [OF i]] show ?thesis
      unfolding c vs_def by (simp add: find_unverifiable [OF i])
  qed
  from run pe len all show ?thesis by auto
qed

text \<open>
  C8, amended. Let both model calls return, and let the response that parses, if one
  does, parse to an array that holds no \<open>null\<close>. When the extraction response does not parse
  (after the code fence is removed), \<^const>\<open>factCheckTranscription\<close> returns a report, not
  an error: its only claim has the fixed text \<open>Unable to extract specific claims\<close>. When the
  verification response does not parse, it returns a report with one claim per extracted
  claim, each \<open>unverifiable\<close> with score 50. In both cases \<^const>\<open>analyzeVideoAsync\<close> leaves
  the job \<open>completed\<close> with those claims stored.
\<close>

theorem malformed_model_output_is_defaulted:
  assumes key: "apiKey \<noteq> []" and job: "videoJobs videoId = Some job"
  shows "(JSON_parse (cleanJson t1) = None \<and>
          (JSON_parse (cleanJson t2) = None \<or>
           (\<exists>vs. JSON_parse (cleanJson t2) = Some (JArr vs) \<and>
                 (\<forall>f\<in>set vs. f \<noteq> JNull \<and> f \<noteq> JUndefined))) \<longrightarrow>
           (\<exists>evs r. factCheckTranscription apiKey JSON_parse True (Returned t1) (Returned t2) =
                       (evs, Inr r) \<and>
              map claim_text (claims r) = [JStr (str ''Unable to extract specific claims'')] \<and>
              job_status (last (analyzeVideoAsync apiKey JSON_parse (Returned t1) (Returned t2)
                                  videoJobs videoId)) = completed \<and>
              job_claims (last (analyzeVideoAsync apiKey JSON_parse (Returned t1) (Returned t2)
                                  videoJobs videoId)) = Some (claims r))) \<and>
         (JSON_parse (cleanJson t2) = None \<and>
          (JSON_parse (cleanJson t1) = None \<or>
           (\<exists>ex. JSON_parse (cleanJson t1) = Some (JArr ex) \<and>
                 (\<forall>x\<in>set ex. x \<noteq> JNull \<and> x \<noteq> JUndefined))) \<longrightarrow>
           (\<exists>evs r ex. factCheckTranscription apiKey JSON_parse True (Returned t1) (Returned t2) =
                          (evs, Inr r) \<and>
              parse_extraction JSON_parse t1 = JArr ex \<and>
              length (claims r) = length ex \<and>
              (\<forall>c\<in>set (claims r). status c = JStr (str ''unverifiable'') \<and> score c = js_nat 50 \<and>
                  explanation c = JStr (str ''Unable to verify this claim'') \<and>
                  sources c = JArr []) \<and>
              job_status (last (analyzeVideoAsync apiKey JSON_parse (Returned t1) (Returned t2)
                                  videoJobs videoId)) = completed \<and>
              job_claims (last (analyzeVideoAsync apiKey JSON_parse (Returned t1) (Returned t2)
                                  videoJobs videoId)) = Some (claims r)))"
proof (intro conjI impI)
  assume a: "JSON_parse (cleanJson t1) = None \<and>
          (JSON_parse (cleanJson t2) = None \<or>
           (\<exists>vs. JSON_parse (cleanJson t2) = Some (JArr vs) \<and>
                 (\<forall>f\<in>set vs. f \<noteq> JNull \<and> f \<noteq> JUndefined)))"
  from placeholder_run [OF key a [THEN conjunct1] a [THEN conjunct2], of True]
  obtain evs r where
    run: "factCheckTranscription apiKey JSON_parse True (Returned t1) (Returned t2) = (evs, Inr r)"
    and ptext: "map claim_text (claims r) = [JStr (str ''Unable to extract specific claims'')]"
    by auto
  note stored = analyzeVideoAsync_returned(1,2)
      [where videoJobs = videoJobs and videoId = videoId, OF job run]
  from run ptext stored
  show "\<exists>evs r. factCheckTranscription apiKey JSON_parse True (Returned t1) (Returned t2) =
                       (evs, Inr r) \<and>
              map claim_text (claims r) = [JStr (str ''Unable to extract specific claims'')] \<and>
              job_status (last (analyzeVideoAsync apiKey JSON_parse (Returned t1) (Returned t2)
                                  videoJobs videoId)) = completed \<and>
              job_claims (last (analyzeVideoAsync apiKey JSON_parse (Returned t1) (Returned t2)
                                  videoJobs videoId)) = Some (claims r)"
    by auto
next
  assume a: "JSON_parse (cleanJson t2) = None \<and>
          (JSON_parse (cleanJson t1) = None \<or>
           (\<exists>ex. JSON_parse (cleanJson t1) = Some (JArr ex) \<and>
                 (\<forall>x\<in>set ex. x \<noteq> JNull \<and> x \<noteq> JUndefined)))"
  from unverifiable_run [OF key a [THEN conjunct1] a [THEN conjunct2], of True]
  obtain evs r ex where
    run: "factCheckTranscription apiKey JSON_parse True (Returned t1) (Returned t2) = (evs, Inr r)"
    and pe: "parse_extraction JSON_parse t1 = JArr ex"
    and len: "length (claims r) = length ex"
    and each: "\<forall>c\<in>set (claims r). status c = JStr (str ''unverifiable'') \<and> score c = js_nat 50 \<and>
                  explanation c = JStr (str ''Unable to verify this claim'') \<and>
                  sources c = JArr []" by auto
  note stored = analyzeVideoAsync_returned(1,2)
      [where videoJobs = videoJobs and videoId = videoId, OF job run]
  from run pe len each stored
  show "\<exists>evs r ex. factCheckTranscription apiKey JSON_parse True (Returned t1) (Returned t2) =
                          (evs, Inr r) \<and>
              parse_extraction JSON_parse t1 = JArr ex \<and>
              length (claims r) = length ex \<and>
              (\<forall>c\<in>set (claims r). status c = JStr (str ''unverifiable'') \<and> score c = js_nat 50 \<and>
                  explanation c = JStr (str ''Unable to verify this claim'') \<and>
                  sources c = JArr []) \<and>
              job_status (last (analyzeVideoAsync apiKey JSON_parse (Returned t1) (Returned t2)
                                  videoJobs videoId)) = completed \<and>
              job_claims (last (analyzeVideoAsync apiKey JSON_parse (Returned t1) (Returned t2)
                                  videoJobs videoId)) = Some (claims r)"
    by auto
qed

lemma fenced_no_json:
  "cleanJson (fenced (str ''no json here'')) = str ''no json here''"
  by (rule cleanJson_fenced) (simp_all add: str_def is_space_def)

theorem malformed_model_output_is_defaulted_witness:
  "(\<exists>evs r. factCheckTranscription (str ''key'') sample_parse True
               (Returned (fenced (str ''no json here''))) (Returned (str ''nor here'')) =
             (evs, Inr r) \<and>
     map claim_text (claims r) = [JStr (str ''Unable to extract specific claims'')] \<and>
     map status (claims r) = [JStr (str ''unverifiable'')] \<and>
     map score (claims r) = [js_nat 50] \<and>
     job_status (last (analyzeVideoAsync (str ''key'') sample_parse
                         (Returned (fenced (str ''no json here''))) (Returned (str ''nor here''))
                         [str ''job-1'' \<mapsto> analyzing_job] (str ''job-1''))) = completed \<and>
     job_claims (last (analyzeVideoAsync (str ''key'') sample_parse
                         (Returned (fenced (str ''no json here''))) (Returned (str ''nor here''))
                         [str ''job-1'' \<mapsto> analyzing_job] (str ''job-1''))) = Some (claims r)) \<and>
   (\<exists>evs r. factCheckTranscription (str ''key'') sample_parse True
               (Returned sample_claims_text) (Returned (str ''nor here'')) = (evs, Inr r) \<and>
     map status (claims r) = replicate 4 (JStr (str ''unverifiable'')) \<and>
     map score (claims r) = replicate 4 (js_nat 50) \<and>
     job_status (last (analyzeVideoAsync (str ''key'') sample_parse
                         (Returned sample_claims_text) (Returned (str ''nor here''))
                         [str ''job-1'' \<mapsto> analyzing_job] (str ''job-1''))) = completed)"
proof -
  have key: "str ''key'' \<noteq> []" by simp
  have job: "[str ''job-1'' \<mapsto> analyzing_job] (str ''job-1'') = Some analyzing_job" by simp
  have none1: "sample_parse (cleanJson (fenced (str ''no json here''))) = None"
    by (simp add: fenced_no_json sample_parse_not_json)
  have none2: "sample_parse (cleanJson (str ''nor here'')) = None"
    by (simp add: cleanJson_literals sample_parse_not_json)
  have some1: "sample_parse (cleanJson sample_claims_text) = Some (JArr sample_claims)"
    by (simp add: cleanJson_plain sample_claims_text_shape sample_parse_claims)
  have ok: "\<forall>x\<in>set sample_claims. x \<noteq> JNull \<and> x \<noteq> JUndefined"
    by (simp add: sample_claims_def)
  note inst = malformed_model_output_is_defaulted
      [where videoJobs = "[str ''job-1'' \<mapsto> analyzing_job]" and videoId = "str ''job-1''"
         and JSON_parse = sample_parse and ?t1.0 = "fenced (str ''no json here'')"
         and ?t2.0 = "str ''nor here''", OF key job]
  from inst [THEN conjunct1] none1 none2 obtain evs r where
    run: "factCheckTranscription (str ''key'') sample_parse True
               (Returned (fenced (str ''no json here''))) (Returned (str ''nor here'')) = (evs, Inr r)"
    and ptext: "map claim_text (claims r) = [JStr (str ''Unable to extract specific claims'')]"
    and finished: "job_status (last (analyzeVideoAsync (str ''key'') sample_parse
                         (Returned (fenced (str ''no json here''))) (Returned (str ''nor here''))
                         [str ''job-1'' \<mapsto> analyzing_job] (str ''job-1''))) = completed"
    and stored: "job_claims (last (analyzeVideoAsync (str ''key'') sample_parse
                         (Returned (fenced (str ''no json here''))) (Returned (str ''nor here''))
                         [str ''job-1'' \<mapsto> analyzing_job] (str ''job-1''))) = Some (claims r)"
    by auto
  from inst [THEN conjunct2] none1 none2 run have
    each: "\<forall>c\<in>set (claims r). status c = JStr (str ''unverifiable'') \<and> score c = js_nat 50 \<and>
                  explanation c = JStr (str ''Unable to verify this claim'') \<and> sources c = JArr []"
    by auto
  have "length (map claim_text (claims r)) = 1" by (simp add: ptext)
  then have "length (claims r) = 1" by simp
  then obtain c where c: "claims r = [c]" by (cases "claims r") auto
  with each have first': "map status (claims r) = [JStr (str ''unverifiable'')]"
    "map score (claims r) = [js_nat 50]" by simp_all
  have first: "\<exists>evs r. factCheckTranscription (str ''key'') sample_parse True
               (Returned (fenced (str ''no json here''))) (Returned (str ''nor here'')) =
             (evs, Inr r) \<and>
     map claim_text (claims r) = [JStr (str ''Unable to extract specific claims'')] \<and>
     map status (claims r) = [JStr (str ''unverifiable'')] \<and>
     map score (claims r) = [js_nat 50] \<and>
     job_status (last (analyzeVideoAsync (str ''key'') sample_parse
                         (Returned (fenced (str ''no json here''))) (Returned (str ''nor here''))
                         [str ''job-1'' \<mapsto> analyzing_job] (str ''job-1''))) = completed \<and>
     job_claims (last (analyzeVideoAsync (str ''key'') sample_parse
                         (Returned (fenced (str ''no json here''))) (Returned (str ''nor here''))
                         [str ''job-1'' \<mapsto> analyzing_job] (str ''job-1''))) = Some (claims r)"
    using run ptext first' finished stored by auto
  note inst2 = malformed_model_output_is_defaulted
      [where videoJobs = "[str ''job-1'' \<mapsto> analyzing_job]" and videoId = "str ''job-1''"
         and JSON_parse = sample_parse and ?t1.0 = sample_claims_text
         and ?t2.0 = "str ''nor here''", OF key job, THEN conjunct2]
  from inst2 none2 some1 ok obtain evs2 r2 ex where
    run2: "factCheckTranscription (str ''key'') sample_parse True
               (Returned sample_claims_text) (Returned (str ''nor here'')) = (evs2, Inr r2)"
    and pe: "parse_extraction sample_parse sample_claims_text = JArr ex"
    and len: "length (claims r2) = length ex"
    and each2: "\<forall>c\<in>set (claims r2). status c = JStr (str ''unverifiable'') \<and> score c = js_nat 50 \<and>
                  explanation c = JStr (str ''Unable to verify this claim'') \<and> sources c = JArr []"
    and finished2: "job_status (last (analyzeVideoAsync (str ''key'') sample_parse
                         (Returned sample_claims_text) (Returned (str ''nor here''))
                         [str ''job-1'' \<mapsto> analyzing_job] (str ''job-1''))) = completed"
    by auto
  from pe have "ex = sample_claims" by (simp add: sample_extraction)
  with len have len4: "length (claims r2) = 4" by (simp add: sample_claims_def)
  have st: "map status (claims r2) = replicate 4 (JStr (str ''unverifiable''))"
    using each2 len4 by (intro nth_equalityI) simp_all
  have sc: "map score (claims r2) = replicate 4 (js_nat 50)"
    using each2 len4 by (intro nth_equalityI) simp_all
  have second: "\<exists>evs r. factCheckTranscription (str ''key'') sample_parse True
               (Returned sample_claims_text) (Returned (str ''nor here'')) = (evs, Inr r) \<and>
     map status (claims r) = replicate 4 (JStr (str ''unverifiable'')) \<and>
     map score (claims r) = replicate 4 (js_nat 50) \<and>
     job_status (last (analyzeVideoAsync (str ''key'') sample_parse
                         (Returned sample_claims_text) (Returned (str ''nor here''))
                         [str ''job-1'' \<mapsto> analyzing_job] (str ''job-1''))) = completed"
    using run2 st sc finished2 by auto
  from first second show ?thesis by (rule conjI)
qed

lemma last_updateStatus_transcription:
  "job_transcription (last (j # map (\<lambda>p. updateStatus st p j) ps)) = job_transcription j"
  by (induction ps rule: rev_induct) (simp_all add: updateStatus_def)

text \<open>The three ways the background task of a submission ends.\<close>

lemma processVideoAsync_download_failed:
  assumes "downloadVideo dl True = (evs1, Inl e)"
  shows "\<exists>states. processVideoAsync dl env job0 = Some states \<and>
           job_status (last states) = error \<and> job_error (last states) = Some e \<and>
           job_transcription (last states) = job_transcription job0"
proof -
  define started where "started = updateStatus downloading 5 job0"
  define states1 where
    "states1 = started # map (\<lambda>p. updateStatus downloading p started) (progress_values evs1)"
  have t1: "job_transcription (last states1) = job_transcription job0"
    unfolding states1_def last_updateStatus_transcription
    by (simp add: started_def updateStatus_def)
  have "processVideoAsync dl env job0 = Some (states1 @ [fail_job e (last states1)])"
    using assms by (simp add: processVideoAsync_def Let_def states1_def started_def)
  with t1 show ?thesis by (simp add: fail_job_def)
qed

lemma processVideoAsync_transcription_failed:
  assumes "downloadVideo dl True = (evs1, Inr d)"
    and "transcribeAudio env Audio (job_language job0) True = Some (evs2, Inl e)"
  shows "\<exists>states. processVideoAsync dl env job0 = Some states \<and>
           job_status (last states) = error \<and> job_error (last states) = Some e \<and>
           job_transcription (last states) = job_transcription job0"
proof -
  define started where "started = updateStatus downloading 5 job0"
  define states1 where
    "states1 = started # map (\<lambda>p. updateStatus downloading p started) (progress_values evs1)"
  have t1: "job_transcription (last states1) = job_transcription job0"
    unfolding states1_def last_updateStatus_transcription
    by (simp add: started_def updateStatus_def)
  define job where "job = (last states1)
                              \<lparr>job_audioPath := Some (dl_audioPath d),
                               job_title := Some (dl_title d),
                               job_duration := Some (dl_duration d)\<rparr>"
  define transcribing0 where "transcribing0 = updateStatus transcribing 45 job"
  have t0: "job_transcription transcribing0 = job_transcription job0"
    by (simp add: transcribing0_def updateStatus_def job_def t1)
  define states2 where
    "states2 = transcribing0 # map (\<lambda>p. updateStatus transcribing p transcribing0) (progress_values evs2)"
  have t2: "job_transcription (last states2) = job_transcription job0"
    unfolding states2_def last_updateStatus_transcription by (rule t0)
  have "processVideoAsync dl env job0 = Some (states1 @ states2 @ [fail_job e (last states2)])"
    using assms
    by (simp add: processVideoAsync_def Let_def states1_def started_def states2_def
          transcribing0_def job_def)
  with t2 show ?thesis by (simp add: fail_job_def)
qed

lemma processVideoAsync_error_keeps_transcription:
  assumes run: "processVideoAsync dl env job0 = Some states"
    and err: "job_status (last states) = error"
  shows "job_transcription (last states) = job_transcription job0"
proof -
  obtain evs1 res1 where dl: "downloadVideo dl True = (evs1, res1)" by (cases "downloadVideo dl True")
  show ?thesis
  proof (cases res1)
    case (Inl e)
    from processVideoAsync_download_failed [OF dl [unfolded Inl], of env job0] run
    show ?thesis by auto
  next
    case (Inr d)
    from run dl Inr obtain evs2 res2 where
      tr: "transcribeAudio env Audio (job_language job0) True = Some (evs2, res2)"
      by (auto simp: processVideoAsync_def Let_def split: option.splits)
    show ?thesis
    proof (cases res2)
      case (Inl e)
      from processVideoAsync_transcription_failed [OF dl [unfolded Inr] tr [unfolded Inl]] run
      show ?thesis by auto
    next
      case (Inr transcriptionResult)
      with run dl \<open>res1 = Inr d\<close> tr
      have "job_status (last states) = completed"
        by (auto simp: processVideoAsync_def Let_def)
      with err show ?thesis by simp
    qed
  qed
qed

lemma analysis_threw_run:
  "factCheckTranscription (str ''key'') sample_parse True
     (Threw (str ''network unreachable'')) (Returned (str ''[]'')) =
   ([Progress 75], Inl (str ''Fact-checking failed: network unreachable''))"
proof -
  have m: "fact_checking_failed (str ''network unreachable'') =
             str ''Fact-checking failed: network unreachable''"
    by (simp add: fact_checking_failed_def str_def)
  show ?thesis
    unfolding m [symmetric] by (simp add: factCheckTranscription_def onProgress_call_def)
qed

text \<open>
  C7, as stated, fails: a job whose analysis threw is in \<open>error\<close> and still holds its
  transcript, and \<^const>\<open>analyzeVideo\<close> moves it to \<open>analyzing\<close> again.
\<close>

theorem analysis_error_is_left_again:
  "job_status (last (analyzeVideoAsync (str ''key'') sample_parse
                       (Threw (str ''network unreachable'')) (Returned (str ''[]''))
                       [str ''job-1'' \<mapsto> analyzing_job] (str ''job-1''))) = error \<and>
   map_option job_status
     (snd (analyzeVideo
             [str ''job-1'' \<mapsto> last (analyzeVideoAsync (str ''key'') sample_parse
                                      (Threw (str ''network unreachable'')) (Returned (str ''[]''))
                                      [str ''job-1'' \<mapsto> analyzing_job] (str ''job-1''))]
             (str ''job-1'')) (str ''job-1'')) = Some analyzing"
proof -
  have job: "[str ''job-1'' \<mapsto> analyzing_job] (str ''job-1'') = Some analyzing_job" by simp
  note e = analyzeVideoAsync_threw(1,2)
      [where videoJobs = "[str ''job-1'' \<mapsto> analyzing_job]" and videoId = "str ''job-1''",
       OF job analysis_threw_run]
  have t: "job_transcription analyzing_job = Some (str ''hello'')"
    by (simp add: analyzing_job_def transcribed_job_def)
  from e t show ?thesis
    by (simp add: analyzeVideo_def no_transcription_def)
qed

text \<open>
  C7, amended. \<open>error\<close> is terminal for a job without a transcript, and only for such a
  job. A job whose download fails, or whose transcription fails after the download, ends
  in \<open>error\<close> with the message of the failure and without a transcript (the background
  task of a submission ends in \<open>error\<close> in no other state), and \<^const>\<open>analyzeVideo\<close>
  rejects it and leaves the table as it was. A job whose analysis throws ends in \<open>error\<close>
  with its transcript kept, and \<^const>\<open>analyzeVideo\<close> moves it to \<open>analyzing\<close> again:
  \<^const>\<open>analyzeVideo\<close> enters \<open>analyzing\<close> from every status other than \<open>analyzing\<close>
  whenever the job has a transcript.
\<close>

theorem error_is_left_only_with_a_transcript:
  "(videoJobs ident = Some job \<and> job_status job = error \<and> no_transcription job \<longrightarrow>
      analyzeVideo videoJobs ident =
        (Error_response 400 (str ''Video not yet transcribed''), videoJobs)) \<and>
   (videoJobs ident = Some job \<and> job_status job \<noteq> analyzing \<and> \<not> no_transcription job \<longrightarrow>
      map_option job_status (snd (analyzeVideo videoJobs ident) ident) = Some analyzing) \<and>
   (downloadVideo dl True = (evs1, Inl e) \<and> no_transcription job0 \<longrightarrow>
      (\<exists>states. processVideoAsync dl env job0 = Some states \<and>
         job_status (last states) = error \<and> job_error (last states) = Some e \<and>
         no_transcription (last states))) \<and>
   (downloadVideo dl True = (evs1, Inr d) \<and>
    transcribeAudio env Audio (job_language job0) True = Some (evs2, Inl e) \<and>
    no_transcription job0 \<longrightarrow>
      (\<exists>states. processVideoAsync dl env job0 = Some states \<and>
         job_status (last states) = error \<and> job_error (last states) = Some e \<and>
         no_transcription (last states))) \<and>
   (processVideoAsync dl env job0 = Some states \<and> no_transcription job0 \<and>
    job_status (last states) = error \<longrightarrow>
      no_transcription (last states)) \<and>
   (videoJobs ident = Some job \<and>
    factCheckTranscription apiKey JSON_parse True extraction verification = (evs, Inl msg) \<longrightarrow>
      job_status (last (analyzeVideoAsync apiKey JSON_parse extraction verification
                          videoJobs ident)) = error \<and>
      job_transcription (last (analyzeVideoAsync apiKey JSON_parse extraction verification
                                 videoJobs ident)) = job_transcription job)"
proof (intro conjI impI)
  assume "videoJobs ident = Some job \<and> job_status job = error \<and> no_transcription job"
  then show "analyzeVideo videoJobs ident =
        (Error_response 400 (str ''Video not yet transcribed''), videoJobs)"
    by (simp add: analyzeVideo_def)
next
  assume "videoJobs ident = Some job \<and> job_status job \<noteq> analyzing \<and> \<not> no_transcription job"
  then show "map_option job_status (snd (analyzeVideo videoJobs ident) ident) = Some analyzing"
    by (simp add: analyzeVideo_def)
next
  assume a: "downloadVideo dl True = (evs1, Inl e) \<and> no_transcription job0"
  from processVideoAsync_download_failed [OF a [THEN conjunct1], of env job0] a
  show "\<exists>states. processVideoAsync dl env job0 = Some states \<and>
         job_status (last states) = error \<and> job_error (last states) = Some e \<and>
         no_transcription (last states)"
    by (auto simp: no_transcription_def)
next
  assume a: "downloadVideo dl True = (evs1, Inr d) \<and>
    transcribeAudio env Audio (job_language job0) True = Some (evs2, Inl e) \<and>
    no_transcription job0"
  from processVideoAsync_transcription_failed
         [OF a [THEN conjunct1] a [THEN conjunct2, THEN conjunct1]] a
  show "\<exists>states. processVideoAsync dl env job0 = Some states \<and>
         job_status (last states) = error \<and> job_error (last states) = Some e \<and>
         no_transcription (last states)"
    by (auto simp: no_transcription_def)
next
  assume a: "processVideoAsync dl env job0 = Some states \<and> no_transcription job0 \<and>
    job_status (last states) = error"
  then have "job_transcription (last states) = job_transcription job0"
    using processVideoAsync_error_keeps_transcription by blast
  with a show "no_transcription (last states)" by (simp add: no_transcription_def)
next
  assume a: "videoJobs ident = Some job \<and>
    factCheckTranscription apiKey JSON_parse True extraction verification = (evs, Inl msg)"
  then show "job_status (last (analyzeVideoAsync apiKey JSON_parse extraction verification
                          videoJobs ident)) = error"
    using analyzeVideoAsync_threw(1) [where videoJobs = videoJobs and videoId = ident] by blast
  from a show "job_transcription (last (analyzeVideoAsync apiKey JSON_parse extraction verification
                                 videoJobs ident)) = job_transcription job"
    using analyzeVideoAsync_threw(2) [where videoJobs = videoJobs and videoId = ident] by blast
qed

lemma failing_download:
  "downloadVideo failing_downloader True =
     ([Progress 10, Progress 15], Inl (str ''Failed to download video: network unreachable''))"
proof -
  have m: "str ''Failed to download video: '' @ str ''network unreachable'' =
           str ''Failed to download video: network unreachable''"
    by (simp add: str_def)
  show ?thesis
    by (simp add: downloadVideo_def failing_downloader_def sample_downloader_def Let_def
          onProgress_call_def m)
qed

lemma sample_download:
  "downloadVideo sample_downloader True =
     ([Progress 10, Progress 15, Progress 25, Progress 40],
      Inr \<lparr>dl_audioPath = str ''audio.mp3'', dl_title = str ''A long talk'', dl_duration = 1200\<rparr>)"
  by (simp add: downloadVideo_def sample_downloader_def Let_def onProgress_call_def)

lemma unconfigured_transcription:
  "transcribeAudio unconfigured_env Audio (job_language sample_job) True =
     Some ([], Inl (str ''Gemini API key not configured. Please set GEMINI_API_KEY in .env''))"
  by (simp add: transcribeAudio_def unconfigured_env_def sample_env_def)

theorem error_is_left_only_with_a_transcript_witness:
  "analyzeVideo [str ''job-1'' \<mapsto> sample_job\<lparr>job_status := error\<rparr>] (str ''job-1'') =
     (Error_response 400 (str ''Video not yet transcribed''),
      [str ''job-1'' \<mapsto> sample_job\<lparr>job_status := error\<rparr>]) \<and>
   map_option job_status
     (snd (analyzeVideo [str ''job-1'' \<mapsto> transcribed_job\<lparr>job_status := error\<rparr>] (str ''job-1''))
        (str ''job-1'')) = Some analyzing \<and>
   (\<exists>states. processVideoAsync failing_downloader (sample_env 1200 100) sample_job = Some states \<and>
      job_status (last states) = error \<and>
      job_error (last states) = Some (str ''Failed to download video: network unreachable'') \<and>
      no_transcription (last states)) \<and>
   (\<exists>states. processVideoAsync sample_downloader unconfigured_env sample_job = Some states \<and>
      job_status (last states) = error \<and>
      job_error (last states) =
        Some (str ''Gemini API key not configured. Please set GEMINI_API_KEY in .env'') \<and>
      no_transcription (last states)) \<and>
   job_status (last (analyzeVideoAsync (str ''key'') sample_parse
                       (Threw (str ''network unreachable'')) (Returned (str ''[]''))
                       [str ''job-1'' \<mapsto> analyzing_job] (str ''job-1''))) = error \<and>
   job_transcription (last (analyzeVideoAsync (str ''key'') sample_parse
                       (Threw (str ''network unreachable'')) (Returned (str ''[]''))
                       [str ''job-1'' \<mapsto> analyzing_job] (str ''job-1''))) = Some (str ''hello'')"
proof -
  let ?failed = "sample_job\<lparr>job_status := error\<rparr>"
  have a1: "[str ''job-1'' \<mapsto> ?failed] (str ''job-1'') = Some ?failed \<and> job_status ?failed = error \<and>
            no_transcription ?failed"
    by (simp add: no_transcription_def sample_job_def)
  note one = error_is_left_only_with_a_transcript
         [where videoJobs = "[str ''job-1'' \<mapsto> ?failed]" and ident = "str ''job-1''"
            and job = ?failed, THEN conjunct1, THEN mp, OF a1]
  let ?again = "transcribed_job\<lparr>job_status := error\<rparr>"
  have a2: "[str ''job-1'' \<mapsto> ?again] (str ''job-1'') = Some ?again \<and>
            job_status ?again \<noteq> analyzing \<and> \<not> no_transcription ?again"
    by (simp add: no_transcription_def transcribed_job_def sample_job_def)
  note two = error_is_left_only_with_a_transcript
         [where videoJobs = "[str ''job-1'' \<mapsto> ?again]" and ident = "str ''job-1''"
            and job = ?again, THEN conjunct2, THEN conjunct1, THEN mp, OF a2]
  have fresh: "no_transcription sample_job"
    by (simp add: no_transcription_def sample_job_def)
  have a3: "downloadVideo failing_downloader True =
              ([Progress 10, Progress 15],
               Inl (str ''Failed to download video: network unreachable'')) \<and>
            no_transcription sample_job"
    using failing_download fresh by simp
  note three = error_is_left_only_with_a_transcript
         [where dl = failing_downloader and env = "sample_env 1200 100" and ?job0.0 = sample_job,
          THEN conjunct2, THEN conjunct2, THEN conjunct1, THEN mp, OF a3]
  have a4: "downloadVideo sample_downloader True =
              ([Progress 10, Progress 15, Progress 25, Progress 40],
               Inr \<lparr>dl_audioPath = str ''audio.mp3'', dl_title = str ''A long talk'',
                    dl_duration = 1200\<rparr>) \<and>
            transcribeAudio unconfigured_env Audio (job_language sample_job) True =
              Some ([], Inl (str ''Gemini API key not configured. Please set GEMINI_API_KEY in .env'')) \<and>
            no_transcription sample_job"
    using sample_download unconfigured_transcription fresh by simp
  note four = error_is_left_only_with_a_transcript
         [where dl = sample_downloader and env = unconfigured_env and ?job0.0 = sample_job,
          THEN conjunct2, THEN conjunct2, THEN conjunct2, THEN conjunct1, THEN mp, OF a4]
  have a6: "[str ''job-1'' \<mapsto> analyzing_job] (str ''job-1'') = Some analyzing_job \<and>
            factCheckTranscription (str ''key'') sample_parse True
              (Threw (str ''network unreachable'')) (Returned (str ''[]'')) =
            ([Progress 75], Inl (str ''Fact-checking failed: network unreachable''))"
    using analysis_threw_run by simp
  note six = error_is_left_only_with_a_transcript
         [where videoJobs = "[str ''job-1'' \<mapsto> analyzing_job]" and ident = "str ''job-1''"
            and job = analyzing_job,
          THEN conjunct2, THEN conjunct2, THEN conjunct2, THEN conjunct2, THEN conjunct2,
          THEN mp, OF a6]
  have tr: "job_transcription analyzing_job = Some (str ''hello'')"
    by (simp add: analyzing_job_def transcribed_job_def)
  from one two three four six tr show ?thesis by simp
qed

lemma hostname_netflix:
  "toLowerCase (replace_first (str ''www.netflix.com'') (str ''www.'') []) = str ''netflix.com''"
  by (simp add: toLowerCase_def startsWith_def str_def)

lemma netflix_is_valid:
  "isValidPlatformUrl (\<lambda>u. Some (str ''www.netflix.com'')) (str ''https://www.netflix.com/watch/1'')"
proof -
  have "replace_first (str ''x.com'') (str ''www.'') [] = str ''x.com''"
    by (simp add: startsWith_def str_def)
  moreover have "str_includes (str ''netflix.com'') (str ''x.com'')"
    by (simp add: startsWith_def str_def)
  ultimately show ?thesis
    by (simp add: isValidPlatformUrl_def hostname_netflix supportedPlatforms_def Let_def)
qed

lemma netflix_platform:
  "extractPlatform (\<lambda>u. Some (str ''www.netflix.com'')) (str ''https://www.netflix.com/watch/1'') =
     str ''Twitter/X''"
proof -
  have inc: "\<not> str_includes (str ''netflix.com'') (str ''youtube'')"
    "\<not> str_includes (str ''netflix.com'') (str ''youtu.be'')"
    "\<not> str_includes (str ''netflix.com'') (str ''facebook'')"
    "\<not> str_includes (str ''netflix.com'') (str ''fb.watch'')"
    "\<not> str_includes (str ''netflix.com'') (str ''instagram'')"
    "\<not> str_includes (str ''netflix.com'') (str ''twitter'')"
    "str_includes (str ''netflix.com'') (str ''x.com'')"
    by (simp_all add: startsWith_def str_def)
  show ?thesis
    by (simp add: extractPlatform_def hostname_netflix Let_def inc)
qed

lemma en_supported: "find (\<lambda>l. fst l = str ''en'') supportedLanguages \<noteq> None"
  by (simp add: supportedLanguages_def)

text \<open>
  C10, at an input where the code departs from it: the host \<open>www.netflix.com\<close> is not a
  platform domain, yet the submission is accepted, because \<open>x.com\<close> occurs inside
  \<open>netflix.com\<close>.
\<close>

theorem processVideo_accepts_unlisted_host:
  "processVideo (\<lambda>u. Some (str ''www.netflix.com'')) (str ''job-1'')
     (str ''https://www.netflix.com/watch/1'') (str ''en'') Map.empty =
     (Processing_started (str ''job-1''),
      [str ''job-1'' \<mapsto>
         \<lparr>job_id = str ''job-1'', job_url = str ''https://www.netflix.com/watch/1'',
          job_platform = str ''Twitter/X'', job_title = None, job_duration = None,
          job_language = str ''en'', job_status = pending, job_progress = 0,
          job_audioPath = None, job_transcription = None, job_claims = None,
          job_overallScore = None, job_error = None\<rparr>]) \<and>
   str ''netflix.com'' \<notin> set supportedPlatforms \<and>
   str ''www.netflix.com'' \<notin> set supportedPlatforms"
  using netflix_is_valid en_supported
  by (simp add: processVideo_def netflix_platform supportedPlatforms_def)

section \<open>Properties of the retry loops, of splitting and of chunked transcription\<close>

lemma sleeps_simps [simp]:
  "sleeps [] = []"
  "sleeps (Sleep n # evs) = n # sleeps evs"
  "sleeps (Progress p # evs) = sleeps evs"
  "sleeps (Exec_ffmpeg i s d # evs) = sleeps evs"
  "sleeps (Call_uploadFile # evs) = sleeps evs"
  "sleeps (Call_generateContent # evs) = sleeps evs"
  "sleeps (xs @ ys) = sleeps xs @ sleeps ys"
  "sleeps (onProgress_call op p) = []"
  by (simp_all add: sleeps_def onProgress_call_def)

lemma upload_attempts_simps [simp]:
  "upload_attempts [] = 0"
  "upload_attempts (Sleep n # evs) = upload_attempts evs"
  "upload_attempts (Progress p # evs) = upload_attempts evs"
  "upload_attempts (Exec_ffmpeg i s d # evs) = upload_attempts evs"
  "upload_attempts (Call_uploadFile # evs) = Suc (upload_attempts evs)"
  "upload_attempts (Call_generateContent # evs) = upload_attempts evs"
  "upload_attempts (xs @ ys) = upload_attempts xs + upload_attempts ys"
  "upload_attempts (onProgress_call op p) = 0"
  by (simp_all add: upload_attempts_def onProgress_call_def)

lemma generate_attempts_simps [simp]:
  "generate_attempts [] = 0"
  "generate_attempts (Sleep n # evs) = generate_attempts evs"
  "generate_attempts (Progress p # evs) = generate_attempts evs"
  "generate_attempts (Exec_ffmpeg i s d # evs) = generate_attempts evs"
  "generate_attempts (Call_uploadFile # evs) = generate_attempts evs"
  "generate_attempts (Call_generateContent # evs) = Suc (generate_attempts evs)"
  "generate_attempts (xs @ ys) = generate_attempts xs + generate_attempts ys"
  "generate_attempts (onProgress_call op p) = 0"
  by (simp_all add: generate_attempts_def onProgress_call_def)

lemma ffmpeg_runs_simps [simp]:
  "ffmpeg_runs [] = []"
  "ffmpeg_runs (Sleep n # evs) = ffmpeg_runs evs"
  "ffmpeg_runs (Progress p # evs) = ffmpeg_runs evs"
  "ffmpeg_runs (Exec_ffmpeg i s d # evs) = (i, s, d) # ffmpeg_runs evs"
  "ffmpeg_runs (Call_uploadFile # evs) = ffmpeg_runs evs"
  "ffmpeg_runs (Call_generateContent # evs) = ffmpeg_runs evs"
  "ffmpeg_runs (xs @ ys) = ffmpeg_runs xs @ ffmpeg_runs ys"
  "ffmpeg_runs (onProgress_call op p) = []"
  by (simp_all add: ffmpeg_runs_def onProgress_call_def)

text \<open>One turn of each retry loop.\<close>

lemma uploadLoop_done:
  "maxRetries < attempt \<Longrightarrow>
   uploadLoop env audioPath maxRetries op attempt lastError evs =
     (evs, Inl (case lastError of Some err \<Rightarrow> err | None \<Rightarrow> str ''Upload failed after all retries''))"
  by (subst uploadLoop.simps) simp

lemma uploadLoop_returned:
  "attempt \<le> maxRetries \<Longrightarrow> uploadFile env audioPath attempt = Returned f \<Longrightarrow>
   uploadLoop env audioPath maxRetries op attempt lastError evs =
     (evs @ onProgress_call op (50 + attempt) @ [Call_uploadFile], Inr f)"
  by (subst uploadLoop.simps) simp

lemma uploadLoop_threw:
  "attempt \<le> maxRetries \<Longrightarrow> uploadFile env audioPath attempt = Threw e \<Longrightarrow>
   uploadLoop env audioPath maxRetries op attempt lastError evs =
     uploadLoop env audioPath maxRetries op (attempt + 1) (Some e)
       (evs @ onProgress_call op (50 + attempt) @ [Call_uploadFile] @
        (if attempt < maxRetries then [Sleep (2 ^ attempt * 1000)] else []))"
  by (subst uploadLoop.simps) simp

lemma generateLoop_done:
  "3 < attempt \<Longrightarrow>
   generateLoop env audioPath op base step delay failure lang attempt lastError evs =
     (evs, Inl (case lastError of Some err \<Rightarrow> err | None \<Rightarrow> failure))"
  by (subst generateLoop.simps) simp

lemma generateLoop_produced:
  "attempt \<le> 3 \<Longrightarrow> produced_text (generateContent env audioPath attempt) = Some t \<Longrightarrow>
   generateLoop env audioPath op base step delay failure lang attempt lastError evs =
     (evs @ onProgress_call op (base + attempt * step) @ [Call_generateContent] @
      onProgress_call op 70,
      Inr \<lparr>tr_transcription = t, tr_language = lang\<rparr>)"
  by (subst generateLoop.simps) (auto simp: produced_text_def split: outcome.splits if_splits)

lemma generateLoop_failed:
  "attempt \<le> 3 \<Longrightarrow> produced_text (generateContent env audioPath attempt) = None \<Longrightarrow>
   generateLoop env audioPath op base step delay failure lang attempt lastError evs =
     generateLoop env audioPath op base step delay failure lang (attempt + 1)
       (case thrown_message (generateContent env audioPath attempt) of
          Some e \<Rightarrow> Some e | None \<Rightarrow> lastError)
       (evs @ onProgress_call op (base + attempt * step) @ [Call_generateContent] @
        (if attempt < 3 then map Sleep (pause_after delay (generateContent env audioPath attempt))
         else []))"
  by (subst generateLoop.simps)
     (auto simp: produced_text_def thrown_message_def pause_after_def
           split: outcome.splits if_splits)

lemma uploadWithRetry_3:
  "uploadWithRetry env audioPath 3 op =
     (case uploadFile env audioPath 1 of
        Returned f \<Rightarrow> (onProgress_call op 51 @ [Call_uploadFile], Inr f)
      | Threw e1 \<Rightarrow>
         (case uploadFile env audioPath 2 of
            Returned f \<Rightarrow>
              (onProgress_call op 51 @ [Call_uploadFile, Sleep 2000] @
               onProgress_call op 52 @ [Call_uploadFile], Inr f)
          | Threw e2 \<Rightarrow>
             (case uploadFile env audioPath 3 of
                Returned f \<Rightarrow>
                  (onProgress_call op 51 @ [Call_uploadFile, Sleep 2000] @
                   onProgress_call op 52 @ [Call_uploadFile, Sleep 4000] @
                   onProgress_call op 53 @ [Call_uploadFile], Inr f)
              | Threw e3 \<Rightarrow>
                  (onProgress_call op 51 @ [Call_uploadFile, Sleep 2000] @
                   onProgress_call op 52 @ [Call_uploadFile, Sleep 4000] @
                   onProgress_call op 53 @ [Call_uploadFile], Inl e3))))"
  by (simp add: uploadWithRetry_def uploadLoop_returned uploadLoop_threw uploadLoop_done
        del: One_nat_def split: outcome.splits)

lemma generateLoop_3:
  "generateLoop env audioPath op base step delay failure lang 1 None evs0 =
     (case produced_text (generateContent env audioPath 1) of
        Some t \<Rightarrow>
          (evs0 @ onProgress_call op (base + step) @ [Call_generateContent] @
           onProgress_call op 70, Inr \<lparr>tr_transcription = t, tr_language = lang\<rparr>)
      | None \<Rightarrow>
         (case produced_text (generateContent env audioPath 2) of
            Some t \<Rightarrow>
              (evs0 @ onProgress_call op (base + step) @ [Call_generateContent] @
               map Sleep (pause_after delay (generateContent env audioPath 1)) @
               onProgress_call op (base + 2 * step) @ [Call_generateContent] @
               onProgress_call op 70, Inr \<lparr>tr_transcription = t, tr_language = lang\<rparr>)
          | None \<Rightarrow>
             (case produced_text (generateContent env audioPath 3) of
                Some t \<Rightarrow>
                  (evs0 @ onProgress_call op (base + step) @ [Call_generateContent] @
                   map Sleep (pause_after delay (generateContent env audioPath 1)) @
                   onProgress_call op (base + 2 * step) @ [Call_generateContent] @
                   map Sleep (pause_after delay (generateContent env audioPath 2)) @
                   onProgress_call op (base + 3 * step) @ [Call_generateContent] @
                   onProgress_call op 70, Inr \<lparr>tr_transcription = t, tr_language = lang\<rparr>)
              | None \<Rightarrow>
                  (evs0 @ onProgress_call op (base + step) @ [Call_generateContent] @
                   map Sleep (pause_after delay (generateContent env audioPath 1)) @
                   onProgress_call op (base + 2 * step) @ [Call_generateContent] @
                   map Sleep (pause_after delay (generateContent env audioPath 2)) @
                   onProgress_call op (base + 3 * step) @ [Call_generateContent],
                   Inl (case thrown_message (generateContent env audioPath 3) of
                          Some e \<Rightarrow> e
                        | None \<Rightarrow>
                           (case thrown_message (generateContent env audioPath 2) of
                              Some e \<Rightarrow> e
                            | None \<Rightarrow>
                               (case thrown_message (generateContent env audioPath 1) of
                                  Some e \<Rightarrow> e
                                | None \<Rightarrow> failure)))))))"
  by (simp add: generateLoop_produced generateLoop_failed generateLoop_done
        del: One_nat_def split: option.splits)

lemma sleeps_map_Sleep [simp]: "sleeps (map Sleep ms) = ms"
  by (induction ms) simp_all

lemma generate_attempts_map_Sleep [simp]: "generate_attempts (map Sleep ms) = 0"
  by (induction ms) simp_all

lemma splitLoop_stop:
  "\<not> startTime < totalDuration \<Longrightarrow>
   splitLoop ff cd totalDuration startTime idx evs chunks = Some (evs, chunks)"
  by (subst splitLoop.simps) simp

lemma splitLoop_step:
  "startTime < totalDuration \<Longrightarrow>
   splitLoop ff cd totalDuration startTime idx evs chunks =
     splitLoop ff cd totalDuration (startTime + cd) (idx + 1)
       (evs @ [Exec_ffmpeg idx startTime (min cd (totalDuration - startTime))])
       (if ff idx
        then chunks @ [\<lparr>chunk_path = Chunk idx, chunk_startTime = startTime,
                         chunk_duration = min cd (totalDuration - startTime)\<rparr>]
        else chunks)"
  by (subst splitLoop.simps) (simp add: Let_def)

lemma upt_Suc_shift: "[0..<Suc m] = 0 # map Suc [0..<m]"
  by (simp add: upt_conv_Cons map_Suc_upt del: upt_Suc)

lemma splitLoop_result:
  assumes cd: "0 < cd"
  shows "nat \<lceil>(totalDuration - startTime) / cd\<rceil> = n \<Longrightarrow>
         splitLoop ff cd totalDuration startTime idx evs chunks =
           Some (evs @ map (\<lambda>k. Exec_ffmpeg (idx + k) (startTime + of_nat k * cd)
                                 (min cd (totalDuration - (startTime + of_nat k * cd)))) [0..<n],
                 chunks @ map (\<lambda>k. \<lparr>chunk_path = Chunk (idx + k),
                                     chunk_startTime = startTime + of_nat k * cd,
                                     chunk_duration = min cd (totalDuration - (startTime + of_nat k * cd))\<rparr>)
                              (filter (\<lambda>k. ff (idx + k)) [0..<n]))"
proof (induction n arbitrary: startTime idx evs chunks)
  case 0
  then have "\<lceil>(totalDuration - startTime) / cd\<rceil> \<le> 0" by simp
  then have "(totalDuration - startTime) / cd \<le> 0" by (simp add: ceiling_le_iff)
  with cd have "totalDuration - startTime \<le> 0" by (simp add: divide_le_0_iff)
  then have "\<not> startTime < totalDuration" by simp
  then show ?case by (simp add: splitLoop_stop)
next
  case (Suc m)
  then have pos: "0 < \<lceil>(totalDuration - startTime) / cd\<rceil>" by linarith
  then have "0 < (totalDuration - startTime) / cd" by (simp add: less_ceiling_iff)
  with cd have lt: "startTime < totalDuration" by (simp add: zero_less_divide_iff)
  have "(totalDuration - (startTime + cd)) / cd = (totalDuration - startTime) / cd - 1"
    using cd by (simp add: field_simps)
  then have "nat \<lceil>(totalDuration - (startTime + cd)) / cd\<rceil> = m"
    using Suc.prems by simp
  note IH = Suc.IH [OF this]
  have shift: "startTime + cd + of_nat k * cd = startTime + of_nat (Suc k) * cd" for k
    by (simp add: algebra_simps)
  show ?case
    by (simp add: splitLoop_step [OF lt] IH upt_Suc_shift filter_map comp_def shift
          del: upt_Suc of_nat_Suc)
qed

lemma waitLoop_ffmpeg_runs:
  "waitLoop env p maxWait rep ufile waitCount evs = (evs', ufile') \<Longrightarrow>
   ffmpeg_runs evs' = ffmpeg_runs evs"
proof (induction env p maxWait rep ufile waitCount evs rule: waitLoop.induct)
  case (1 env audioPath maxWait report ufile waitCount evs)
  show ?case
  proof (cases "file_state ufile = str ''PROCESSING'' \<and> waitCount < maxWait")
    case True
    with "1.prems" have
      "waitLoop env audioPath maxWait report
          (case getFile env audioPath waitCount of Returned f \<Rightarrow> f | Threw e \<Rightarrow> ufile)
          (waitCount + 1)
          (evs @ [Sleep 2000] @ onProgress_call report (55 + min (waitCount + 1) 10)) = (evs', ufile')"
      by (subst (asm) waitLoop.simps) simp
    from "1.IH" [OF True this] show ?thesis by simp
  next
    case False
    with "1.prems" show ?thesis by (subst (asm) waitLoop.simps) auto
  qed
qed

lemma uploadWithRetry_ffmpeg_runs:
  "uploadWithRetry env p 3 op = (evs, res) \<Longrightarrow> ffmpeg_runs evs = []"
  unfolding uploadWithRetry_3 by (auto split: outcome.splits)

lemma ffmpeg_runs_map_Sleep [simp]: "ffmpeg_runs (map Sleep ms) = []"
  by (induction ms) simp_all

lemma generateLoop_ffmpeg_runs:
  "generateLoop env p op base step delay failure lang 1 None evs0 = (evs, res) \<Longrightarrow>
   ffmpeg_runs evs = ffmpeg_runs evs0"
  unfolding generateLoop_3 by (auto split: option.splits)

lemma transcribeWithInlineData_ffmpeg_runs:
  "transcribeWithInlineData env p lang op = (evs, res) \<Longrightarrow> ffmpeg_runs evs = []"
  unfolding transcribeWithInlineData_def by (drule generateLoop_ffmpeg_runs) simp

lemma transcribeWithFileAPI_ffmpeg_runs:
  assumes "transcribeWithFileAPI env p lang op = (evs, res)"
  shows "ffmpeg_runs evs = []"
proof -
  obtain evs1 res1 where up: "uploadWithRetry env p 3 op = (evs1, res1)"
    by (cases "uploadWithRetry env p 3 op")
  note e1 = uploadWithRetry_ffmpeg_runs [OF up]
  show ?thesis
  proof (cases res1)
    case (Inl err)
    with assms up e1 show ?thesis by (auto simp: transcribeWithFileAPI_def)
  next
    case (Inr uploaded)
    obtain evs2 ufile where w: "waitLoop env p 60 op uploaded 0
                 (onProgress_call op 50 @ evs1 @ onProgress_call op 55) = (evs2, ufile)"
      by (cases "waitLoop env p 60 op uploaded 0
                 (onProgress_call op 50 @ evs1 @ onProgress_call op 55)")
    from waitLoop_ffmpeg_runs [OF w] e1 have e2: "ffmpeg_runs evs2 = []" by simp
    show ?thesis
    proof (cases "file_state ufile = str ''FAILED''")
      case True
      with assms up Inr w e2 show ?thesis by (auto simp: transcribeWithFileAPI_def)
    next
      case False
      with assms up Inr w have
        "generateLoop env p op 65 2 3000 (str ''Transcription failed with File API'') lang 1 None
           (evs2 @ onProgress_call op 65) = (evs, res)"
        by (simp add: transcribeWithFileAPI_def)
      from generateLoop_ffmpeg_runs [OF this] e2 show ?thesis by simp
    qed
  qed
qed

lemma transcribeChunk_ffmpeg_runs:
  assumes "transcribeChunk env c = (evs, pushed)"
  shows "ffmpeg_runs evs = []"
proof -
  obtain evs1 res1 where up: "uploadWithRetry env (chunk_path c) 3 False = (evs1, res1)"
    by (cases "uploadWithRetry env (chunk_path c) 3 False")
  note e1 = uploadWithRetry_ffmpeg_runs [OF up]
  show ?thesis
  proof (cases res1)
    case (Inl err)
    with assms up e1 show ?thesis by (auto simp: transcribeChunk_def)
  next
    case (Inr uploaded)
    obtain evs2 ufile where w: "waitLoop env (chunk_path c) 30 False uploaded 0 evs1 = (evs2, ufile)"
      by (cases "waitLoop env (chunk_path c) 30 False uploaded 0 evs1")
    from waitLoop_ffmpeg_runs [OF w] e1 have e2: "ffmpeg_runs evs2 = []" by simp
    from assms up Inr w e2 show ?thesis
      by (auto simp: transcribeChunk_def split: if_splits outcome.splits)
  qed
qed

lemma chunkLoop_result:
  "chunkLoop env op n i chunks evs ts = (evs', ts') \<Longrightarrow>
   ffmpeg_runs evs' = ffmpeg_runs evs \<and>
   ts' = ts @ List.map_filter (\<lambda>c. snd (transcribeChunk env c)) chunks"
proof (induction chunks arbitrary: i evs ts)
  case Nil
  then show ?case by simp
next
  case (Cons chunk rest)
  obtain evs1 pushed where tc: "transcribeChunk env chunk = (evs1, pushed)"
    by (cases "transcribeChunk env chunk")
  from Cons.prems tc have
    "chunkLoop env op n (i + 1) rest
        (evs @ onProgress_call op (50 + nat \<lfloor>(of_nat i / of_nat n) * (40 :: rat)\<rfloor>) @ evs1)
        (case pushed of Some t \<Rightarrow> ts @ [t] | None \<Rightarrow> ts) = (evs', ts')"
    by (simp add: Let_def)
  from Cons.IH [OF this] transcribeChunk_ffmpeg_runs [OF tc] tc show ?case
    by (cases pushed) simp_all
qed

lemma splitAudioIntoChunks_result:
  assumes "0 < getAudioDuration env p" "0 < cd"
  shows "splitAudioIntoChunks env p cd =
     Some (map (\<lambda>k. Exec_ffmpeg k (of_nat k * cd) (min cd (getAudioDuration env p - of_nat k * cd)))
               [0..<nat \<lceil>getAudioDuration env p / cd\<rceil>],
           Inr (map (\<lambda>k. \<lparr>chunk_path = Chunk k, chunk_startTime = of_nat k * cd,
                           chunk_duration = min cd (getAudioDuration env p - of_nat k * cd)\<rparr>)
                    (filter (ffmpeg_ok env) [0..<nat \<lceil>getAudioDuration env p / cd\<rceil>])))"
  using assms splitLoop_result [OF assms(2), of "getAudioDuration env p" 0 _ "ffmpeg_ok env" 0 "[]" "[]"]
  by (simp add: splitAudioIntoChunks_def Let_def)

lemma splitAudioIntoChunks_no_duration:
  "getAudioDuration env p \<le> 0 \<Longrightarrow>
   splitAudioIntoChunks env p cd = Some ([], Inl (str ''Could not determine audio duration''))"
  by (simp add: splitAudioIntoChunks_def)

lemma full_window:
  assumes "Suc k < nat \<lceil>d / 300\<rceil>"
  shows "min 300 (d - of_nat k * 300) = (300 :: rat)"
proof -
  from assms have "int (Suc k) < \<lceil>d / 300\<rceil>" by linarith
  then have "of_int (int (Suc k)) < d / 300" by (simp only: less_ceiling_iff)
  then have "(of_nat k + 1) * 300 < d" by (simp add: field_simps)
  then show ?thesis by (simp add: algebra_simps)
qed

lemma last_window:
  assumes "0 < (d :: rat)"
  shows "of_nat (nat \<lceil>d / 300\<rceil> - 1) * 300 + min 300 (d - of_nat (nat \<lceil>d / 300\<rceil> - 1) * 300) = d"
    and "0 < min 300 (d - of_nat (nat \<lceil>d / 300\<rceil> - 1) * 300)"
proof -
  define n where "n = nat \<lceil>d / 300\<rceil>"
  from assms have "0 < d / 300" by simp
  then have pos: "0 < \<lceil>d / 300\<rceil>" by (simp only: zero_less_ceiling)
  then have n: "of_nat n = (of_int \<lceil>d / 300\<rceil> :: rat)" by (simp add: n_def)
  have up: "d / 300 \<le> of_nat n" unfolding n by (rule le_of_int_ceiling)
  have "of_int \<lceil>d / 300\<rceil> - 1 < d / 300" using ceiling_correct [of "d / 300"] by linarith
  then have low: "of_nat n - 1 < d / 300" by (simp add: n)
  from pos have n1: "1 \<le> n" unfolding n_def by linarith
  then have m: "(of_nat (n - 1) :: rat) = of_nat n - 1" by (simp add: of_nat_diff)
  from up have a: "d - (of_nat n - 1) * 300 \<le> 300" by (simp add: field_simps)
  from low have b: "0 < d - (of_nat n - 1) * 300" by (simp add: field_simps)
  from a show "of_nat (nat \<lceil>d / 300\<rceil> - 1) * 300 + min 300 (d - of_nat (nat \<lceil>d / 300\<rceil> - 1) * 300) = d"
    unfolding n_def [symmetric] m by (simp add: min_def)
  from a b show "0 < min 300 (d - of_nat (nat \<lceil>d / 300\<rceil> - 1) * 300)"
    unfolding n_def [symmetric] m by (simp add: min_def)
qed

lemma transcribeWithChunking_result:
  assumes d: "0 < getAudioDuration env p"
  defines "chunks \<equiv> map (\<lambda>k. \<lparr>chunk_path = Chunk k, chunk_startTime = of_nat k * 300,
                           chunk_duration = min 300 (getAudioDuration env p - of_nat k * 300)\<rparr>)
                    (filter (ffmpeg_ok env) [0..<nat \<lceil>getAudioDuration env p / 300\<rceil>])"
  defines "outs \<equiv> List.map_filter (\<lambda>c. snd (transcribeChunk env c)) chunks"
  shows "\<exists>evs. transcribeWithChunking env p lang op =
           Some (evs,
                 if chunks = [] then Inl (str ''Failed to split audio into chunks'')
                 else if outs = [] then Inl (str ''Failed to transcribe any chunks'')
                 else Inr \<lparr>tr_transcription = join [newline, newline] outs, tr_language = lang\<rparr>) \<and>
           ffmpeg_runs evs =
             map (\<lambda>k. (k, of_nat k * 300, min 300 (getAudioDuration env p - of_nat k * 300)))
                 [0..<nat \<lceil>getAudioDuration env p / 300\<rceil>]"
proof -
  let ?evsS = "map (\<lambda>k. Exec_ffmpeg k (of_nat k * 300) (min 300 (getAudioDuration env p - of_nat k * 300)))
               [0..<nat \<lceil>getAudioDuration env p / 300\<rceil>]"
  have split: "splitAudioIntoChunks env p CHUNK_DURATION_SECONDS = Some (?evsS, Inr chunks)"
    using splitAudioIntoChunks_result [OF d, of 300]
    by (simp add: CHUNK_DURATION_SECONDS_def chunks_def)
  have runs: "ffmpeg_runs (map (\<lambda>k. Exec_ffmpeg k (f k) (g k)) ks) = map (\<lambda>k. (k, f k, g k)) ks"
    for f g ks by (induction ks) simp_all
  show ?thesis
  proof (cases "chunks = []")
    case True
    then show ?thesis by (simp add: transcribeWithChunking_def split runs)
  next
    case False
    obtain evs ts where loop: "chunkLoop env op (length chunks) 0 chunks
                       (onProgress_call op 50 @ ?evsS) [] = (evs, ts)"
      by (cases "chunkLoop env op (length chunks) 0 chunks (onProgress_call op 50 @ ?evsS) []")
    from chunkLoop_result [OF loop]
    have e: "ffmpeg_runs evs = ffmpeg_runs ?evsS" and t: "ts = outs"
      by (simp_all add: outs_def)
    from False show ?thesis
      by (simp add: transcribeWithChunking_def split loop e t runs)
  qed
qed

lemma transcribeWithChunking_no_duration:
  "getAudioDuration env p \<le> 0 \<Longrightarrow>
   transcribeWithChunking env p lang op =
     Some (onProgress_call op 50, Inl (str ''Could not determine audio duration''))"
  by (simp add: transcribeWithChunking_def splitAudioIntoChunks_no_duration)

text \<open>
  C4. With the API key configured: when the probed duration is at most 600 s,
  \<^const>\<open>transcribeAudio\<close> returns without a single ffmpeg run, so no chunk is produced; when
  it is above 600 s, ffmpeg is run once per window \<open>k\<close>, from \<open>300 k\<close> for
  \<open>min 300 (d - 300 k)\<close> seconds, for \<open>k\<close> below the ceiling of \<open>d / 300\<close>, and the chunks
  are those windows whose run succeeded, in order. Every window but the last lasts 300 s,
  so each starts where the one before ends, and the last one ends at \<open>d\<close>. At 1200 s,
  with every ffmpeg run succeeding, this gives four chunks starting at 0, 300, 600, 900,
  each of 300 s.
\<close>

theorem chunking_decision_and_windows:
  assumes key: "geminiApiKey env \<noteq> []"
  shows
   "(getAudioDuration env Audio \<le> 600 \<longrightarrow>
       (\<exists>evs res. transcribeAudio env Audio lang op = Some (evs, res) \<and> ffmpeg_runs evs = [])) \<and>
    (600 < getAudioDuration env Audio \<longrightarrow>
       (\<exists>evs res. transcribeAudio env Audio lang op = Some (evs, res) \<and>
          ffmpeg_runs evs =
            map (\<lambda>k. (k, of_nat k * 300, min 300 (getAudioDuration env Audio - of_nat k * 300)))
                [0..<nat \<lceil>getAudioDuration env Audio / 300\<rceil>]) \<and>
       (\<exists>evs. splitAudioIntoChunks env Audio CHUNK_DURATION_SECONDS =
          Some (evs,
                Inr (map (\<lambda>k. \<lparr>chunk_path = Chunk k, chunk_startTime = of_nat k * 300,
                                 chunk_duration = min 300 (getAudioDuration env Audio - of_nat k * 300)\<rparr>)
                         (filter (ffmpeg_ok env) [0..<nat \<lceil>getAudioDuration env Audio / 300\<rceil>])))) \<and>
       (\<forall>k. Suc k < nat \<lceil>getAudioDuration env Audio / 300\<rceil> \<longrightarrow>
            min 300 (getAudioDuration env Audio - of_nat k * 300) = 300) \<and>
       of_nat (nat \<lceil>getAudioDuration env Audio / 300\<rceil> - 1) * 300 +
         min 300 (getAudioDuration env Audio - of_nat (nat \<lceil>getAudioDuration env Audio / 300\<rceil> - 1) * 300) =
         getAudioDuration env Audio \<and>
       0 < min 300 (getAudioDuration env Audio - of_nat (nat \<lceil>getAudioDuration env Audio / 300\<rceil> - 1) * 300)) \<and>
    (\<exists>evs chunks. splitAudioIntoChunks (sample_env 1200 bytes) Audio CHUNK_DURATION_SECONDS =
                     Some (evs, Inr chunks) \<and>
       map chunk_startTime chunks = [0, 300, 600, 900] \<and>
       map chunk_duration chunks = [300, 300, 300, 300])"
proof (intro conjI impI)
  assume le: "getAudioDuration env Audio \<le> 600"
  show "\<exists>evs res. transcribeAudio env Audio lang op = Some (evs, res) \<and> ffmpeg_runs evs = []"
  proof (cases "fileSize env > FILE_SIZE_THRESHOLD")
    case True
    obtain evs res where r: "transcribeWithFileAPI env Audio (languageName_of lang) op = (evs, res)"
      by (cases "transcribeWithFileAPI env Audio (languageName_of lang) op")
    from transcribeWithFileAPI_ffmpeg_runs [OF r] key le True r show ?thesis
      by (simp add: transcribeAudio_def Let_def CHUNKING_THRESHOLD_SECONDS_def)
  next
    case False
    obtain evs res where r: "transcribeWithInlineData env Audio (languageName_of lang) op = (evs, res)"
      by (cases "transcribeWithInlineData env Audio (languageName_of lang) op")
    from transcribeWithInlineData_ffmpeg_runs [OF r] key le False r show ?thesis
      by (simp add: transcribeAudio_def Let_def CHUNKING_THRESHOLD_SECONDS_def)
  qed
next
  assume gt: "600 < getAudioDuration env Audio"
  then have pos: "0 < getAudioDuration env Audio" by simp
  from transcribeWithChunking_result [OF pos, of "languageName_of lang" op]
  obtain evs res where r: "transcribeWithChunking env Audio (languageName_of lang) op = Some (evs, res)"
    and runs: "ffmpeg_runs evs =
             map (\<lambda>k. (k, of_nat k * 300, min 300 (getAudioDuration env Audio - of_nat k * 300)))
                 [0..<nat \<lceil>getAudioDuration env Audio / 300\<rceil>]"
    by blast
  from key gt r runs
  show "\<exists>evs res. transcribeAudio env Audio lang op = Some (evs, res) \<and>
          ffmpeg_runs evs =
            map (\<lambda>k. (k, of_nat k * 300, min 300 (getAudioDuration env Audio - of_nat k * 300)))
                [0..<nat \<lceil>getAudioDuration env Audio / 300\<rceil>]"
    by (simp add: transcribeAudio_def Let_def CHUNKING_THRESHOLD_SECONDS_def)
  from splitAudioIntoChunks_result [OF pos, of 300]
  show "\<exists>evs. splitAudioIntoChunks env Audio CHUNK_DURATION_SECONDS =
          Some (evs,
                Inr (map (\<lambda>k. \<lparr>chunk_path = Chunk k, chunk_startTime = of_nat k * 300,
                                 chunk_duration = min 300 (getAudioDuration env Audio - of_nat k * 300)\<rparr>)
                         (filter (ffmpeg_ok env) [0..<nat \<lceil>getAudioDuration env Audio / 300\<rceil>])))"
    by (simp add: CHUNK_DURATION_SECONDS_def)
  show "\<forall>k. Suc k < nat \<lceil>getAudioDuration env Audio / 300\<rceil> \<longrightarrow>
            min 300 (getAudioDuration env Audio - of_nat k * 300) = 300"
    using full_window by blast
  from last_window [OF pos]
  show "of_nat (nat \<lceil>getAudioDuration env Audio / 300\<rceil> - 1) * 300 +
         min 300 (getAudioDuration env Audio - of_nat (nat \<lceil>getAudioDuration env Audio / 300\<rceil> - 1) * 300) =
         getAudioDuration env Audio"
    and "0 < min 300 (getAudioDuration env Audio - of_nat (nat \<lceil>getAudioDuration env Audio / 300\<rceil> - 1) * 300)"
    by simp_all
next
  have d: "getAudioDuration (sample_env 1200 bytes) Audio = 1200" by (simp add: sample_env_def)
  have n: "nat \<lceil>(1200 :: rat) / 300\<rceil> = 4" by simp
  have ok: "filter (ffmpeg_ok (sample_env 1200 bytes)) [0..<4] = [0, 1, 2, 3]"
    by (simp add: sample_env_def upt_rec)
  have pos: "0 < getAudioDuration (sample_env 1200 bytes) Audio" by (simp add: d)
  from splitAudioIntoChunks_result [OF pos, of 300]
  show "\<exists>evs chunks. splitAudioIntoChunks (sample_env 1200 bytes) Audio CHUNK_DURATION_SECONDS =
                     Some (evs, Inr chunks) \<and>
       map chunk_startTime chunks = [0, 300, 600, 900] \<and>
       map chunk_duration chunks = [300, 300, 300, 300]"
    by (simp add: CHUNK_DURATION_SECONDS_def d n ok)
qed

theorem chunking_decision_and_windows_witness:
  "(\<exists>evs res. transcribeAudio (sample_env 500 100) Audio (str ''en'') True = Some (evs, res) \<and>
       ffmpeg_runs evs = []) \<and>
   (\<exists>evs res. transcribeAudio (sample_env 1200 100) Audio (str ''en'') True = Some (evs, res) \<and>
       ffmpeg_runs evs = [(0, 0, 300), (1, 300, 300), (2, 600, 300), (3, 900, 300)]) \<and>
   min 300 (getAudioDuration (sample_env 1200 100) Audio - of_nat 2 * 300) = 300"
proof -
  have key: "geminiApiKey (sample_env d b) \<noteq> []" for d b by (simp add: sample_env_def)
  have d500: "getAudioDuration (sample_env 500 100) Audio = 500" by (simp add: sample_env_def)
  have d1200: "getAudioDuration (sample_env 1200 100) Audio = 1200" by (simp add: sample_env_def)
  have n: "nat \<lceil>(1200 :: rat) / 300\<rceil> = 4" by simp
  have short: "\<exists>evs res. transcribeAudio (sample_env 500 100) Audio (str ''en'') True = Some (evs, res) \<and>
       ffmpeg_runs evs = []"
    using chunking_decision_and_windows [OF key, of 500 100 "str ''en''" True 100] d500 by simp
  have long: "(\<exists>evs res. transcribeAudio (sample_env 1200 100) Audio (str ''en'') True = Some (evs, res) \<and>
          ffmpeg_runs evs =
            map (\<lambda>k. (k, of_nat k * 300, min 300 (1200 - of_nat k * 300))) [0..<4]) \<and>
       (\<forall>k. Suc k < 4 \<longrightarrow> min 300 (1200 - of_nat k * 300) = (300 :: rat))"
    using chunking_decision_and_windows [OF key, of 1200 100 "str ''en''" True 100]
    by (simp add: d1200 n)
  then have third: "min 300 (1200 - of_nat 2 * 300) = (300 :: rat)" by simp
  have l: "map (\<lambda>k. (k, of_nat k * 300, min 300 (1200 - of_nat k * 300))) [0..<4] =
           [(0, 0, 300), (1, 300, 300), (2, 600, 300), (3, 900 :: rat, 300 :: rat)]"
    by (simp add: upt_rec)
  from short long third show ?thesis by (simp add: d1200 l)
qed

lemma upload_attempts_map_Sleep [simp]: "upload_attempts (map Sleep ms) = 0"
  by (induction ms) simp_all

text \<open>What the generation loop does, whatever progress values, pause and message it is given.\<close>

lemma generateLoop_summary:
  "case generateLoop env audioPath op base step delay failure lang 1 None evs0 of
      (evs, res) \<Rightarrow>
        generate_attempts evs = generate_attempts evs0 + attempts_made (generateContent env audioPath) \<and>
        upload_attempts evs = upload_attempts evs0 \<and>
        res = first_text_or_last_error failure lang (generateContent env audioPath) \<and>
        sleeps evs = sleeps evs0 @ pauses_made delay (generateContent env audioPath)"
  unfolding generateLoop_3 attempts_made_def first_text_or_last_error_def pauses_made_def
  by (cases "produced_text (generateContent env audioPath 1)";
      cases "produced_text (generateContent env audioPath 2)";
      cases "produced_text (generateContent env audioPath 3)") simp_all

lemma attempts_made_le: "attempts_made g \<le> 3"
  by (simp add: attempts_made_def split: option.splits)

lemma waitLoop_generate_attempts:
  "waitLoop env p maxWait rep ufile waitCount evs = (evs', ufile') \<Longrightarrow>
   generate_attempts evs' = generate_attempts evs"
proof (induction env p maxWait rep ufile waitCount evs rule: waitLoop.induct)
  case (1 env audioPath maxWait report ufile waitCount evs)
  show ?case
  proof (cases "file_state ufile = str ''PROCESSING'' \<and> waitCount < maxWait")
    case True
    with "1.prems" have
      "waitLoop env audioPath maxWait report
          (case getFile env audioPath waitCount of Returned f \<Rightarrow> f | Threw e \<Rightarrow> ufile)
          (waitCount + 1)
          (evs @ [Sleep 2000] @ onProgress_call report (55 + min (waitCount + 1) 10)) = (evs', ufile')"
      by (subst (asm) waitLoop.simps) simp
    from "1.IH" [OF True this] show ?thesis by simp
  next
    case False
    with "1.prems" show ?thesis by (subst (asm) waitLoop.simps) auto
  qed
qed

lemma waitLoop_upload_attempts:
  "waitLoop env p maxWait rep ufile waitCount evs = (evs', ufile') \<Longrightarrow>
   upload_attempts evs' = upload_attempts evs"
proof (induction env p maxWait rep ufile waitCount evs rule: waitLoop.induct)
  case (1 env audioPath maxWait report ufile waitCount evs)
  show ?case
  proof (cases "file_state ufile = str ''PROCESSING'' \<and> waitCount < maxWait")
    case True
    with "1.prems" have
      "waitLoop env audioPath maxWait report
          (case getFile env audioPath waitCount of Returned f \<Rightarrow> f | Threw e \<Rightarrow> ufile)
          (waitCount + 1)
          (evs @ [Sleep 2000] @ onProgress_call report (55 + min (waitCount + 1) 10)) = (evs', ufile')"
      by (subst (asm) waitLoop.simps) simp
    from "1.IH" [OF True this] show ?thesis by simp
  next
    case False
    with "1.prems" show ?thesis by (subst (asm) waitLoop.simps) auto
  qed
qed

lemma uploadWithRetry_generate_attempts:
  "uploadWithRetry env p 3 op = (evs, res) \<Longrightarrow> generate_attempts evs = 0"
  unfolding uploadWithRetry_3 by (auto split: outcome.splits)

text \<open>
  C9, amended. Called with three retries, the upload loop makes at most three attempts
  and returns the first result an attempt returns; it sleeps 2 s after a first failure and
  4 s after a second one, and when all three attempts throw it throws the error of the
  third. The generation loops of \<^const>\<open>transcribeWithInlineData\<close> and of
  \<^const>\<open>transcribeWithFileAPI\<close> (once the upload has succeeded and the file has not failed)
  make at most three attempts and return the first text that is not blank; they sleep
  their fixed delay, 2 s on the inline path and 3 s on the File API path, only after an
  attempt that threw and is not the third, an attempt that returned blank text being
  followed at once by the next; when no attempt produced text they throw the error
  thrown last, or their own failure message when no attempt threw.
\<close>

theorem retry_loops_amended:
  "(case uploadWithRetry env audioPath 3 op of
      (evs, res) \<Rightarrow>
        upload_attempts evs \<le> 3 \<and>
        upload_attempts evs =
          (case uploadFile env audioPath 1 of
             Returned f \<Rightarrow> 1
           | Threw e1 \<Rightarrow> (case uploadFile env audioPath 2 of Returned f \<Rightarrow> 2 | Threw e2 \<Rightarrow> 3)) \<and>
        res =
          (case uploadFile env audioPath 1 of
             Returned f \<Rightarrow> Inr f
           | Threw e1 \<Rightarrow>
              (case uploadFile env audioPath 2 of
                 Returned f \<Rightarrow> Inr f
               | Threw e2 \<Rightarrow>
                  (case uploadFile env audioPath 3 of
                     Returned f \<Rightarrow> Inr f
                   | Threw e3 \<Rightarrow> Inl e3))) \<and>
        sleeps evs =
          (case uploadFile env audioPath 1 of
             Returned f \<Rightarrow> []
           | Threw e1 \<Rightarrow>
              (case uploadFile env audioPath 2 of
                 Returned f \<Rightarrow> [2000]
               | Threw e2 \<Rightarrow> [2000, 4000]))) \<and>
   (case transcribeWithInlineData env audioPath lang op of
      (evs, res) \<Rightarrow>
        generate_attempts evs \<le> 3 \<and>
        generate_attempts evs = attempts_made (generateContent env audioPath) \<and>
        res = first_text_or_last_error (str ''Transcription failed with inline data'') lang
                (generateContent env audioPath) \<and>
        sleeps evs = pauses_made 2000 (generateContent env audioPath)) \<and>
   (\<forall>evs1 uploaded evs2 file.
      uploadWithRetry env audioPath 3 op = (evs1, Inr uploaded) \<and>
      waitLoop env audioPath 60 op uploaded 0
        (onProgress_call op 50 @ evs1 @ onProgress_call op 55) = (evs2, file) \<and>
      file_state file \<noteq> str ''FAILED'' \<longrightarrow>
      (case transcribeWithFileAPI env audioPath lang op of
         (evs, res) \<Rightarrow>
           generate_attempts evs \<le> 3 \<and>
           generate_attempts evs = attempts_made (generateContent env audioPath) \<and>
           upload_attempts evs = upload_attempts evs1 \<and>
           res = first_text_or_last_error (str ''Transcription failed with File API'') lang
                   (generateContent env audioPath) \<and>
           sleeps evs = sleeps evs2 @ pauses_made 3000 (generateContent env audioPath)))"
proof -
  have upload: "case uploadWithRetry env audioPath 3 op of
      (evs, res) \<Rightarrow>
        upload_attempts evs \<le> 3 \<and>
        upload_attempts evs =
          (case uploadFile env audioPath 1 of
             Returned f \<Rightarrow> 1
           | Threw e1 \<Rightarrow> (case uploadFile env audioPath 2 of Returned f \<Rightarrow> 2 | Threw e2 \<Rightarrow> 3)) \<and>
        res =
          (case uploadFile env audioPath 1 of
             Returned f \<Rightarrow> Inr f
           | Threw e1 \<Rightarrow>
              (case uploadFile env audioPath 2 of
                 Returned f \<Rightarrow> Inr f
               | Threw e2 \<Rightarrow>
                  (case uploadFile env audioPath 3 of
                     Returned f \<Rightarrow> Inr f
                   | Threw e3 \<Rightarrow> Inl e3))) \<and>
        sleeps evs =
          (case uploadFile env audioPath 1 of
             Returned f \<Rightarrow> []
           | Threw e1 \<Rightarrow>
              (case uploadFile env audioPath 2 of
                 Returned f \<Rightarrow> [2000]
               | Threw e2 \<Rightarrow> [2000, 4000]))"
    unfolding uploadWithRetry_3 by (simp split: outcome.splits)
  have inline: "case transcribeWithInlineData env audioPath lang op of
      (evs, res) \<Rightarrow>
        generate_attempts evs \<le> 3 \<and>
        generate_attempts evs = attempts_made (generateContent env audioPath) \<and>
        res = first_text_or_last_error (str ''Transcription failed with inline data'') lang
                (generateContent env audioPath) \<and>
        sleeps evs = pauses_made 2000 (generateContent env audioPath)"
    unfolding transcribeWithInlineData_def
    using generateLoop_summary [where env = env and audioPath = audioPath and op = op
            and base = 55 and step = 5 and delay = 2000
            and failure = "str ''Transcription failed with inline data''" and lang = lang
            and ?evs0.0 = "onProgress_call op 50 @ onProgress_call op 55"]
          attempts_made_le [of "generateContent env audioPath"]
    by (auto split: prod.splits)
  have api: "case transcribeWithFileAPI env audioPath lang op of
         (evs, res) \<Rightarrow>
           generate_attempts evs \<le> 3 \<and>
           generate_attempts evs = attempts_made (generateContent env audioPath) \<and>
           upload_attempts evs = upload_attempts evs1 \<and>
           res = first_text_or_last_error (str ''Transcription failed with File API'') lang
                   (generateContent env audioPath) \<and>
           sleeps evs = sleeps evs2 @ pauses_made 3000 (generateContent env audioPath)"
    if up: "uploadWithRetry env audioPath 3 op = (evs1, Inr uploaded)"
      and w: "waitLoop env audioPath 60 op uploaded 0
        (onProgress_call op 50 @ evs1 @ onProgress_call op 55) = (evs2, ufile)"
      and ok: "file_state ufile \<noteq> str ''FAILED''"
    for evs1 uploaded evs2 ufile
  proof -
    have g2: "generate_attempts evs2 = 0"
      using waitLoop_generate_attempts [OF w] uploadWithRetry_generate_attempts [OF up] by simp
    have u2: "upload_attempts evs2 = upload_attempts evs1"
      using waitLoop_upload_attempts [OF w] by simp
    have t: "transcribeWithFileAPI env audioPath lang op =
               generateLoop env audioPath op 65 2 3000 (str ''Transcription failed with File API'')
                 lang 1 None (evs2 @ onProgress_call op 65)"
      using up w ok by (simp add: transcribeWithFileAPI_def)
    show ?thesis
      unfolding t
      using generateLoop_summary [where env = env and audioPath = audioPath and op = op
              and base = 65 and step = 2 and delay = 3000
              and failure = "str ''Transcription failed with File API''" and lang = lang
              and ?evs0.0 = "evs2 @ onProgress_call op 65"]
            attempts_made_le [of "generateContent env audioPath"] g2 u2
      by (auto split: prod.splits)
  qed
  show ?thesis
    apply (intro conjI allI impI)
      apply (rule upload)
     apply (rule inline)
    apply (elim conjE)
    apply (rule api; assumption)
    done
qed

lemma trim_hello: "trim (str ''hello'') = str ''hello''"
  by (simp add: trim_def trimStart_def trimEnd_def is_space_def str_def)

lemma trim_blank: "trim [0xA0, 0x20, 0x3000] = []"
  by (simp add: trim_def trimStart_def trimEnd_def is_space_def)

lemma trim_padded: "trim ([0xA0] @ str '' hello '' @ [0x2028]) = str ''hello''"
  by (simp add: trim_def trimStart_def trimEnd_def is_space_def str_def)

lemma waitLoop_not_processing:
  "file_state ufile \<noteq> str ''PROCESSING'' \<Longrightarrow>
   waitLoop env p maxWait rep ufile waitCount evs = (evs, ufile)"
  by (subst waitLoop.simps) simp

lemma blank_env_responses:
  "generateContent blank_env p k = Returned [0xA0, 0x20, 0x3000]"
  by (simp add: blank_env_def sample_env_def)

lemma blank_env_outcomes:
  "produced_text (generateContent blank_env p k) = None"
  "thrown_message (generateContent blank_env p k) = None"
  by (simp_all add: blank_env_responses produced_text_def thrown_message_def trim_blank)

lemma late_success_responses:
  "generateContent late_success_env p 1 = Threw (str ''overloaded'')"
  "generateContent late_success_env p 2 = Threw (str ''overloaded'')"
  "generateContent late_success_env p 3 = Returned (str ''hello'')"
  "uploadFile late_success_env p k = Returned \<lparr>file_state = str ''ACTIVE''\<rparr>"
  by (simp_all add: late_success_env_def sample_env_def)

lemma late_success_outcomes:
  "produced_text (generateContent late_success_env p 1) = None"
  "produced_text (generateContent late_success_env p 2) = None"
  "produced_text (generateContent late_success_env p 3) = Some (str ''hello'')"
  "thrown_message (generateContent late_success_env p 1) = Some (str ''overloaded'')"
  "thrown_message (generateContent late_success_env p 2) = Some (str ''overloaded'')"
  by (simp_all add: late_success_responses produced_text_def thrown_message_def trim_hello
        del: One_nat_def)

text \<open>
  C9, as stated, fails for the generation loops: when the three responses are blank, the
  loop of \<^const>\<open>transcribeWithInlineData\<close> makes its three attempts with no pause between
  them, and the error it throws is not the error of any attempt, none having thrown.
\<close>

theorem blank_responses_bring_no_pause:
  "generate_attempts (fst (transcribeWithInlineData blank_env Audio (str ''English'') False)) = 3 \<and>
   sleeps (fst (transcribeWithInlineData blank_env Audio (str ''English'') False)) = [] \<and>
   snd (transcribeWithInlineData blank_env Audio (str ''English'') False) =
     Inl (str ''Transcription failed with inline data'') \<and>
   generateContent blank_env Audio 1 = Returned [0xA0, 0x20, 0x3000] \<and>
   generateContent blank_env Audio 2 = Returned [0xA0, 0x20, 0x3000] \<and>
   generateContent blank_env Audio 3 = Returned [0xA0, 0x20, 0x3000]"
proof -
  have run: "transcribeWithInlineData blank_env Audio (str ''English'') False =
               ([Call_generateContent, Call_generateContent, Call_generateContent],
                Inl (str ''Transcription failed with inline data''))"
    by (simp add: transcribeWithInlineData_def generateLoop_3 blank_env_outcomes pause_after_def
          onProgress_call_def del: One_nat_def)
  show ?thesis by (simp add: run blank_env_responses)
qed

theorem retry_loops_amended_witness:
  "upload_attempts (fst (uploadWithRetry flaky_env (Chunk 1) 3 True)) = 3 \<and>
   sleeps (fst (uploadWithRetry flaky_env (Chunk 1) 3 True)) = [2000, 4000] \<and>
   snd (uploadWithRetry flaky_env (Chunk 1) 3 True) = Inl (str ''upload refused'') \<and>
   generate_attempts (fst (transcribeWithInlineData late_success_env Audio (str ''English'') True)) = 3 \<and>
   sleeps (fst (transcribeWithInlineData late_success_env Audio (str ''English'') True)) =
     [2000, 2000] \<and>
   snd (transcribeWithInlineData late_success_env Audio (str ''English'') True) =
     Inr \<lparr>tr_transcription = str ''hello'', tr_language = str ''English''\<rparr> \<and>
   uploadWithRetry late_success_env Audio 3 True =
     ([Progress 51, Call_uploadFile], Inr \<lparr>file_state = str ''ACTIVE''\<rparr>) \<and>
   file_state \<lparr>file_state = str ''ACTIVE''\<rparr> \<noteq> str ''FAILED'' \<and>
   generate_attempts (fst (transcribeWithFileAPI late_success_env Audio (str ''English'') True)) = 3 \<and>
   upload_attempts (fst (transcribeWithFileAPI late_success_env Audio (str ''English'') True)) = 1 \<and>
   sleeps (fst (transcribeWithFileAPI late_success_env Audio (str ''English'') True)) =
     [3000, 3000] \<and>
   snd (transcribeWithFileAPI late_success_env Audio (str ''English'') True) =
     Inr \<lparr>tr_transcription = str ''hello'', tr_language = str ''English''\<rparr>"
proof -
  have u: "uploadFile flaky_env (Chunk 1) k = Threw (str ''upload refused'')" for k
    by (simp add: flaky_env_def sample_env_def)
  have am: "attempts_made (generateContent late_success_env Audio) = 3"
    by (simp add: attempts_made_def late_success_outcomes del: One_nat_def)
  have res: "first_text_or_last_error failure (str ''English'') (generateContent late_success_env Audio) =
               Inr \<lparr>tr_transcription = str ''hello'', tr_language = str ''English''\<rparr>" for failure
    by (simp add: first_text_or_last_error_def late_success_outcomes del: One_nat_def)
  have pm: "pauses_made delay (generateContent late_success_env Audio) = [delay, delay]" for delay
    by (simp add: pauses_made_def pause_after_def late_success_outcomes del: One_nat_def)
  from retry_loops_amended [where env = flaky_env and audioPath = "Chunk 1" and op = True,
         THEN conjunct1]
  have upload: "upload_attempts (fst (uploadWithRetry flaky_env (Chunk 1) 3 True)) = 3 \<and>
   sleeps (fst (uploadWithRetry flaky_env (Chunk 1) 3 True)) = [2000, 4000] \<and>
   snd (uploadWithRetry flaky_env (Chunk 1) 3 True) = Inl (str ''upload refused'')"
    by (simp add: u split_beta del: One_nat_def)
  from retry_loops_amended [where env = late_success_env and audioPath = Audio and op = True
         and lang = "str ''English''", THEN conjunct2, THEN conjunct1]
  have inline: "generate_attempts (fst (transcribeWithInlineData late_success_env Audio (str ''English'') True)) = 3 \<and>
   sleeps (fst (transcribeWithInlineData late_success_env Audio (str ''English'') True)) =
     [2000, 2000] \<and>
   snd (transcribeWithInlineData late_success_env Audio (str ''English'') True) =
     Inr \<lparr>tr_transcription = str ''hello'', tr_language = str ''English''\<rparr>"
    by (simp add: split_beta am res pm)
  have up: "uploadWithRetry late_success_env Audio 3 True =
     ([Progress 51, Call_uploadFile], Inr \<lparr>file_state = str ''ACTIVE''\<rparr>)"
    by (simp add: uploadWithRetry_3 late_success_responses onProgress_call_def del: One_nat_def)
  have w: "waitLoop late_success_env Audio 60 True \<lparr>file_state = str ''ACTIVE''\<rparr> 0
        (onProgress_call True 50 @ [Progress 51, Call_uploadFile] @ onProgress_call True 55) =
        ([Progress 50, Progress 51, Call_uploadFile, Progress 55],
         \<lparr>file_state = str ''ACTIVE''\<rparr>)"
    by (simp add: waitLoop_not_processing onProgress_call_def)
  have ok: "file_state \<lparr>file_state = str ''ACTIVE''\<rparr> \<noteq> str ''FAILED''" by simp
  from retry_loops_amended [where env = late_success_env and audioPath = Audio and op = True
         and lang = "str ''English''", THEN conjunct2, THEN conjunct2, rule_format,
         OF conjI [OF up conjI [OF w ok]]]
  have api: "generate_attempts (fst (transcribeWithFileAPI late_success_env Audio (str ''English'') True)) = 3 \<and>
   upload_attempts (fst (transcribeWithFileAPI late_success_env Audio (str ''English'') True)) = 1 \<and>
   sleeps (fst (transcribeWithFileAPI late_success_env Audio (str ''English'') True)) =
     [3000, 3000] \<and>
   snd (transcribeWithFileAPI late_success_env Audio (str ''English'') True) =
     Inr \<lparr>tr_transcription = str ''hello'', tr_language = str ''English''\<rparr>"
    by (simp add: split_beta am res pm)
  from upload inline up ok api show ?thesis by simp
qed

lemma waitLoop_snd:
  "snd (waitLoop env p maxWait rep ufile waitCount evs) =
   snd (waitLoop env p maxWait rep ufile waitCount evs')"
proof (induction env p maxWait rep ufile waitCount evs arbitrary: evs' rule: waitLoop.induct)
  case (1 env audioPath maxWait report ufile waitCount evs)
  show ?case
  proof (cases "file_state ufile = str ''PROCESSING'' \<and> waitCount < maxWait")
    case True
    show ?thesis
      apply (subst waitLoop.simps)
      apply (subst (2) waitLoop.simps)
      using True "1.IH" [OF True] by simp
  next
    case False
    then show ?thesis
      apply (subst waitLoop.simps)
      apply (subst (2) waitLoop.simps)
      by auto
  qed
qed

lemma transcribeChunk_output:
  "snd (transcribeChunk env c) =
     (case snd (uploadWithRetry env (chunk_path c) 3 False) of
        Inl e \<Rightarrow> None
      | Inr uploaded \<Rightarrow>
          if file_state (snd (waitLoop env (chunk_path c) 30 False uploaded 0 [])) = str ''FAILED''
          then None
          else map_option
                 (\<lambda>t. [10] @ str ''['' @ formatTimestamp (chunk_startTime c) @ str '']'' @
                      [10] @ t)
                 (produced_text (generateContent env (chunk_path c) 1)))"
proof -
  obtain evs1 res1 where up: "uploadWithRetry env (chunk_path c) 3 False = (evs1, res1)"
    by (cases "uploadWithRetry env (chunk_path c) 3 False")
  show ?thesis
  proof (cases res1)
    case (Inl e)
    with up show ?thesis by (simp add: transcribeChunk_def)
  next
    case (Inr uploaded)
    obtain evs2 f2 where w: "waitLoop env (chunk_path c) 30 False uploaded 0 evs1 = (evs2, f2)"
      by (cases "waitLoop env (chunk_path c) 30 False uploaded 0 evs1")
    have "snd (waitLoop env (chunk_path c) 30 False uploaded 0 []) = f2"
      using waitLoop_snd [of env "chunk_path c" 30 False uploaded 0 "[]" evs1] w by simp
    with up Inr w show ?thesis
      by (simp add: transcribeChunk_def produced_text_def headerText_def newline_def
            split: outcome.splits)
  qed
qed

lemma transcribeChunk_attempts:
  "generate_attempts (fst (transcribeChunk env c)) \<le> 1"
  "upload_attempts (fst (transcribeChunk env c)) \<le> 3"
proof -
  obtain evs1 res1 where up: "uploadWithRetry env (chunk_path c) 3 False = (evs1, res1)"
    by (cases "uploadWithRetry env (chunk_path c) 3 False")
  have g1: "generate_attempts evs1 = 0" by (rule uploadWithRetry_generate_attempts [OF up])
  have u1: "upload_attempts evs1 \<le> 3"
    using up unfolding uploadWithRetry_3 by (auto split: outcome.splits)
  have "generate_attempts (fst (transcribeChunk env c)) \<le> 1 \<and>
        upload_attempts (fst (transcribeChunk env c)) \<le> 3"
  proof (cases res1)
    case (Inl e)
    with up g1 u1 show ?thesis by (simp add: transcribeChunk_def)
  next
    case (Inr uploaded)
    obtain evs2 f2 where w: "waitLoop env (chunk_path c) 30 False uploaded 0 evs1 = (evs2, f2)"
      by (cases "waitLoop env (chunk_path c) 30 False uploaded 0 evs1")
    from waitLoop_generate_attempts [OF w] g1 have g2: "generate_attempts evs2 = 0" by simp
    from waitLoop_upload_attempts [OF w] u1 have u2: "upload_attempts evs2 \<le> 3" by simp
    from up Inr w g2 u2 show ?thesis
      by (simp add: transcribeChunk_def split: outcome.splits)
  qed
  then show "generate_attempts (fst (transcribeChunk env c)) \<le> 1"
    and "upload_attempts (fst (transcribeChunk env c)) \<le> 3" by simp_all
qed

lemma join_concat:
  "xs \<noteq> [] \<Longrightarrow> join sep xs = hd xs @ concat (map (\<lambda>t. sep @ t) (tl xs))"
proof (induction sep xs rule: join.induct)
  case (1 sep)
  then show ?case by simp
next
  case (2 sep x)
  show ?case by simp
next
  case (3 sep x y ys)
  then show ?case by simp
qed

lemma headerText_eq:
  "headerText c = [10] @ str ''['' @ formatTimestamp (chunk_startTime c) @ str '']'' @ [10]"
  by (simp add: headerText_def newline_def)

lemma late_chunk:
  "transcribeChunk late_success_env (sample_chunk 0) = ([Call_uploadFile, Call_generateContent], None)"
  by (simp add: transcribeChunk_def uploadWithRetry_3 late_success_responses
        waitLoop_not_processing onProgress_call_def sample_chunk_def del: One_nat_def)

lemma late_api:
  "transcribeWithFileAPI late_success_env (Chunk 0) (str ''English'') False =
     ([Call_uploadFile, Call_generateContent, Sleep 3000, Call_generateContent, Sleep 3000,
       Call_generateContent],
      Inr \<lparr>tr_transcription = str ''hello'', tr_language = str ''English''\<rparr>)"
proof -
  have up: "uploadWithRetry late_success_env (Chunk 0) 3 False =
              ([Call_uploadFile], Inr \<lparr>file_state = str ''ACTIVE''\<rparr>)"
    by (simp add: uploadWithRetry_3 late_success_responses onProgress_call_def del: One_nat_def)
  show ?thesis
    by (simp add: transcribeWithFileAPI_def up waitLoop_not_processing generateLoop_3
          late_success_outcomes pause_after_def onProgress_call_def del: One_nat_def)
qed

text \<open>
  C5, as stated, fails where it speaks of exhausted transcription retries: the chunked
  path does not retry the transcription of a chunk. On a service whose transcription call
  throws twice and then answers, the chunk is dropped after its first and only call,
  while \<^const>\<open>transcribeWithFileAPI\<close> on the same file goes on to the third attempt and
  returns the text.
\<close>

theorem chunk_transcription_is_not_retried:
  "generateContent late_success_env (Chunk 0) 1 = Threw (str ''overloaded'') \<and>
   generateContent late_success_env (Chunk 0) 3 = Returned (str ''hello'') \<and>
   generate_attempts (fst (transcribeChunk late_success_env (sample_chunk 0))) = 1 \<and>
   snd (transcribeChunk late_success_env (sample_chunk 0)) = None \<and>
   generate_attempts
     (fst (transcribeWithFileAPI late_success_env (Chunk 0) (str ''English'') False)) = 3 \<and>
   snd (transcribeWithFileAPI late_success_env (Chunk 0) (str ''English'') False) =
     Inr \<lparr>tr_transcription = str ''hello'', tr_language = str ''English''\<rparr>"
  by (simp add: late_chunk late_api late_success_responses del: One_nat_def)

text \<open>
  C5, amended. \<^const>\<open>transcribeWithChunking\<close> always returns. A window whose ffmpeg run
  fails gives no chunk, and the others are kept. The outputs of a run are the entries of
  the chunks, in order, for which \<^const>\<open>transcribeChunk\<close> pushed one; the run throws
  exactly when there is no output, and otherwise returns the outputs in that order, each
  one after the first preceded by two line feeds. A chunk makes at most three upload
  attempts and at most one transcription call. It pushes no entry when its three upload
  attempts throw, when its uploaded file ends in state \<open>FAILED\<close>, when its transcription
  call throws or when the text is blank; otherwise it pushes the header
  \<^verbatim>\<open>[MM:SS]\<close> of its start time, between two line feeds, followed by the trimmed text.
\<close>

theorem chunk_failures_are_skipped:
  "\<exists>evs0 sres evs res.
      splitAudioIntoChunks env audioPath CHUNK_DURATION_SECONDS = Some (evs0, sres) \<and>
      transcribeWithChunking env audioPath lang op = Some (evs, res) \<and>
      (0 < getAudioDuration env audioPath \<longrightarrow>
         sres = Inr (map (\<lambda>k. \<lparr>chunk_path = Chunk k, chunk_startTime = of_nat k * 300,
                                 chunk_duration =
                                   min 300 (getAudioDuration env audioPath - of_nat k * 300)\<rparr>)
                         (filter (ffmpeg_ok env)
                            [0..<nat \<lceil>getAudioDuration env audioPath / 300\<rceil>]))) \<and>
      (let chunks = (case sres of Inr cs \<Rightarrow> cs | Inl e \<Rightarrow> []);
           outs = List.map_filter (\<lambda>c. snd (transcribeChunk env c)) chunks
       in ((\<exists>e. res = Inl e) \<longleftrightarrow> outs = []) \<and>
          (outs \<noteq> [] \<longrightarrow>
             res = Inr \<lparr>tr_transcription = hd outs @ concat (map (\<lambda>t. [10, 10] @ t) (tl outs)),
                        tr_language = lang\<rparr>)) \<and>
      (\<forall>c. snd (transcribeChunk env c) =
         (case snd (uploadWithRetry env (chunk_path c) 3 False) of
            Inl e \<Rightarrow> None
          | Inr uploaded \<Rightarrow>
              if file_state (snd (waitLoop env (chunk_path c) 30 False uploaded 0 [])) =
                 str ''FAILED''
              then None
              else map_option
                     (\<lambda>t. [10] @ str ''['' @ formatTimestamp (chunk_startTime c) @ str '']'' @
                          [10] @ t)
                     (produced_text (generateContent env (chunk_path c) 1))) \<and>
         generate_attempts (fst (transcribeChunk env c)) \<le> 1 \<and>
         upload_attempts (fst (transcribeChunk env c)) \<le> 3)"
proof -
  have each: "\<forall>c. snd (transcribeChunk env c) =
         (case snd (uploadWithRetry env (chunk_path c) 3 False) of
            Inl e \<Rightarrow> None
          | Inr uploaded \<Rightarrow>
              if file_state (snd (waitLoop env (chunk_path c) 30 False uploaded 0 [])) =
                 str ''FAILED''
              then None
              else map_option
                     (\<lambda>t. [10] @ str ''['' @ formatTimestamp (chunk_startTime c) @ str '']'' @
                          [10] @ t)
                     (produced_text (generateContent env (chunk_path c) 1))) \<and>
         generate_attempts (fst (transcribeChunk env c)) \<le> 1 \<and>
         upload_attempts (fst (transcribeChunk env c)) \<le> 3"
  proof (intro allI conjI)
    fix c
    show "snd (transcribeChunk env c) =
         (case snd (uploadWithRetry env (chunk_path c) 3 False) of
            Inl e \<Rightarrow> None
          | Inr uploaded \<Rightarrow>
              if file_state (snd (waitLoop env (chunk_path c) 30 False uploaded 0 [])) =
                 str ''FAILED''
              then None
              else map_option
                     (\<lambda>t. [10] @ str ''['' @ formatTimestamp (chunk_startTime c) @ str '']'' @
                          [10] @ t)
                     (produced_text (generateContent env (chunk_path c) 1)))"
      by (rule transcribeChunk_output)
    show "generate_attempts (fst (transcribeChunk env c)) \<le> 1"
      by (rule transcribeChunk_attempts)
    show "upload_attempts (fst (transcribeChunk env c)) \<le> 3"
      by (rule transcribeChunk_attempts)
  qed
  show ?thesis
  proof (cases "0 < getAudioDuration env audioPath")
    case False
    then have le: "getAudioDuration env audioPath \<le> 0" by simp
    show ?thesis
    proof (intro exI conjI)
      show "splitAudioIntoChunks env audioPath CHUNK_DURATION_SECONDS =
              Some ([], Inl (str ''Could not determine audio duration''))"
        by (rule splitAudioIntoChunks_no_duration [OF le])
      show "transcribeWithChunking env audioPath lang op =
              Some (onProgress_call op 50, Inl (str ''Could not determine audio duration''))"
        by (rule transcribeWithChunking_no_duration [OF le])
      show "0 < getAudioDuration env audioPath \<longrightarrow>
           Inl (str ''Could not determine audio duration'') =
           Inr (map (\<lambda>k. \<lparr>chunk_path = Chunk k, chunk_startTime = of_nat k * 300,
                            chunk_duration =
                              min 300 (getAudioDuration env audioPath - of_nat k * 300)\<rparr>)
                    (filter (ffmpeg_ok env)
                       [0..<nat \<lceil>getAudioDuration env audioPath / 300\<rceil>]))"
        using le by simp
      show "let chunks = (case Inl (str ''Could not determine audio duration'') of
                            Inr cs \<Rightarrow> cs | Inl e \<Rightarrow> []);
                outs = List.map_filter (\<lambda>c. snd (transcribeChunk env c)) chunks
            in ((\<exists>e. (Inl (str ''Could not determine audio duration'')
                         :: js_string + TranscriptionResult) = Inl e)
                  \<longleftrightarrow> outs = []) \<and>
               (outs \<noteq> [] \<longrightarrow>
                  Inl (str ''Could not determine audio duration'') =
                  Inr \<lparr>tr_transcription = hd outs @ concat (map (\<lambda>t. [10, 10] @ t) (tl outs)),
                       tr_language = lang\<rparr>)"
        by (simp add: Let_def)
      show "\<forall>c. snd (transcribeChunk env c) =
         (case snd (uploadWithRetry env (chunk_path c) 3 False) of
            Inl e \<Rightarrow> None
          | Inr uploaded \<Rightarrow>
              if file_state (snd (waitLoop env (chunk_path c) 30 False uploaded 0 [])) =
                 str ''FAILED''
              then None
              else map_option
                     (\<lambda>t. [10] @ str ''['' @ formatTimestamp (chunk_startTime c) @ str '']'' @
                          [10] @ t)
                     (produced_text (generateContent env (chunk_path c) 1))) \<and>
         generate_attempts (fst (transcribeChunk env c)) \<le> 1 \<and>
         upload_attempts (fst (transcribeChunk env c)) \<le> 3"
        by (rule each)
    qed
  next
    case True
    define chunks where "chunks = map (\<lambda>k. \<lparr>chunk_path = Chunk k, chunk_startTime = of_nat k * 300,
                             chunk_duration = min 300 (getAudioDuration env audioPath - of_nat k * 300)\<rparr>)
                      (filter (ffmpeg_ok env) [0..<nat \<lceil>getAudioDuration env audioPath / 300\<rceil>])"
    define outs where "outs = List.map_filter (\<lambda>c. snd (transcribeChunk env c)) chunks"
    from splitAudioIntoChunks_result [OF True, of 300]
    obtain evs0 where split: "splitAudioIntoChunks env audioPath CHUNK_DURATION_SECONDS =
        Some (evs0, Inr chunks)"
      by (simp add: CHUNK_DURATION_SECONDS_def chunks_def)
    from transcribeWithChunking_result [OF True, of lang op]
    obtain evs where run: "transcribeWithChunking env audioPath lang op =
             Some (evs,
                   if chunks = [] then Inl (str ''Failed to split audio into chunks'')
                   else if outs = [] then Inl (str ''Failed to transcribe any chunks'')
                   else Inr \<lparr>tr_transcription = join [newline, newline] outs, tr_language = lang\<rparr>)"
      unfolding chunks_def outs_def by blast
    have empty: "chunks = [] \<Longrightarrow> outs = []" by (simp add: outs_def)
    have joined: "outs \<noteq> [] \<Longrightarrow>
                  join [newline, newline] outs = hd outs @ concat (map (\<lambda>t. [10, 10] @ t) (tl outs))"
      using join_concat [of outs "[newline, newline]"] by (simp add: newline_def)
    let ?res = "if chunks = [] then Inl (str ''Failed to split audio into chunks'')
                   else if outs = [] then Inl (str ''Failed to transcribe any chunks'')
                   else Inr \<lparr>tr_transcription = join [newline, newline] outs, tr_language = lang\<rparr>"
    show ?thesis
    proof (intro exI conjI)
      show "splitAudioIntoChunks env audioPath CHUNK_DURATION_SECONDS = Some (evs0, Inr chunks)"
        by (rule split)
      show "transcribeWithChunking env audioPath lang op = Some (evs, ?res)"
        by (rule run)
      show "0 < getAudioDuration env audioPath \<longrightarrow>
           Inr chunks =
           Inr (map (\<lambda>k. \<lparr>chunk_path = Chunk k, chunk_startTime = of_nat k * 300,
                            chunk_duration =
                              min 300 (getAudioDuration env audioPath - of_nat k * 300)\<rparr>)
                    (filter (ffmpeg_ok env)
                       [0..<nat \<lceil>getAudioDuration env audioPath / 300\<rceil>]))"
        by (simp add: chunks_def)
      show "let chunks = (case Inr chunks of Inr cs \<Rightarrow> cs | Inl e \<Rightarrow> []);
                outs = List.map_filter (\<lambda>c. snd (transcribeChunk env c)) chunks
            in ((\<exists>e. ?res = Inl e) \<longleftrightarrow> outs = []) \<and>
               (outs \<noteq> [] \<longrightarrow>
                  ?res = Inr \<lparr>tr_transcription = hd outs @ concat (map (\<lambda>t. [10, 10] @ t) (tl outs)),
                             tr_language = lang\<rparr>)"
        using empty joined by (auto simp: Let_def outs_def [symmetric])
      show "\<forall>c. snd (transcribeChunk env c) =
         (case snd (uploadWithRetry env (chunk_path c) 3 False) of
            Inl e \<Rightarrow> None
          | Inr uploaded \<Rightarrow>
              if file_state (snd (waitLoop env (chunk_path c) 30 False uploaded 0 [])) =
                 str ''FAILED''
              then None
              else map_option
                     (\<lambda>t. [10] @ str ''['' @ formatTimestamp (chunk_startTime c) @ str '']'' @
                          [10] @ t)
                     (produced_text (generateContent env (chunk_path c) 1))) \<and>
         generate_attempts (fst (transcribeChunk env c)) \<le> 1 \<and>
         upload_attempts (fst (transcribeChunk env c)) \<le> 3"
        by (rule each)
    qed
  qed
qed

lemma sample_transcribeChunk:
  "transcribeChunk (sample_env d b) c =
     ([Call_uploadFile, Call_generateContent], Some (headerText c @ str ''hello''))"
  by (simp add: transcribeChunk_def uploadWithRetry_3 sample_env_def waitLoop_not_processing
        onProgress_call_def trim_hello del: One_nat_def)

lemma sample_split_1200:
  "splitAudioIntoChunks (sample_env 1200 b) Audio CHUNK_DURATION_SECONDS =
     Some ([Exec_ffmpeg 0 0 300, Exec_ffmpeg 1 300 300, Exec_ffmpeg 2 600 300,
            Exec_ffmpeg 3 900 300],
           Inr [sample_chunk 0, sample_chunk 1, sample_chunk 2, sample_chunk 3])"
proof -
  have d: "getAudioDuration (sample_env 1200 b) Audio = 1200" by (simp add: sample_env_def)
  have n: "nat \<lceil>(1200 :: rat) / 300\<rceil> = 4" by simp
  have okf: "ffmpeg_ok (sample_env 1200 b) = (\<lambda>i. True)" by (simp add: sample_env_def)
  have upt4: "[0..<4] = [0, 1, 2, 3 :: nat]" by (simp add: upt_rec eval_nat_numeral)
  have pos: "0 < getAudioDuration (sample_env 1200 b) Audio" by (simp add: d)
  show ?thesis
    using splitAudioIntoChunks_result [OF pos, of 300]
    by (simp add: CHUNK_DURATION_SECONDS_def d n okf upt4 sample_chunk_def)
qed

lemma chunked_run:
  "transcribeAudio (sample_env 1200 100) Audio (str ''en'') True =
   Some
  ([Progress 45, Progress 48, Progress 50, Exec_ffmpeg 0 0 300,
    Exec_ffmpeg 1 300 300, Exec_ffmpeg 2 600 300, Exec_ffmpeg 3 900 300,
    Progress 50, Call_uploadFile, Call_generateContent, Progress 60,
    Call_uploadFile, Call_generateContent, Progress 70, Call_uploadFile,
    Call_generateContent, Progress 80, Call_uploadFile,
    Call_generateContent, Progress 95, Progress 100],
   Inr \<lparr>tr_transcription = join [newline, newline]
            [headerText (sample_chunk 0) @ str ''hello'', headerText (sample_chunk 1) @ str ''hello'',
             headerText (sample_chunk 2) @ str ''hello'', headerText (sample_chunk 3) @ str ''hello''],
          tr_language = str ''English''\<rparr>)"
proof -
  have en: "languageName_of (str ''en'') = str ''English''"
    by (simp add: languageName_of_def supportedLanguages_def)
  have env: "geminiApiKey (sample_env 1200 100) \<noteq> []"
    "getAudioDuration (sample_env 1200 100) Audio = 1200"
    by (simp_all add: sample_env_def)
  have chunked: "transcribeWithChunking (sample_env 1200 100) Audio (str ''English'') True =
    Some ([Progress 50, Exec_ffmpeg 0 0 300,
    Exec_ffmpeg 1 300 300, Exec_ffmpeg 2 600 300, Exec_ffmpeg 3 900 300,
    Progress 50, Call_uploadFile, Call_generateContent, Progress 60,
    Call_uploadFile, Call_generateContent, Progress 70, Call_uploadFile,
    Call_generateContent, Progress 80, Call_uploadFile,
    Call_generateContent, Progress 95, Progress 100],
   Inr \<lparr>tr_transcription = join [newline, newline]
            [headerText (sample_chunk 0) @ str ''hello'', headerText (sample_chunk 1) @ str ''hello'',
             headerText (sample_chunk 2) @ str ''hello'', headerText (sample_chunk 3) @ str ''hello''],
          tr_language = str ''English''\<rparr>)"
    by (simp add: transcribeWithChunking_def sample_split_1200 sample_transcribeChunk
          onProgress_call_def Let_def del: join.simps)
  show ?thesis
    by (simp add: transcribeAudio_def Let_def env en chunked CHUNKING_THRESHOLD_SECONDS_def
          onProgress_call_def del: join.simps)
qed

lemma late_run:
  "transcribeAudio late_success_env Audio (str ''en'') True =
   Some
  ([Progress 45, Progress 48, Progress 50, Progress 51, Call_uploadFile,
    Progress 55, Progress 65, Progress 67, Call_generateContent, Sleep 3000,
    Progress 69, Call_generateContent, Sleep 3000, Progress 71, Call_generateContent,
    Progress 70],
   Inr \<lparr>tr_transcription = str ''hello'', tr_language = str ''English''\<rparr>)"
proof -
  have en: "languageName_of (str ''en'') = str ''English''"
    by (simp add: languageName_of_def supportedLanguages_def)
  have env: "geminiApiKey late_success_env \<noteq> []"
    "getAudioDuration late_success_env Audio = 500"
    "fileSize late_success_env = 5000000"
    "uploadFile late_success_env Audio 1 = Returned \<lparr>file_state = str ''ACTIVE''\<rparr>"
    "generateContent late_success_env Audio 1 = Threw (str ''overloaded'')"
    "generateContent late_success_env Audio 2 = Threw (str ''overloaded'')"
    "generateContent late_success_env Audio 3 = Returned (str ''hello'')"
    by (simp_all add: late_success_env_def sample_env_def)
  have api: "transcribeWithFileAPI late_success_env Audio (str ''English'') True =
     ([Progress 50, Progress 51, Call_uploadFile,
    Progress 55, Progress 65, Progress 67, Call_generateContent, Sleep 3000,
    Progress 69, Call_generateContent, Sleep 3000, Progress 71, Call_generateContent,
    Progress 70],
   Inr \<lparr>tr_transcription = str ''hello'', tr_language = str ''English''\<rparr>)"
    by (simp add: transcribeWithFileAPI_def uploadWithRetry_3 env waitLoop_not_processing
          generateLoop_3 produced_text_def thrown_message_def pause_after_def trim_hello
          onProgress_call_def del: One_nat_def)
  show ?thesis
    by (simp add: transcribeAudio_def Let_def env en api CHUNKING_THRESHOLD_SECONDS_def
          FILE_SIZE_THRESHOLD_def onProgress_call_def)
qed

lemma progress_values_simps [simp]:
  "progress_values [] = []"
  "progress_values (Sleep n # evs) = progress_values evs"
  "progress_values (Progress p # evs) = p # progress_values evs"
  "progress_values (Exec_ffmpeg i s d # evs) = progress_values evs"
  "progress_values (Call_uploadFile # evs) = progress_values evs"
  "progress_values (Call_generateContent # evs) = progress_values evs"
  "progress_values (xs @ ys) = progress_values xs @ progress_values ys"
  by (simp_all add: progress_values_def)

text \<open>
  C2, at two inputs where the code departs from it. For a 1200 s audio the chunked path
  reports 95 and 100 before the task stores 70 with status \<open>completed\<close>. For a short
  audio above the inline size limit whose transcription succeeds at the third attempt,
  that attempt reports 71 before the path reports 70.
\<close>

theorem progress_falls_back_after_transcription:
  "map_option (map (\<lambda>j. (job_status j, job_progress j)))
     (processVideoAsync sample_downloader (sample_env 1200 100) sample_job) =
     Some [(downloading, 5), (downloading, 10), (downloading, 15), (downloading, 25),
           (downloading, 40), (transcribing, 45), (transcribing, 45), (transcribing, 48),
           (transcribing, 50), (transcribing, 50), (transcribing, 60), (transcribing, 70),
           (transcribing, 80), (transcribing, 95), (transcribing, 100), (completed, 70)] \<and>
   map_option (map (\<lambda>j. (job_status j, job_progress j)))
     (processVideoAsync sample_downloader late_success_env sample_job) =
     Some [(downloading, 5), (downloading, 10), (downloading, 15), (downloading, 25),
           (downloading, 40), (transcribing, 45), (transcribing, 45), (transcribing, 48),
           (transcribing, 50), (transcribing, 51), (transcribing, 55), (transcribing, 65),
           (transcribing, 67), (transcribing, 69), (transcribing, 71), (transcribing, 70),
           (completed, 70)]"
proof -
  have lang: "job_language sample_job = str ''en''" by (simp add: sample_job_def)
  show ?thesis
    by (simp add: processVideoAsync_def Let_def sample_download lang chunked_run late_run
          updateStatus_def del: join.simps)
qed

lemma waitLoop_step:
  "file_state ufile = str ''PROCESSING'' \<Longrightarrow> waitCount < maxWait \<Longrightarrow>
   waitLoop env p maxWait rep ufile waitCount evs =
     waitLoop env p maxWait rep
       (case getFile env p waitCount of Returned f \<Rightarrow> f | Threw e \<Rightarrow> ufile)
       (waitCount + 1)
       (evs @ [Sleep 2000] @ onProgress_call rep (55 + min (waitCount + 1) 10))"
  by (subst waitLoop.simps) simp

declare nat_toString.simps [simp del]

lemma formatTimestamp_samples:
  "formatTimestamp 0 = str ''00:00''"
  "formatTimestamp 1200 = str ''20:00''"
proof -
  have d: "nat_toString 0 = [48]" "nat_toString 20 = [50, 48]" "nat_toString 2 = [50]"
    by (simp_all add: nat_toString.simps [of 0] nat_toString.simps [of 20] nat_toString.simps [of 2])
  have r: "js_rem 0 60 = 0" "js_rem 1200 60 = 0" by (simp_all add: js_rem_def Let_def)
  show "formatTimestamp 0 = str ''00:00''"
    by (simp add: formatTimestamp_def Let_def r toString_def padStart_def d str_def)
  show "formatTimestamp 1200 = str ''20:00''"
    by (simp add: formatTimestamp_def Let_def r toString_def padStart_def d str_def)
qed

lemma flaky_split:
  "splitAudioIntoChunks flaky_env Audio CHUNK_DURATION_SECONDS =
     Some (map (\<lambda>k. Exec_ffmpeg k (of_nat k * 300) 300) [0, 1, 2, 3, 4, 5],
           Inr (map sample_chunk [0, 1, 2, 3, 4]))"
proof -
  have d: "getAudioDuration flaky_env Audio = 1800" by (simp add: flaky_env_def sample_env_def)
  have n: "nat \<lceil>(1800 :: rat) / 300\<rceil> = 6" by simp
  have okf: "ffmpeg_ok flaky_env = (\<lambda>i. i \<noteq> 5)" by (simp add: flaky_env_def sample_env_def)
  have upt6: "[0..<6] = [0, 1, 2, 3, 4, 5 :: nat]" by (simp add: upt_rec eval_nat_numeral)
  have pos: "0 < getAudioDuration flaky_env Audio" by (simp add: d)
  show ?thesis
    using splitAudioIntoChunks_result [OF pos, of 300]
    by (simp add: CHUNK_DURATION_SECONDS_def d n okf upt6 sample_chunk_def)
qed

lemma flaky_uploads:
  "uploadWithRetry flaky_env (Chunk 1) 3 False =
     ([Call_uploadFile, Sleep 2000, Call_uploadFile, Sleep 4000, Call_uploadFile],
      Inl (str ''upload refused''))"
  "k \<noteq> 1 \<Longrightarrow> uploadWithRetry flaky_env (Chunk k) 3 False =
     ([Call_uploadFile], Inr \<lparr>file_state = str ''PROCESSING''\<rparr>)"
  by (simp_all add: uploadWithRetry_3 flaky_env_def sample_env_def onProgress_call_def
        del: One_nat_def)

lemma flaky_wait:
  "waitLoop flaky_env (Chunk k) 30 False \<lparr>file_state = str ''PROCESSING''\<rparr> 0 evs =
     (evs @ [Sleep 2000],
      \<lparr>file_state = (if k = 2 then str ''FAILED'' else str ''ACTIVE'')\<rparr>)"
  by (simp add: waitLoop_step waitLoop_not_processing flaky_env_def sample_env_def
        onProgress_call_def)

lemma trim_padded_Cons: "trim (160 # str '' hello '' @ [8232]) = str ''hello''"
  using trim_padded by simp

lemma flaky_texts:
  "k \<noteq> 3 \<Longrightarrow> produced_text (generateContent flaky_env (Chunk k) 1) = Some (str ''hello'')"
  "produced_text (generateContent flaky_env (Chunk 3) 1) = None"
  by (simp_all add: flaky_env_def sample_env_def produced_text_def trim_padded_Cons
        del: One_nat_def)

lemma flaky_outputs:
  "snd (transcribeChunk flaky_env (sample_chunk 0)) = Some (str ''\<newline>[00:00]\<newline>hello'')"
  "snd (transcribeChunk flaky_env (sample_chunk 1)) = None"
  "snd (transcribeChunk flaky_env (sample_chunk 2)) = None"
  "snd (transcribeChunk flaky_env (sample_chunk 3)) = None"
  "snd (transcribeChunk flaky_env (sample_chunk 4)) = Some (str ''\<newline>[20:00]\<newline>hello'')"
proof -
  have h: "[10] @ str ''['' @ str ''00:00'' @ str '']'' @ [10] @ str ''hello'' =
             str ''\<newline>[00:00]\<newline>hello''"
          "[10] @ str ''['' @ str ''20:00'' @ str '']'' @ [10] @ str ''hello'' =
             str ''\<newline>[20:00]\<newline>hello''"
    by (simp_all add: str_def)
  show "snd (transcribeChunk flaky_env (sample_chunk 0)) = Some (str ''\<newline>[00:00]\<newline>hello'')"
    unfolding transcribeChunk_output
    by (simp add: sample_chunk_def flaky_uploads flaky_wait flaky_texts formatTimestamp_samples h
          del: One_nat_def append.simps)
  show "snd (transcribeChunk flaky_env (sample_chunk 1)) = None"
    unfolding transcribeChunk_output by (simp add: sample_chunk_def flaky_uploads del: One_nat_def)
  show "snd (transcribeChunk flaky_env (sample_chunk 2)) = None"
    unfolding transcribeChunk_output
    by (simp add: sample_chunk_def flaky_uploads flaky_wait del: One_nat_def)
  show "snd (transcribeChunk flaky_env (sample_chunk 3)) = None"
    unfolding transcribeChunk_output
    by (simp add: sample_chunk_def flaky_uploads flaky_wait flaky_texts del: One_nat_def)
  show "snd (transcribeChunk flaky_env (sample_chunk 4)) = Some (str ''\<newline>[20:00]\<newline>hello'')"
    unfolding transcribeChunk_output
    by (simp add: sample_chunk_def flaky_uploads flaky_wait flaky_texts formatTimestamp_samples h
          del: One_nat_def append.simps)
qed

theorem chunk_failures_are_skipped_witness:
  "\<exists>evs res. transcribeWithChunking flaky_env Audio (str ''English'') False = Some (evs, Inr res) \<and>
     tr_transcription res =
       str ''\<newline>[00:00]\<newline>hello\<newline>\<newline>\<newline>[20:00]\<newline>hello'' \<and>
     snd (transcribeChunk flaky_env (sample_chunk 1)) = None \<and>
     snd (transcribeChunk flaky_env (sample_chunk 2)) = None \<and>
     snd (transcribeChunk flaky_env (sample_chunk 3)) = None \<and>
     0 < getAudioDuration flaky_env Audio \<and> \<not> ffmpeg_ok flaky_env 5 \<and>
     filter (ffmpeg_ok flaky_env) [0..<nat \<lceil>getAudioDuration flaky_env Audio / 300\<rceil>] =
       [0, 1, 2, 3, 4]"
proof -
  from chunk_failures_are_skipped [of flaky_env Audio "str ''English''" False]
  obtain evs0 sres evs res where
    split: "splitAudioIntoChunks flaky_env Audio CHUNK_DURATION_SECONDS = Some (evs0, sres)"
    and run: "transcribeWithChunking flaky_env Audio (str ''English'') False = Some (evs, res)"
    and merged: "let chunks = (case sres of Inr cs \<Rightarrow> cs | Inl e \<Rightarrow> []);
           outs = List.map_filter (\<lambda>c. snd (transcribeChunk flaky_env c)) chunks
       in ((\<exists>e. res = Inl e) \<longleftrightarrow> outs = []) \<and>
          (outs \<noteq> [] \<longrightarrow>
             res = Inr \<lparr>tr_transcription = hd outs @ concat (map (\<lambda>t. [10, 10] @ t) (tl outs)),
                        tr_language = str ''English''\<rparr>)"
    by blast
  from split have sres: "sres = Inr (map sample_chunk [0, 1, 2, 3, 4])"
    by (simp add: flaky_split)
  have outs: "List.map_filter (\<lambda>c. snd (transcribeChunk flaky_env c)) (map sample_chunk [0, 1, 2, 3, 4]) =
          [str ''\<newline>[00:00]\<newline>hello'', str ''\<newline>[20:00]\<newline>hello'']"
    by (simp add: List.map_filter_def flaky_outputs del: One_nat_def)
  have glued: "str ''\<newline>[00:00]\<newline>hello'' @ [10, 10] @ str ''\<newline>[20:00]\<newline>hello'' =
              str ''\<newline>[00:00]\<newline>hello\<newline>\<newline>\<newline>[20:00]\<newline>hello''"
    by (simp add: str_def)
  from merged have res: "res = Inr \<lparr>tr_transcription =
         str ''\<newline>[00:00]\<newline>hello\<newline>\<newline>\<newline>[20:00]\<newline>hello'',
                        tr_language = str ''English''\<rparr>"
    unfolding sres Let_def sum.case outs by (simp add: glued del: append.simps)
  note skipped = flaky_outputs(2,3,4)
  have d: "getAudioDuration flaky_env Audio = 1800" and broken: "\<not> ffmpeg_ok flaky_env 5"
    by (simp_all add: flaky_env_def sample_env_def)
  have n: "nat \<lceil>(1800 :: rat) / 300\<rceil> = 6" by simp
  have upt6: "[0..<6] = [0, 1, 2, 3, 4, 5 :: nat]" by (simp add: upt_rec eval_nat_numeral)
  have kept: "filter (ffmpeg_ok flaky_env) [0..<nat \<lceil>getAudioDuration flaky_env Audio / 300\<rceil>] =
       [0, 1, 2, 3, 4]"
    by (simp add: d n upt6) (simp add: flaky_env_def sample_env_def)
  from run res skipped d broken kept show ?thesis by (simp del: One_nat_def)
qed

end
